(* ===== verification/Prelude.thy ===== *)
theory Prelude
  imports Main "HOL-Library.Word" "HOL-Library.AList" "HOL-Library.Char_ord"
    "HOL-Library.List_Lexorder"
begin

text \<open>
  The shared base of the development: the integer types of the C++ code, exceptions as
  values, the \<open>std::string_view\<close> searches the parser uses, \<open>std::to_string\<close>, raw
  buffer operations (\<open>resize\<close>, \<open>memcpy\<close>, \<open>memmove\<close>) on lists, and
  \<open>std::unordered_map\<close> as an association list with distinct keys whose order is the
  (unspecified) iteration order. The named collections below gather the facts that the
  component theories hand to the simplifier.
\<close>

named_theorems buf_simps \<open>unfolding rules of buffer operations\<close>
named_theorems res_simps \<open>evaluation of results with exceptions\<close>

section \<open>Integers of the code\<close>

text \<open>
  \<open>int\<close>, \<open>int32_t\<close>, \<open>int64_t\<close> and \<open>uint64_t\<close> at their width. The signed ones are
  read with \<^const>\<open>sint\<close>. \<open>size_t\<close> counts bytes and elements held in memory and is a
  \<^typ>\<open>nat\<close>; only its subtraction can wrap, which \<open>size_sub\<close> writes out.
\<close>

type_synonym int32 = "32 word"
type_synonym int64 = "64 word"
type_synonym uint64 = "64 word"

definition size_sub :: "nat \<Rightarrow> nat \<Rightarrow> nat" where
  "size_sub a b = (if b \<le> a then a - b else a + 2 ^ 64 - b)"

lemma size_sub_le [simp]: "b \<le> a \<Longrightarrow> size_sub a b = a - b"
  by (simp add: size_sub_def)

section \<open>Exceptions as values\<close>

text \<open>
  Every exception the sources throw or let pass derives from \<open>std::exception\<close>; the
  argument is what \<open>what()\<close> returns.
\<close>

datatype exn =
    Json_parse_error string
  | Json_type_error string
  | Runtime_error string
  | Invalid_argument string
  | Out_of_range string

fun what :: "exn \<Rightarrow> string" where
  "what (Json_parse_error m) = m"
| "what (Json_type_error m) = m"
| "what (Runtime_error m) = m"
| "what (Invalid_argument m) = m"
| "what (Out_of_range m) = m"

type_synonym 'a res = "exn + 'a"

definition res_bind :: "'a res \<Rightarrow> ('a \<Rightarrow> 'b res) \<Rightarrow> 'b res" where
  "res_bind m f = (case m of Inl e \<Rightarrow> Inl e | Inr x \<Rightarrow> f x)"

lemma res_bind_simps [simp, res_simps]:
  "res_bind (Inl e) f = Inl e"
  "res_bind (Inr x) f = f x"
  by (simp_all add: res_bind_def)

lemma res_bind_Inr_iff:
  "res_bind m f = Inr y \<longleftrightarrow> (\<exists>x. m = Inr x \<and> f x = Inr y)"
  by (cases m) simp_all

lemma res_bind_Inl_iff:
  "res_bind m f = Inl e \<longleftrightarrow> m = Inl e \<or> (\<exists>x. m = Inr x \<and> f x = Inl e)"
  by (cases m) simp_all

text \<open>The shape \<open>if (!x) return std::nullopt;\<close> inside a function that may throw.\<close>

lemma res_bind_opt_Some:
  "res_bind m (\<lambda>x. case x of None \<Rightarrow> Inr None | Some y \<Rightarrow> f y) = Inr (Some r) \<longleftrightarrow>
     (\<exists>y. m = Inr (Some y) \<and> f y = Inr (Some r))"
  by (cases m) (auto split: option.splits)

section \<open>Searching a string\<close>

abbreviation newline :: char where
  "newline \<equiv> CHR 0x0A"

text \<open>The set \<^verbatim>\<open>" \t\r"\<close> of \<open>find_first_not_of\<close> and \<open>find_last_not_of\<close>.\<close>

definition blanks :: "char list" where
  "blanks = [CHR '' '', CHR 0x09, CHR 0x0D]"

fun find_char :: "char \<Rightarrow> string \<Rightarrow> nat option" where
  "find_char c [] = None"
| "find_char c (x # xs) = (if x = c then Some 0 else map_option Suc (find_char c xs))"

fun find_first_not_of :: "char list \<Rightarrow> string \<Rightarrow> nat option" where
  "find_first_not_of ws [] = None"
| "find_first_not_of ws (x # xs) =
     (if x \<in> set ws then map_option Suc (find_first_not_of ws xs) else Some 0)"

fun find_last_not_of :: "char list \<Rightarrow> string \<Rightarrow> nat option" where
  "find_last_not_of ws [] = None"
| "find_last_not_of ws (x # xs) =
     (case find_last_not_of ws xs of
        Some i \<Rightarrow> Some (Suc i)
      | None \<Rightarrow> (if x \<in> set ws then None else Some 0))"

lemma find_char_None [simp]: "find_char c xs = None \<longleftrightarrow> c \<notin> set xs"
  by (induction xs) auto

lemma find_char_Some_iff:
  "find_char c xs = Some i \<longleftrightarrow> i < length xs \<and> xs ! i = c \<and> c \<notin> set (take i xs)"
proof (induction xs arbitrary: i)
  case Nil
  then show ?case by simp
next
  case (Cons x xs)
  show ?case by (cases i) (auto simp: Cons.IH)
qed

lemma find_char_split:
  "find_char c xs = Some i \<Longrightarrow> xs = take i xs @ c # drop (Suc i) xs"
  using id_take_nth_drop by (fastforce simp: find_char_Some_iff)

lemma find_char_append_None [simp]:
  "c \<notin> set xs \<Longrightarrow> find_char c (xs @ ys) = map_option ((+) (length xs)) (find_char c ys)"
proof (induction xs)
  case Nil
  show ?case by (simp add: option.map_ident)
next
  case (Cons x xs)
  then show ?case by (auto simp: option.map_comp comp_def)
qed

lemma find_char_append_Some:
  "find_char c xs = Some i \<Longrightarrow> find_char c (xs @ ys) = Some i"
  by (auto simp: find_char_Some_iff nth_append)

lemma find_first_not_of_None [simp]:
  "find_first_not_of ws xs = None \<longleftrightarrow> set xs \<subseteq> set ws"
  by (induction xs) auto

lemma find_last_not_of_None [simp]:
  "find_last_not_of ws xs = None \<longleftrightarrow> set xs \<subseteq> set ws"
  by (induction xs) (auto split: option.splits)

lemma find_last_not_of_snoc:
  "find_last_not_of ws (xs @ [x]) =
     (if x \<in> set ws then find_last_not_of ws xs else Some (length xs))"
  by (induction xs) auto

lemma find_first_not_of_hd:
  "xs \<noteq> [] \<Longrightarrow> hd xs \<notin> set ws \<Longrightarrow> find_first_not_of ws xs = Some 0"
  by (cases xs) auto

lemma find_last_not_of_last:
  "xs \<noteq> [] \<Longrightarrow> last xs \<notin> set ws \<Longrightarrow> find_last_not_of ws xs = Some (length xs - 1)"
  by (cases xs rule: rev_cases) (auto simp: find_last_not_of_snoc)

text \<open>
  \<open>line.substr(start, end - start + 1)\<close> with the two searches above removes the blanks
  at both ends.
\<close>

definition trim :: "char list \<Rightarrow> string \<Rightarrow> string" where
  "trim ws xs = rev (dropWhile (\<lambda>c. c \<in> set ws) (rev (dropWhile (\<lambda>c. c \<in> set ws) xs)))"

lemma drop_first_not_of:
  "find_first_not_of ws xs = Some i \<Longrightarrow> drop i xs = dropWhile (\<lambda>c. c \<in> set ws) xs"
  by (induction xs arbitrary: i) (auto split: if_splits)

lemma find_last_not_of_less: "find_last_not_of ws xs = Some i \<Longrightarrow> i < length xs"
  by (induction xs arbitrary: i) (auto split: option.splits if_splits)

lemma take_last_not_of:
  "find_last_not_of ws xs = Some i \<Longrightarrow>
     take (Suc i) xs = rev (dropWhile (\<lambda>c. c \<in> set ws) (rev xs))"
  by (induction xs rule: rev_induct) (auto simp: find_last_not_of_snoc Suc_le_eq dest: find_last_not_of_less split: if_splits)

lemma find_last_not_of_drop:
  "find_first_not_of ws xs = Some i \<Longrightarrow> find_last_not_of ws xs = Some j \<Longrightarrow>
     i \<le> j \<and> find_last_not_of ws (drop i xs) = Some (j - i)"
proof (induction xs arbitrary: i j)
  case (Cons x xs)
  show ?case
  proof (cases "x \<in> set ws")
    case True
    then obtain i' where i: "i = Suc i'" "find_first_not_of ws xs = Some i'"
      using Cons.prems(1) by auto
    then have "find_last_not_of ws xs \<noteq> None"
      by (metis find_first_not_of_None find_last_not_of_None option.distinct(1))
    then obtain j' where j: "find_last_not_of ws xs = Some j'" by blast
    with Cons.prems(2) have "j = Suc j'" by simp
    with Cons.IH [OF i(2) j] i show ?thesis by simp
  next
    case False
    with Cons.prems show ?thesis by simp
  qed
qed simp

lemma substr_trim:
  assumes "find_first_not_of ws xs = Some i" and "find_last_not_of ws xs = Some j"
  shows "take (j - i + 1) (drop i xs) = trim ws xs"
  using take_last_not_of [of ws "drop i xs" "j - i"] drop_first_not_of [OF assms(1)]
    find_last_not_of_drop [OF assms]
  by (simp add: trim_def)

lemma trim_id: "xs \<noteq> [] \<Longrightarrow> hd xs \<notin> set ws \<Longrightarrow> last xs \<notin> set ws \<Longrightarrow> trim ws xs = xs"
  using substr_trim [OF find_first_not_of_hd find_last_not_of_last, of xs ws] by simp

section \<open>Decimal numbers\<close>

text \<open>\<open>std::to_string\<close> and \<open>operator<<\<close> on integers.\<close>

definition digit_char :: "nat \<Rightarrow> char" where
  "digit_char d = char_of (48 + d)"

fun nat_string :: "nat \<Rightarrow> string" where
  "nat_string n =
     (if n < 10 then [digit_char n] else nat_string (n div 10) @ [digit_char (n mod 10)])"

declare nat_string.simps [simp del]

definition int_string :: "int \<Rightarrow> string" where
  "int_string i = (if i < 0 then ''-'' @ nat_string (nat (- i)) else nat_string (nat i))"

definition is_digit :: "char \<Rightarrow> bool" where
  "is_digit c \<longleftrightarrow> 48 \<le> (of_char c :: nat) \<and> (of_char c :: nat) \<le> 57"

definition digit_val :: "char \<Rightarrow> nat" where
  "digit_val c = of_char c - 48"

definition digits_val :: "string \<Rightarrow> nat" where
  "digits_val = foldl (\<lambda>n c. 10 * n + digit_val c) 0"

lemma of_char_digit [simp]: "d < 10 \<Longrightarrow> (of_char (digit_char d) :: nat) = 48 + d"
  by (simp add: digit_char_def)

lemma is_digit_digit_char [simp]: "d < 10 \<Longrightarrow> is_digit (digit_char d)"
  by (simp add: is_digit_def)

lemma digit_val_digit_char [simp]: "d < 10 \<Longrightarrow> digit_val (digit_char d) = d"
  by (simp add: digit_val_def)

lemma nat_string_not_Nil [simp]: "nat_string n \<noteq> []"
  by (subst nat_string.simps) simp

lemma nat_string_digits: "c \<in> set (nat_string n) \<Longrightarrow> is_digit c"
proof (induction n rule: nat_string.induct)
  case (1 n)
  then show ?case
    by (cases "n < 10") (auto simp: nat_string.simps [of n])
qed

lemma digits_val_nat_string [simp]: "digits_val (nat_string n) = n"
proof (induction n rule: nat_string.induct)
  case (1 n)
  then show ?case
    by (cases "n < 10") (simp_all add: nat_string.simps [of n] digits_val_def)
qed

lemma nat_string_inject [simp]: "nat_string m = nat_string n \<longleftrightarrow> m = n"
  by (metis digits_val_nat_string)

section \<open>Raw memory of a \<open>std::vector<char>\<close>\<close>

text \<open>
  \<open>resize\<close> cuts or zero-fills, \<open>overwrite\<close> is \<open>memcpy\<close>/\<open>memmove\<close> to an offset
  inside the vector, \<open>slice\<close> the bytes of a \<open>string_view\<close>.
\<close>

definition resize :: "nat \<Rightarrow> char list \<Rightarrow> char list" where
  "resize n xs = take n xs @ replicate (n - length xs) (CHR 0x00)"

definition overwrite :: "nat \<Rightarrow> 'a list \<Rightarrow> 'a list \<Rightarrow> 'a list" where
  "overwrite p ys xs = take p xs @ ys @ drop (p + length ys) xs"

definition slice :: "nat \<Rightarrow> nat \<Rightarrow> 'a list \<Rightarrow> 'a list" where
  "slice p n xs = take n (drop p xs)"

lemma length_resize [simp, buf_simps]: "length (resize n xs) = n"
  by (simp add: resize_def)

lemma take_resize [buf_simps]: "k \<le> n \<Longrightarrow> k \<le> length xs \<Longrightarrow> take k (resize n xs) = take k xs"
  by (simp add: resize_def)

lemma length_overwrite [simp, buf_simps]:
  "p + length ys \<le> length xs \<Longrightarrow> length (overwrite p ys xs) = length xs"
  by (simp add: overwrite_def)

lemma take_overwrite_below [buf_simps]:
  "k \<le> p \<Longrightarrow> p \<le> length xs \<Longrightarrow> take k (overwrite p ys xs) = take k xs"
  by (simp add: overwrite_def)

lemma take_overwrite_upto [buf_simps]:
  "p \<le> length xs \<Longrightarrow> take (p + length ys) (overwrite p ys xs) = take p xs @ ys"
  by (simp add: overwrite_def)

lemma slice_eq_drop_take: "slice p n xs = drop p (take (p + n) xs)"
  by (simp add: slice_def drop_take)

lemma length_slice [simp, buf_simps]: "p + n \<le> length xs \<Longrightarrow> length (slice p n xs) = n"
  by (simp add: slice_def)

section \<open>\<open>std::unordered_map\<close> as an association list\<close>

text \<open>
  \<open>m[k] = v\<close> is \<^const>\<open>AList.update\<close>, \<open>m.erase(k)\<close> is \<^const>\<open>AList.delete\<close>,
  \<open>m.find(k)\<close> is \<^const>\<open>map_of\<close>, \<open>m.size()\<close> is \<^const>\<open>length\<close>. The order of the
  list stands for the iteration order, which the standard leaves unspecified: no theorem
  of the development depends on it.
\<close>

type_synonym ('k, 'v) umap = "('k \<times> 'v) list"

abbreviation keys_ok :: "('k, 'v) umap \<Rightarrow> bool" where
  "keys_ok m \<equiv> distinct (map fst m)"

lemma keys_ok_update [simp, intro]: "keys_ok m \<Longrightarrow> keys_ok (AList.update k v m)"
  by (rule distinct_update)

lemma keys_ok_delete [simp, intro]: "keys_ok m \<Longrightarrow> keys_ok (AList.delete k m)"
  by (rule distinct_delete)

lemma umap_update [simp]: "map_of (AList.update k v m) k' = (if k' = k then Some v else map_of m k')"
  by (simp add: update_conv)

lemma umap_delete [simp]: "map_of (AList.delete k m) k' = (if k' = k then None else map_of m k')"
  by (simp add: delete_conv')

lemma update_fresh: "map_of m k = None \<Longrightarrow> AList.update k v m = m @ [(k, v)]"
  by (induction m) auto

lemma update_again: "AList.update k v (AList.update k u m) = AList.update k v m"
  by (induction m) auto

lemma update_append:
  "k \<notin> fst ` set xs \<Longrightarrow> AList.update k v (xs @ (k, u) # ys) = xs @ (k, v) # ys"
  by (induction xs) auto

lemma delete_update_fresh: "map_of m k = None \<Longrightarrow> AList.delete k (AList.update k v m) = m"
  by (induction m) auto

lemma length_update_fresh:
  "map_of m k = None \<Longrightarrow> length (AList.update k v m) = Suc (length m)"
  by (induction m) auto

lemma umap_length_update: "length (AList.update k v m) \<le> Suc (length m)"
  by (induction m) auto

lemma umap_length_delete: "length (AList.delete k m) \<le> length m"
  by (induction m) auto

lemma umap_keys: "fst ` set m = {k. \<exists>v. map_of m k = Some v}"
  using dom_map_of_conv_image_fst [of m] by (auto simp: dom_def)

lemma map_of_Some_length: "map_of m k = Some v \<Longrightarrow> 0 < length m"
  by (cases m) auto

end
