(* ===== verification/Json_Api.thy ===== *)
theory Json_Api
  imports Prelude
begin

text \<open>
  The JSON library (\<open>nlohmann::json\<close>) is third-party code: it is a parameter of the
  model. \<open>'j\<close> is its value type, where values that none of the operations below can tell
  apart are identified (in particular \<open>number_integer\<close> and \<open>number_unsigned\<close> of the
  same value), and a record \<open>'j json_api\<close> holds the operations that the sources call.
  The locale \<open>nlohmann_json\<close> states the documented behaviour that the sources rely on.
\<close>

section \<open>The operations\<close>

record 'j json_api =
  j_is_object :: "'j \<Rightarrow> bool"
  j_is_array :: "'j \<Rightarrow> bool"
  j_is_string :: "'j \<Rightarrow> bool"
  j_is_null :: "'j \<Rightarrow> bool"
  j_is_number_integer :: "'j \<Rightarrow> bool"
  \<comment> \<open>\<open>j.contains(k)\<close>, \<open>j[k]\<close> on a key that is there, \<open>j[k] = v\<close>\<close>
  j_contains :: "'j \<Rightarrow> string \<Rightarrow> bool"
  j_at :: "'j \<Rightarrow> string \<Rightarrow> 'j"
  j_set :: "'j \<Rightarrow> string \<Rightarrow> 'j \<Rightarrow> 'j"
  \<comment> \<open>\<open>get<std::string>()\<close>, \<open>get<int64_t>()\<close>, \<open>get<int>()\<close>\<close>
  j_get_string :: "'j \<Rightarrow> string res"
  j_get_int64 :: "'j \<Rightarrow> int64 res"
  j_get_int :: "'j \<Rightarrow> int32 res"
  \<comment> \<open>\<open>value(k, default)\<close> at the type of the default\<close>
  j_value_int :: "'j \<Rightarrow> string \<Rightarrow> int32 \<Rightarrow> int32 res"
  j_value_string :: "'j \<Rightarrow> string \<Rightarrow> string \<Rightarrow> string res"
  j_value_json :: "'j \<Rightarrow> string \<Rightarrow> 'j \<Rightarrow> 'j res"
  \<comment> \<open>constructors: a default-constructed value, scalars, arrays, objects\<close>
  j_null :: 'j
  j_bool :: "bool \<Rightarrow> 'j"
  j_int :: "int \<Rightarrow> 'j"
  j_string :: "string \<Rightarrow> 'j"
  j_array :: "'j list \<Rightarrow> 'j"
  j_object :: "(string \<times> 'j) list \<Rightarrow> 'j"
  \<comment> \<open>iteration over an array and \<open>size()\<close>\<close>
  j_elements :: "'j \<Rightarrow> 'j list"
  j_size :: "'j \<Rightarrow> nat"
  \<comment> \<open>text: \<open>json::parse\<close>, \<open>dump()\<close> and \<open>dump(2)\<close>\<close>
  j_parse :: "string \<Rightarrow> 'j res"
  j_dump :: "'j \<Rightarrow> string res"
  j_dump_indent :: "'j \<Rightarrow> string res"

section \<open>What the sources rely on\<close>

text \<open>
  \<open>json_kinds\<close>: the type queries exclude each other and fit the accessors. An accessor on
  a value of another type throws \<open>type_error\<close> (302 for \<open>get\<close>, 306 for \<open>value\<close>).
\<close>

locale json_kinds =
  fixes J :: "'j json_api"
  assumes null_kind: "j_is_null J j \<Longrightarrow>
      \<not> j_is_object J j \<and> \<not> j_is_string J j \<and> \<not> j_is_number_integer J j"
    and string_kind: "j_is_string J j \<Longrightarrow> \<not> j_is_object J j \<and> \<not> j_is_number_integer J j"
    and integer_kind: "j_is_number_integer J j \<Longrightarrow> \<not> j_is_object J j"
    and array_kind: "j_is_array J j \<Longrightarrow> \<not> j_is_object J j"
    and get_string_ok: "j_is_string J j \<Longrightarrow> \<exists>s. j_get_string J j = Inr s"
    and get_string_err: "\<not> j_is_string J j \<Longrightarrow> \<exists>m. j_get_string J j = Inl (Json_type_error m)"
    and get_int64_ok: "j_is_number_integer J j \<Longrightarrow> \<exists>i. j_get_int64 J j = Inr i"
    and get_int_ok: "j_is_number_integer J j \<Longrightarrow> \<exists>i. j_get_int J j = Inr i"
    and get_int_string_err: "j_is_string J j \<Longrightarrow> \<exists>m. j_get_int J j = Inl (Json_type_error m)"
    and value_int: "j_is_object J j \<Longrightarrow>
      j_value_int J j k d = (if j_contains J j k then j_get_int J (j_at J j k) else Inr d)"
    and value_string: "j_is_object J j \<Longrightarrow>
      j_value_string J j k t = (if j_contains J j k then j_get_string J (j_at J j k) else Inr t)"
    and value_json: "j_is_object J j \<Longrightarrow>
      j_value_json J j k v = Inr (if j_contains J j k then j_at J j k else v)"
    and value_err: "\<not> j_is_object J j \<Longrightarrow>
      (\<exists>m. j_value_int J j k d = Inl (Json_type_error m)) \<and>
      (\<exists>m. j_value_string J j k t = Inl (Json_type_error m)) \<and>
      (\<exists>m. j_value_json J j k v = Inl (Json_type_error m))"
    and contains_object: "j_contains J j k \<Longrightarrow> j_is_object J j"

text \<open>
  \<open>json_build\<close>: values built by the constructors are seen by the queries, and
  \<open>j[k] = v\<close> stores in an object, or turns \<open>null\<close> into an object first. Integers are
  stored in 64 bits (signed or unsigned) and converted by \<open>static_cast\<close>.
\<close>

locale json_build = json_kinds J for J :: "'j json_api" +
  assumes is_null_null: "j_is_null J (j_null J)"
    and is_string_string: "j_is_string J (j_string J s)"
    and get_string_string: "j_get_string J (j_string J s) = Inr s"
    and is_integer_int: "j_is_number_integer J (j_int J i)"
    and get_int64_int: "- (2 ^ 63) \<le> i \<Longrightarrow> i < 2 ^ 64 \<Longrightarrow>
      j_get_int64 J (j_int J i) = Inr (word_of_int i)"
    and get_int_int: "- (2 ^ 63) \<le> i \<Longrightarrow> i < 2 ^ 64 \<Longrightarrow>
      j_get_int J (j_int J i) = Inr (word_of_int i)"
    and is_array_array: "j_is_array J (j_array J js)"
    and elements_array: "j_elements J (j_array J js) = js"
    and is_object_object: "j_is_object J (j_object J ps)"
    and contains_object_iff: "j_contains J (j_object J ps) k \<longleftrightarrow> k \<in> fst ` set ps"
    and at_object: "distinct (map fst ps) \<Longrightarrow> (k, v) \<in> set ps \<Longrightarrow> j_at J (j_object J ps) k = v"
    and is_object_set: "j_is_object J j \<or> j_is_null J j \<Longrightarrow> j_is_object J (j_set J j k v)"
    and contains_set: "j_is_object J j \<or> j_is_null J j \<Longrightarrow>
      j_contains J (j_set J j k v) k' \<longleftrightarrow> k' = k \<or> j_contains J j k'"
    and at_set: "j_is_object J j \<or> j_is_null J j \<Longrightarrow>
      j_at J (j_set J j k v) k' = (if k' = k then v else j_at J j k')"

text \<open>
  \<open>nlohmann_json\<close>: \<open>dump()\<close> with its default arguments writes one line without
  surrounding blanks, control characters escaped, which \<open>parse\<close> reads back. It throws on
  strings that are not UTF-8 (\<open>utf8\<close> is the set it accepts); \<open>dumpable\<close> stands for the
  documents whose strings are UTF-8 and whose floating-point numbers are finite. \<open>parse\<close>
  only returns such documents and ignores white space around the document. \<open>dump(2)\<close> throws for
  the same documents as \<open>dump()\<close>; the message of a type error names types only.
\<close>

locale nlohmann_json = json_build J for J :: "'j json_api" +
  fixes utf8 :: "string \<Rightarrow> bool"
    and dumpable :: "'j \<Rightarrow> bool"
  assumes utf8_ascii: "(\<And>c. c \<in> set s \<Longrightarrow> (of_char c :: nat) < 128) \<Longrightarrow> utf8 s"
    and utf8_append: "utf8 s \<Longrightarrow> utf8 t \<Longrightarrow> utf8 (s @ t)"
    and dump_ok: "dumpable j \<Longrightarrow> \<exists>s. j_dump J j = Inr s"
    and dump_parse: "dumpable j \<Longrightarrow> j_dump J j = Inr s \<Longrightarrow> j_parse J s = Inr j"
    and dump_parse_line: "dumpable j \<Longrightarrow> j_dump J j = Inr s \<Longrightarrow> j_parse J (s @ [newline]) = Inr j"
    and dump_one_line: "j_dump J j = Inr s \<Longrightarrow> newline \<notin> set s"
    and dump_trimmed: "j_dump J j = Inr s \<Longrightarrow>
      s \<noteq> [] \<and> hd s \<notin> set blanks \<and> last s \<notin> set blanks"
    and parse_dumpable: "j_parse J s = Inr j \<Longrightarrow> dumpable j"
    and dumpable_null: "dumpable (j_null J)"
    and dumpable_int: "dumpable (j_int J i)"
    and dumpable_bool: "dumpable (j_bool J b)"
    and dumpable_array: "(\<And>v. v \<in> set js \<Longrightarrow> dumpable v) \<Longrightarrow> dumpable (j_array J js)"
    and dumpable_string: "utf8 s \<Longrightarrow> dumpable (j_string J s)"
    and dumpable_object: "(\<And>k v. (k, v) \<in> set ps \<Longrightarrow> utf8 k \<and> dumpable v) \<Longrightarrow>
      dumpable (j_object J ps)"
    and dumpable_set: "j_is_object J j \<or> j_is_null J j \<Longrightarrow> dumpable j \<Longrightarrow> utf8 k \<Longrightarrow>
      dumpable v \<Longrightarrow> dumpable (j_set J j k v)"
    and dumpable_at: "dumpable j \<Longrightarrow> j_contains J j k \<Longrightarrow> dumpable (j_at J j k)"
    and utf8_get_string: "dumpable j \<Longrightarrow> j_get_string J j = Inr s \<Longrightarrow> utf8 s"
    and utf8_get_string_err: "j_get_string J j = Inl e \<Longrightarrow> utf8 (what e)"
    and dump_indent_ok: "dumpable j \<Longrightarrow> \<exists>s. j_dump_indent J j = Inr s"

section \<open>Consequences shared by the clients\<close>

context json_build
begin

lemmas build_simps =
  is_null_null is_string_string get_string_string is_integer_int is_array_array
  is_object_object contains_object_iff is_object_set contains_set at_set

lemma null_not_object: "\<not> j_is_object J (j_null J)"
  using null_kind is_null_null by blast

lemma null_contains_nothing: "\<not> j_contains J (j_null J) k"
  using contains_object null_not_object by blast

lemma int_not_null: "\<not> j_is_null J (j_int J i)"
  using null_kind is_integer_int by blast

lemma string_not_null: "\<not> j_is_null J (j_string J s)"
  using null_kind is_string_string by blast

lemma get_int64_sint: "j_get_int64 J (j_int J (sint (w :: int64))) = Inr w"
proof -
  have "- (2 ^ 63) \<le> sint w" and "sint w < 2 ^ 63"
    using sint_greater_eq [of w] sint_lt [of w] by simp_all
  then show ?thesis by (subst get_int64_int) simp_all
qed

lemma get_int_sint: "j_get_int J (j_int J (sint (w :: int32))) = Inr w"
proof -
  have "- (2 ^ 31) \<le> sint w" and "sint w < 2 ^ 31"
    using sint_greater_eq [of w] sint_lt [of w] by simp_all
  then show ?thesis by (subst get_int_int) simp_all
qed

text \<open>A key can only be read from an object, and the object literal \<open>{{k, v}, ...}\<close>
  answers with the value given for the key.\<close>

lemma at_object_map_of:
  "distinct (map fst ps) \<Longrightarrow> map_of ps k = Some v \<Longrightarrow> j_at J (j_object J ps) k = v"
  by (rule at_object) (auto dest: map_of_SomeD)

lemma set_of_object:
  "j_contains J (j_set J (j_object J ps) k v) k' \<longleftrightarrow> k' = k \<or> k' \<in> fst ` set ps"
  "j_at J (j_set J (j_object J ps) k v) k' = (if k' = k then v else j_at J (j_object J ps) k')"
  "j_is_object J (j_set J (j_object J ps) k v)"
  by (simp_all add: build_simps)

end

context nlohmann_json
begin

lemma dump_cases:
  assumes "dumpable j"
  obtains s where "j_dump J j = Inr s" "j_parse J s = Inr j" "newline \<notin> set s"
    "s \<noteq> []" "hd s \<notin> set blanks" "last s \<notin> set blanks"
  using dump_ok [OF assms] dump_parse [OF assms] dump_one_line dump_trimmed by blast

end

end
