(* ===== verification/Json_Ref.thy ===== *)
theory Json_Ref
  imports Json_Api
begin

text \<open>
  A reference instance of the JSON interface: documents as a datatype, objects kept
  sorted by key as \<open>std::map\<close> keeps them, and a printer and a recursive-descent parser for
  the text syntax. It shows that the contract \<open>nlohmann_json\<close> is consistent, and closed
  examples evaluate on it. The instance covers integers (no floating-point numbers) and
  strings of 7-bit characters; its parser takes fuel, and \<open>parse_ref\<close> gives it more than
  the length of the text.
\<close>

section \<open>Documents\<close>

datatype jv =
    JNull
  | JBool bool
  | JInt int
  | JStr string
  | JArr "jv list"
  | JObj "(string \<times> jv) list"

fun put :: "string \<Rightarrow> 'v \<Rightarrow> (string \<times> 'v) list \<Rightarrow> (string \<times> 'v) list" where
  "put k v [] = [(k, v)]"
| "put k v ((k', v') # ps) =
     (if k < k' then (k, v) # (k', v') # ps
      else if k = k' then (k, v) # ps
      else (k', v') # put k v ps)"

definition mk_obj :: "(string \<times> 'v) list \<Rightarrow> (string \<times> 'v) list" where
  "mk_obj ps = fold (\<lambda>(k, v) m. put k v m) ps []"

abbreviation sorted_keys :: "(string \<times> 'v) list \<Rightarrow> bool" where
  "sorted_keys ps \<equiv> sorted_wrt (<) (map fst ps)"

lemma map_of_put [simp]: "map_of (put k v ps) k' = (if k' = k then Some v else map_of ps k')"
  by (induction k v ps rule: put.induct) auto

lemma keys_put [simp]: "fst ` set (put k v ps) = insert k (fst ` set ps)"
  by (induction k v ps rule: put.induct) auto

lemma sorted_put: "sorted_keys ps \<Longrightarrow> sorted_keys (put k v ps)"
proof (induction k v ps rule: put.induct)
  case (2 k v k' v' ps)
  have keys: "set (map fst (put k v ps)) = insert k (set (map fst ps))" by simp
  from 2 show ?case
    by (auto simp: keys simp del: set_map) 
qed simp

lemma put_last: "\<forall>k' \<in> fst ` set ps. k' < k \<Longrightarrow> put k v ps = ps @ [(k, v)]"
  by (induction ps) auto

lemma values_put: "(k', v') \<in> set (put k v ps) \<Longrightarrow> (k', v') = (k, v) \<or> (k', v') \<in> set ps"
  by (induction k v ps rule: put.induct) (auto split: if_splits)


lemma values_mk_obj: "(k, v) \<in> set (mk_obj ps) \<Longrightarrow> (k, v) \<in> set ps"
proof -
  have "(k, v) \<in> set (fold (\<lambda>(k, v) m. put k v m) ps m) \<Longrightarrow> (k, v) \<in> set ps \<union> set m" for m
    by (induction ps arbitrary: m) (auto dest: values_put)
  then show "(k, v) \<in> set (mk_obj ps) \<Longrightarrow> (k, v) \<in> set ps"
    unfolding mk_obj_def by fastforce
qed

lemma keys_mk_obj [simp]: "fst ` set (mk_obj ps) = fst ` set ps"
proof -
  have "fst ` set (fold (\<lambda>(k, v) m. put k v m) ps m) = fst ` set ps \<union> fst ` set m" for m
    by (induction ps arbitrary: m) (simp_all add: case_prod_beta)
  then show ?thesis by (simp add: mk_obj_def)
qed

lemma sorted_mk_obj [simp]: "sorted_keys (mk_obj ps)"
proof -
  have "sorted_keys m \<Longrightarrow> sorted_keys (fold (\<lambda>(k, v) m. put k v m) ps m)" for m
    by (induction ps arbitrary: m) (auto intro: sorted_put)
  then show ?thesis by (simp add: mk_obj_def)
qed

lemma map_of_mk_obj: "distinct (map fst ps) \<Longrightarrow> map_of (mk_obj ps) k = map_of ps k"
proof -
  have "distinct (map fst ps) \<Longrightarrow>
      map_of (fold (\<lambda>(k, v) m. put k v m) ps m) k =
        (case map_of ps k of None \<Rightarrow> map_of m k | Some v \<Rightarrow> Some v)" for m
  proof (induction ps arbitrary: m)
    case (Cons p ps)
    have "fst p \<notin> fst ` set ps" using Cons.prems by simp
    then have "map_of ps (fst p) = None" by (simp add: map_of_eq_None_iff)
    with Cons show ?case by (auto simp: case_prod_beta split: option.splits)
  qed simp
  then show "distinct (map fst ps) \<Longrightarrow> map_of (mk_obj ps) k = map_of ps k"
    by (simp add: mk_obj_def split: option.splits)
qed

lemma mk_obj_sorted: "sorted_keys ps \<Longrightarrow> mk_obj ps = ps"
proof -
  have "sorted_keys (m @ ps) \<Longrightarrow> fold (\<lambda>(k, v) m. put k v m) ps m = m @ ps"
    for m :: "(string \<times> 'a) list"
  proof (induction ps arbitrary: m)
    case (Cons p ps)
    then have "\<forall>k' \<in> fst ` set m. k' < fst p" by (auto simp: sorted_wrt_append)
    then have "put (fst p) (snd p) m = m @ [p]" by (simp add: put_last)
    with Cons show ?case by (simp add: case_prod_beta)
  qed simp
  from this [of "[]"] show "sorted_keys ps \<Longrightarrow> mk_obj ps = ps"
    by (simp add: mk_obj_def)
qed

section \<open>Text\<close>

definition ascii :: "string \<Rightarrow> bool" where
  "ascii s \<longleftrightarrow> list_all (\<lambda>c. (of_char c :: nat) < 128) s"

fun canon :: "jv \<Rightarrow> bool" where
  "canon (JStr s) = ascii s"
| "canon (JArr js) = list_all canon js"
| "canon (JObj ps) = (sorted_keys ps \<and> list_all (\<lambda>p. ascii (fst p) \<and> canon (snd p)) ps)"
| "canon _ = True"

abbreviation "quote \<equiv> CHR 0x22"
abbreviation "backslash \<equiv> CHR 0x5C"

definition hex_digit :: "nat \<Rightarrow> char" where
  "hex_digit n = (if n < 10 then char_of (48 + n) else char_of (87 + n))"

definition esc :: "char \<Rightarrow> string" where
  "esc c =
     (if c = quote then [backslash, quote]
      else if c = backslash then [backslash, backslash]
      else if c = CHR 0x08 then [backslash, CHR ''b'']
      else if c = CHR 0x09 then [backslash, CHR ''t'']
      else if c = CHR 0x0A then [backslash, CHR ''n'']
      else if c = CHR 0x0C then [backslash, CHR ''f'']
      else if c = CHR 0x0D then [backslash, CHR ''r'']
      else if (of_char c :: nat) < 32 then
        [backslash, CHR ''u'', CHR ''0'', CHR ''0'',
         hex_digit (of_char c div 16), hex_digit (of_char c mod 16)]
      else [c])"

definition print_str :: "string \<Rightarrow> string" where
  "print_str s = quote # concat (map esc s) @ [quote]"

fun commas :: "string list \<Rightarrow> string" where
  "commas [] = []"
| "commas [s] = s"
| "commas (s # ss) = s @ CHR '','' # commas ss"

fun print :: "jv \<Rightarrow> string" where
  "print JNull = ''null''"
| "print (JBool b) = (if b then ''true'' else ''false'')"
| "print (JInt i) = int_string i"
| "print (JStr s) = print_str s"
| "print (JArr js) = ''['' @ commas (map print js) @ '']''"
| "print (JObj ps) =
     ''{'' @ commas (map (\<lambda>p. print_str (fst p) @ '':'' @ print (snd p)) ps) @ ''}''"

definition spaces :: "char list" where
  "spaces = [CHR '' '', CHR 0x09, CHR 0x0A, CHR 0x0D]"

definition skip :: "string \<Rightarrow> string" where
  "skip s = dropWhile (\<lambda>c. c \<in> set spaces) s"

definition unesc :: "char \<Rightarrow> char option" where
  "unesc e =
     (if e = quote then Some quote
      else if e = backslash then Some backslash
      else if e = CHR ''/'' then Some (CHR ''/'')
      else if e = CHR ''b'' then Some (CHR 0x08)
      else if e = CHR ''t'' then Some (CHR 0x09)
      else if e = CHR ''n'' then Some (CHR 0x0A)
      else if e = CHR ''f'' then Some (CHR 0x0C)
      else if e = CHR ''r'' then Some (CHR 0x0D)
      else None)"

definition hex_val :: "char \<Rightarrow> nat option" where
  "hex_val c =
     (let n = of_char c :: nat in
      if 48 \<le> n \<and> n \<le> 57 then Some (n - 48)
      else if 97 \<le> n \<and> n \<le> 102 then Some (n - 87)
      else if 65 \<le> n \<and> n \<le> 70 then Some (n - 55)
      else None)"

text \<open>The four digits of a \<open>\u\<close> escape, for the code points the instance has.\<close>

definition hex4 :: "char \<Rightarrow> char \<Rightarrow> char \<Rightarrow> char \<Rightarrow> char option" where
  "hex4 a b c d =
     (if a = CHR ''0'' \<and> b = CHR ''0'' then
        (case (hex_val c, hex_val d) of
           (Some m, Some n) \<Rightarrow> (if m < 8 then Some (char_of (16 * m + n)) else None)
         | _ \<Rightarrow> None)
      else None)"

definition cons_fst :: "'a \<Rightarrow> ('a list \<times> 'b) option \<Rightarrow> ('a list \<times> 'b) option" where
  "cons_fst x r = map_option (\<lambda>(xs, y). (x # xs, y)) r"

fun parse_chars :: "string \<Rightarrow> (string \<times> string) option" where
  "parse_chars [] = None"
| "parse_chars (c # cs) =
     (if c = quote then Some ([], cs)
      else if c = backslash then
        (case cs of
           [] \<Rightarrow> None
         | e # es \<Rightarrow>
             (if e = CHR ''u'' then
                (case es of
                   h1 # h2 # h3 # h4 # r \<Rightarrow>
                     (case hex4 h1 h2 h3 h4 of None \<Rightarrow> None | Some x \<Rightarrow> cons_fst x (parse_chars r))
                 | _ \<Rightarrow> None)
              else (case unesc e of None \<Rightarrow> None | Some x \<Rightarrow> cons_fst x (parse_chars es))))
      else if (of_char c :: nat) < 32 \<or> 128 \<le> (of_char c :: nat) then None
      else cons_fst c (parse_chars cs))"

definition parse_digits :: "string \<Rightarrow> (nat \<times> string) option" where
  "parse_digits s =
     (let ds = takeWhile is_digit s in
      if ds = [] \<or> (hd ds = CHR ''0'' \<and> tl ds \<noteq> []) then None
      else Some (digits_val ds, dropWhile is_digit s))"

definition parse_number :: "string \<Rightarrow> (jv \<times> string) option" where
  "parse_number s =
     (case s of
        [] \<Rightarrow> None
      | c # cs \<Rightarrow>
          if c = CHR ''-'' then map_option (\<lambda>(n, r). (JInt (- int n), r)) (parse_digits cs)
          else map_option (\<lambda>(n, r). (JInt (int n), r)) (parse_digits s))"

definition parse_lit :: "string \<Rightarrow> jv \<Rightarrow> string \<Rightarrow> (jv \<times> string) option" where
  "parse_lit w v s = (if take (length w) s = w then Some (v, drop (length w) s) else None)"

fun parse_val :: "nat \<Rightarrow> string \<Rightarrow> (jv \<times> string) option"
  and parse_elems :: "nat \<Rightarrow> string \<Rightarrow> (jv list \<times> string) option"
  and parse_members :: "nat \<Rightarrow> string \<Rightarrow> ((string \<times> jv) list \<times> string) option" where
  "parse_val 0 s = None"
| "parse_val (Suc n) s =
     (case skip s of
        [] \<Rightarrow> None
      | c # cs \<Rightarrow>
          if c = CHR ''{'' then
            (case skip cs of
               [] \<Rightarrow> None
             | d # ds \<Rightarrow>
                 if d = CHR ''}'' then Some (JObj [], ds)
                 else map_option (\<lambda>(ps, r). (JObj (mk_obj ps), r)) (parse_members n (d # ds)))
          else if c = CHR ''['' then
            (case skip cs of
               [] \<Rightarrow> None
             | d # ds \<Rightarrow>
                 if d = CHR '']'' then Some (JArr [], ds)
                 else map_option (\<lambda>(vs, r). (JArr vs, r)) (parse_elems n (d # ds)))
          else if c = quote then map_option (\<lambda>(t, r). (JStr t, r)) (parse_chars cs)
          else if c = CHR ''n'' then parse_lit ''null'' JNull (c # cs)
          else if c = CHR ''t'' then parse_lit ''true'' (JBool True) (c # cs)
          else if c = CHR ''f'' then parse_lit ''false'' (JBool False) (c # cs)
          else parse_number (c # cs))"
| "parse_elems 0 s = None"
| "parse_elems (Suc n) s =
     (case parse_val n s of
        None \<Rightarrow> None
      | Some (v, r) \<Rightarrow>
          (case skip r of
             [] \<Rightarrow> None
           | c # cs \<Rightarrow>
               if c = CHR '','' then cons_fst v (parse_elems n cs)
               else if c = CHR '']'' then Some ([v], cs)
               else None))"
| "parse_members 0 s = None"
| "parse_members (Suc n) s =
     (case skip s of
        [] \<Rightarrow> None
      | q # qs \<Rightarrow>
          if q = quote then
            (case parse_chars qs of
               None \<Rightarrow> None
             | Some (k, r) \<Rightarrow>
                 (case skip r of
                    [] \<Rightarrow> None
                  | c # cs \<Rightarrow>
                      if c = CHR '':'' then
                        (case parse_val n cs of
                           None \<Rightarrow> None
                         | Some (v, r') \<Rightarrow>
                             (case skip r' of
                                [] \<Rightarrow> None
                              | d # ds \<Rightarrow>
                                  if d = CHR '','' then cons_fst (k, v) (parse_members n ds)
                                  else if d = CHR ''}'' then Some ([(k, v)], ds)
                                  else None))
                      else None))
          else None)"

definition parse_ref :: "string \<Rightarrow> jv res" where
  "parse_ref s =
     (case parse_val (Suc (length s)) s of
        Some (v, r) \<Rightarrow>
          (if skip r = [] then Inr v else Inl (Json_parse_error ''unexpected trailing text''))
      | None \<Rightarrow> Inl (Json_parse_error ''syntax error''))"

definition dump_ref :: "jv \<Rightarrow> string res" where
  "dump_ref j = (if canon j then Inr (print j) else Inl (Json_type_error ''invalid UTF-8 byte''))"

text \<open>\<open>dump(2)\<close>: one member or element per line, two blanks per level.\<close>

fun lines :: "string list \<Rightarrow> string" where
  "lines [] = []"
| "lines [s] = s"
| "lines (s # ss) = s @ '','' @ [newline] @ lines ss"

fun print_indent :: "nat \<Rightarrow> jv \<Rightarrow> string" where
  "print_indent n (JArr js) =
     (if js = [] then ''[]''
      else ''['' @ [newline] @
        lines (map (\<lambda>j. replicate (n + 2) (CHR '' '') @ print_indent (n + 2) j) js) @
        [newline] @ replicate n (CHR '' '') @ '']'')"
| "print_indent n (JObj ps) =
     (if ps = [] then ''{}''
      else ''{'' @ [newline] @
        lines (map (\<lambda>p. replicate (n + 2) (CHR '' '') @ print_str (fst p) @ '': '' @
          print_indent (n + 2) (snd p)) ps) @
        [newline] @ replicate n (CHR '' '') @ ''}'')"
| "print_indent n j = print j"

definition dump_indent_ref :: "jv \<Rightarrow> string res" where
  "dump_indent_ref j =
     (if canon j then Inr (print_indent 0 j) else Inl (Json_type_error ''invalid UTF-8 byte''))"

section \<open>The printer and the parser agree\<close>

lemma hex_val_digit: "n < 16 \<Longrightarrow> hex_val (hex_digit n) = Some n"
  by (auto simp: hex_val_def hex_digit_def Let_def)

lemma esc_hex: "(of_char c :: nat) < 32 \<Longrightarrow>
  hex4 (CHR ''0'') (CHR ''0'') (hex_digit (of_char c div 16)) (hex_digit (of_char c mod 16)) = Some c"
  by (simp add: hex4_def hex_val_digit)

lemma parse_chars_esc:
  "(of_char c :: nat) < 128 \<Longrightarrow> parse_chars (esc c @ s) = cons_fst c (parse_chars s)"
  using esc_hex [of c] by (auto simp: esc_def unesc_def)

lemma parse_chars_print:
  "ascii s \<Longrightarrow> parse_chars (concat (map esc s) @ quote # r) = Some (s, r)"
  by (induction s) (simp_all add: ascii_def parse_chars_esc cons_fst_def)

lemma skip_Cons [simp]: "skip (c # cs) = (if c \<in> set spaces then skip cs else c # cs)"
  by (simp add: skip_def)

lemma nat_string_hd: "n \<noteq> 0 \<Longrightarrow> hd (nat_string n) \<noteq> CHR ''0''"
proof (induction n rule: nat_string.induct)
  case (1 n)
  show ?case
  proof (cases "n < 10")
    case True
    have "(of_char (digit_char n) :: nat) = 48 + n" using True by simp
    then have "(of_char (digit_char n) :: nat) \<noteq> of_char (CHR ''0'')"
      using "1.prems" by simp
    then have "digit_char n \<noteq> CHR ''0''" by metis
    with True show ?thesis by (simp add: nat_string.simps [of n])
  next
    case False
    with "1.IH" show ?thesis by (simp add: nat_string.simps [of n])
  qed
qed

definition stops :: "string \<Rightarrow> bool" where
  "stops r \<longleftrightarrow> (case r of [] \<Rightarrow> True | c # _ \<Rightarrow> \<not> is_digit c)"

lemma take_drop_digits:
  assumes "stops r"
  shows "takeWhile is_digit (nat_string n @ r) = nat_string n"
    and "dropWhile is_digit (nat_string n @ r) = r"
proof -
  have all: "\<forall>c \<in> set (nat_string n). is_digit c" by (simp add: nat_string_digits)
  have r: "takeWhile is_digit r = [] \<and> dropWhile is_digit r = r"
    using assms by (cases r) (simp_all add: stops_def)
  show "takeWhile is_digit (nat_string n @ r) = nat_string n"
    using all r by (simp add: takeWhile_append2)
  show "dropWhile is_digit (nat_string n @ r) = r"
    using all r by (simp add: dropWhile_append2)
qed

lemma parse_digits_nat_string:
  assumes "stops r"
  shows "parse_digits (nat_string n @ r) = Some (n, r)"
proof (cases "n = 0")
  case True
  then show ?thesis
    using take_drop_digits [OF assms, of n]
    by (simp add: parse_digits_def Let_def nat_string.simps [of 0] digits_val_def)
next
  case False
  then show ?thesis
    using take_drop_digits [OF assms, of n] nat_string_hd [OF False]
    by (simp add: parse_digits_def Let_def)
qed

lemma parse_number_int_string:
  assumes "stops r"
  shows "parse_number (int_string i @ r) = Some (JInt i, r)"
proof (cases "i < 0")
  case True
  then show ?thesis
    by (simp add: parse_number_def int_string_def parse_digits_nat_string [OF assms])
next
  case False
  obtain c cs where c: "nat_string (nat i) = c # cs" by (cases "nat_string (nat i)") auto
  then have "is_digit c" using nat_string_digits [of c "nat i"] by simp
  then have "c \<noteq> CHR ''-''" by (auto simp: is_digit_def)
  with False c parse_digits_nat_string [OF assms, of "nat i"] show ?thesis
    by (simp add: parse_number_def int_string_def)
qed

text \<open>The first character of a printed document selects the right branch.\<close>

definition num_start :: "char \<Rightarrow> bool" where
  "num_start c \<longleftrightarrow> c = CHR ''-'' \<or> is_digit c"

lemma num_start_not:
  "num_start c \<Longrightarrow> c \<notin> set spaces \<and> c \<notin> {CHR ''{'', CHR ''['', quote, CHR ''n'', CHR ''t'', CHR ''f''}"
  by (auto simp: num_start_def is_digit_def spaces_def)

lemma int_string_start: "\<exists>c cs. int_string i = c # cs \<and> num_start c"
proof (cases "i < 0")
  case False
  obtain c cs where c: "nat_string (nat i) = c # cs" by (cases "nat_string (nat i)") auto
  then have "is_digit c" using nat_string_digits [of c "nat i"] by simp
  with False c show ?thesis by (simp add: int_string_def num_start_def)
qed (simp add: int_string_def num_start_def)

lemma print_start: "\<exists>c cs. print v = c # cs \<and> c \<notin> set spaces \<and> c \<noteq> CHR '']''"
proof (cases v)
  case (JInt i)
  obtain c cs where c: "int_string i = c # cs" "num_start c" using int_string_start by blast
  then have "c \<notin> set spaces" using num_start_not by blast
  moreover have "c \<noteq> CHR '']''" using c(2) by (auto simp: num_start_def is_digit_def)
  ultimately show ?thesis using c(1) JInt by simp
qed (auto simp: spaces_def print_str_def)

lemma parse_elems_print:
  assumes IH: "\<And>j m r. j \<in> set js \<Longrightarrow> length (print j) < m \<Longrightarrow> stops r \<Longrightarrow>
      parse_val m (print j @ r) = Some (j, r)"
    and "js \<noteq> []" and "length (commas (map print js)) + 1 < n"
  shows "parse_elems n (commas (map print js) @ CHR '']'' # r) = Some (js, r)"
  using assms
proof (induction js arbitrary: n)
  case (Cons j js)
  obtain m where m: "n = Suc m" using Cons.prems(3) by (cases n) auto
  show ?case
  proof (cases js)
    case Nil
    have "parse_val m (print j @ CHR '']'' # r) = Some (j, CHR '']'' # r)"
      using Cons.prems(3) by (intro Cons.prems(1)) (auto simp: stops_def is_digit_def m Nil)
    then show ?thesis by (simp add: m Nil spaces_def)
  next
    case (Cons j' js')
    let ?rest = "commas (map print js) @ CHR '']'' # r"
    have "parse_val m (print j @ CHR '','' # ?rest) = Some (j, CHR '','' # ?rest)"
      using Cons.prems(3) Cons
      by (intro Cons.prems(1)) (auto simp: stops_def is_digit_def m)
    moreover have "parse_elems m ?rest = Some (js, r)"
      using Cons.prems Cons by (intro Cons.IH) (auto simp: m)
    ultimately show ?thesis by (simp add: m Cons spaces_def cons_fst_def)
  qed
qed simp

abbreviation print_member :: "string \<times> jv \<Rightarrow> string" where
  "print_member p \<equiv> print_str (fst p) @ '':'' @ print (snd p)"

lemma print_str_append: "print_str s @ r = quote # concat (map esc s) @ quote # r"
  by (simp add: print_str_def)

lemma parse_members_step:
  assumes "ascii k" and "parse_val m (print v @ d # ds) = Some (v, d # ds)" and "d \<notin> set spaces"
  shows "parse_members (Suc m) (print_str k @ CHR '':'' # print v @ d # ds) =
    (if d = CHR '','' then cons_fst (k, v) (parse_members m ds)
     else if d = CHR ''}'' then Some ([(k, v)], ds) else None)"
proof -
  have "parse_chars (concat (map esc k) @ quote # CHR '':'' # print v @ d # ds) =
      Some (k, CHR '':'' # print v @ d # ds)"
    using assms(1) by (rule parse_chars_print)
  with assms(2,3) show ?thesis
    by (simp add: print_str_append spaces_def)
qed

lemma parse_members_print:
  assumes IH: "\<And>p m r. p \<in> set ps \<Longrightarrow> length (print (snd p)) < m \<Longrightarrow> stops r \<Longrightarrow>
      parse_val m (print (snd p) @ r) = Some (snd p, r)"
    and "list_all (\<lambda>p. ascii (fst p)) ps"
    and "ps \<noteq> []" and "length (commas (map print_member ps)) + 1 < n"
  shows "parse_members n (commas (map print_member ps) @ CHR ''}'' # r) = Some (ps, r)"
  using assms
proof (induction ps arbitrary: n)
  case (Cons p ps)
  obtain m where m: "n = Suc m" using Cons.prems(4) by (cases n) auto
  obtain k v where p: "p = (k, v)" by (cases p)
  show ?case
  proof (cases ps)
    case Nil
    have "parse_val m (print v @ CHR ''}'' # r) = Some (v, CHR ''}'' # r)"
      using Cons.prems(1) [of p m "CHR ''}'' # r"] Cons.prems(4)
      by (auto simp: stops_def is_digit_def m Nil p)
    then show ?thesis
      using Cons.prems(2) by (simp add: m Nil p parse_members_step spaces_def del: parse_members.simps)
  next
    case (Cons p' ps')
    let ?rest = "commas (map print_member ps) @ CHR ''}'' # r"
    have "parse_val m (print v @ CHR '','' # ?rest) = Some (v, CHR '','' # ?rest)"
      using Cons.prems(1) [of p m "CHR '','' # ?rest"] Cons.prems(4) Cons
      by (auto simp: stops_def is_digit_def m p)
    moreover have "parse_members m ?rest = Some (ps, r)"
      using Cons.prems Cons by (intro Cons.IH) (auto simp: m)
    moreover have "commas (map print_member (p # ps)) @ CHR ''}'' # r =
        print_str k @ CHR '':'' # print v @ CHR '','' # ?rest"
      by (simp add: Cons p)
    ultimately show ?thesis
      using Cons.prems(2) by (simp add: m p parse_members_step spaces_def cons_fst_def del: parse_members.simps)
  qed
qed simp

lemma commas_start: "ss \<noteq> [] \<Longrightarrow> hd ss \<noteq> [] \<Longrightarrow> \<exists>cs. commas ss = hd (hd ss) # cs"
  by (cases ss rule: commas.cases) (auto simp: neq_Nil_conv)

lemma parse_val_print:
  "canon v \<Longrightarrow> length (print v) < n \<Longrightarrow> stops r \<Longrightarrow> parse_val n (print v @ r) = Some (v, r)"
proof (induction v arbitrary: n r)
  case JNull
  then show ?case by (cases n) (auto simp: spaces_def parse_lit_def)
next
  case (JBool b)
  then show ?case by (cases n) (auto simp: spaces_def parse_lit_def)
next
  case (JInt i)
  obtain c cs where c: "int_string i = c # cs" "num_start c" using int_string_start by blast
  have "parse_number (c # cs @ r) = Some (JInt i, r)"
    using parse_number_int_string [OF JInt.prems(3), of i] c(1) by simp
  with JInt.prems(2) c num_start_not [OF c(2)] show ?case by (cases n) auto
next
  case (JStr s)
  then show ?case
    by (cases n) (auto simp: spaces_def print_str_append parse_chars_print)
next
  case (JArr js)
  obtain m where m: "n = Suc m" using JArr.prems(2) by (cases n) auto
  show ?case
  proof (cases "js = []")
    case False
    have elems: "parse_elems m (commas (map print js) @ CHR '']'' # r) = Some (js, r)"
      using JArr.prems False
      by (intro parse_elems_print JArr.IH) (auto simp: m list_all_iff)
    obtain c cs where c: "print (hd js) = c # cs" "c \<notin> set spaces" "c \<noteq> CHR '']''"
      using print_start by blast
    obtain ds where "commas (map print js) = c # ds"
      using commas_start [of "map print js"] False c(1) by (auto simp: hd_map)
    with elems c show ?thesis by (simp add: m spaces_def)
  qed (simp add: m spaces_def)
next
  case (JObj ps)
  obtain m where m: "n = Suc m" using JObj.prems(2) by (cases n) auto
  show ?case
  proof (cases "ps = []")
    case False
    have members: "parse_members m (commas (map print_member ps) @ CHR ''}'' # r) = Some (ps, r)"
    proof (rule parse_members_print)
      fix p k and r' :: string
      assume p: "p \<in> set ps" "length (print (snd p)) < k" "stops r'"
      show "parse_val k (print (snd p) @ r') = Some (snd p, r')"
        using JObj.prems p by (intro JObj.IH) (auto simp: list_all_iff snds.simps)
    qed (use JObj.prems False in \<open>auto simp: m list_all_iff\<close>)
    obtain ds where "commas (map print_member ps) = quote # ds"
      using commas_start [of "map print_member ps"] False by (auto simp: hd_map print_str_def)
    with members JObj.prems(1) show ?thesis by (simp add: m spaces_def mk_obj_sorted)
  qed (simp add: m spaces_def)
qed

lemma parse_print: "canon v \<Longrightarrow> parse_ref (print v) = Inr v"
  using parse_val_print [of v "Suc (length (print v))" "[]"]
  by (simp add: parse_ref_def stops_def skip_def)

lemma parse_print_newline: "canon v \<Longrightarrow> parse_ref (print v @ [newline]) = Inr v"
  using parse_val_print [of v "Suc (length (print v @ [newline]))" "[newline]"]
  by (simp add: parse_ref_def stops_def skip_def spaces_def is_digit_def)

section \<open>What the parser returns is canonical\<close>

lemma hex_val_less: "hex_val c = Some n \<Longrightarrow> n < 16"
  by (auto simp: hex_val_def Let_def split: if_splits)

lemma hex4_ascii: "hex4 a b c d = Some x \<Longrightarrow> (of_char x :: nat) < 128"
proof -
  assume "hex4 a b c d = Some x"
  then obtain m n where "m < 8" and n: "hex_val d = Some n" and x: "x = char_of (16 * m + n)"
    by (auto simp: hex4_def split: if_splits option.splits)
  with hex_val_less [OF n] have "16 * m + n < 128" by simp
  with x show ?thesis by simp
qed

lemma unesc_ascii: "unesc e = Some x \<Longrightarrow> (of_char x :: nat) < 128"
  by (auto simp: unesc_def split: if_splits)

lemma cons_fst_Some:
  "cons_fst x r = Some (ys, z) \<longleftrightarrow> (\<exists>xs. ys = x # xs \<and> r = Some (xs, z))"
  by (cases r) (auto simp: cons_fst_def)

lemma ascii_Cons [simp]: "ascii (c # s) \<longleftrightarrow> (of_char c :: nat) < 128 \<and> ascii s"
  by (simp add: ascii_def)

lemma ascii_Nil [simp]: "ascii []"
  by (simp add: ascii_def)

lemma parse_chars_ascii: "parse_chars s = Some (t, r) \<Longrightarrow> ascii t"
proof (induction s arbitrary: t rule: parse_chars.induct)
  case (2 c cs)
  consider "c = quote" | "c = backslash" "c \<noteq> quote" | "c \<noteq> quote" "c \<noteq> backslash" by blast
  then show ?case
  proof cases
    case 1
    with "2.prems" show ?thesis by simp
  next
    case 2
    then show ?thesis
      using "2.prems" "2.IH"(1,2)
      by (auto simp: cons_fst_Some dest: hex4_ascii unesc_ascii
          split: if_splits list.splits option.splits)
  next
    case 3
    then show ?thesis
      using "2.prems" "2.IH"(3) by (auto simp: cons_fst_Some split: if_splits)
  qed
qed simp

lemma parse_number_canon: "parse_number s = Some (v, r) \<Longrightarrow> canon v"
  by (auto simp: parse_number_def split: list.splits if_splits)

lemma parse_lit_canon: "parse_lit w v s = Some (v', r) \<Longrightarrow> canon v \<Longrightarrow> canon v'"
  by (auto simp: parse_lit_def split: if_splits)

lemma canon_empty: "canon (JObj [])"
  by simp

lemma canon_mk_obj:
  "list_all (\<lambda>p. ascii (fst p) \<and> canon (snd p)) ps \<Longrightarrow> canon (JObj (mk_obj ps))"
  by (fastforce simp: list_all_iff dest: values_mk_obj)

lemma parse_canon:
  "parse_val n s = Some (v, r) \<Longrightarrow> canon v"
  "parse_elems n s = Some (vs, r) \<Longrightarrow> list_all canon vs"
  "parse_members n s = Some (ps, r) \<Longrightarrow> list_all (\<lambda>p. ascii (fst p) \<and> canon (snd p)) ps"
proof (induction n s and n s and n s arbitrary: v r and vs r and ps r
    rule: parse_val_parse_elems_parse_members.induct)
  case (2 n s)
  then show ?case
    by (auto split: list.splits if_splits
        dest: parse_number_canon parse_lit_canon parse_chars_ascii simp del: canon.simps(3)
        intro: canon_mk_obj canon_empty)
next
  case (4 n s)
  then show ?case
    by (fastforce simp: cons_fst_Some split: list.splits if_splits option.splits)
next
  case (6 n s)
  then show ?case
    by (fastforce simp: cons_fst_Some dest: parse_chars_ascii
        split: list.splits if_splits option.splits)
qed simp_all

section \<open>The instance\<close>

fun ref_contains :: "jv \<Rightarrow> string \<Rightarrow> bool" where
  "ref_contains (JObj ps) k = (map_of ps k \<noteq> None)"
| "ref_contains _ k = False"

fun ref_at :: "jv \<Rightarrow> string \<Rightarrow> jv" where
  "ref_at (JObj ps) k = (case map_of ps k of Some v \<Rightarrow> v | None \<Rightarrow> JNull)"
| "ref_at _ k = JNull"

fun ref_set :: "jv \<Rightarrow> string \<Rightarrow> jv \<Rightarrow> jv" where
  "ref_set (JObj ps) k v = JObj (put k v ps)"
| "ref_set JNull k v = JObj [(k, v)]"
| "ref_set j k v = j"

fun ref_get_string :: "jv \<Rightarrow> string res" where
  "ref_get_string (JStr s) = Inr s"
| "ref_get_string _ = Inl (Json_type_error ''type must be string'')"

fun ref_get_int :: "jv \<Rightarrow> ('n::len) word res" where
  "ref_get_int (JInt i) = Inr (word_of_int i)"
| "ref_get_int (JBool b) = Inr (of_bool b)"
| "ref_get_int _ = Inl (Json_type_error ''type must be number'')"

definition ref_value :: "(jv \<Rightarrow> 'a res) \<Rightarrow> jv \<Rightarrow> string \<Rightarrow> 'a \<Rightarrow> 'a res" where
  "ref_value get j k d =
     (case j of
        JObj ps \<Rightarrow> (case map_of ps k of Some v \<Rightarrow> get v | None \<Rightarrow> Inr d)
      | _ \<Rightarrow> Inl (Json_type_error ''cannot use value()''))"

definition ref_api :: "jv json_api" where
  "ref_api =
    \<lparr> j_is_object = (\<lambda>j. case j of JObj _ \<Rightarrow> True | _ \<Rightarrow> False),
      j_is_array = (\<lambda>j. case j of JArr _ \<Rightarrow> True | _ \<Rightarrow> False),
      j_is_string = (\<lambda>j. case j of JStr _ \<Rightarrow> True | _ \<Rightarrow> False),
      j_is_null = (\<lambda>j. case j of JNull \<Rightarrow> True | _ \<Rightarrow> False),
      j_is_number_integer = (\<lambda>j. case j of JInt _ \<Rightarrow> True | _ \<Rightarrow> False),
      j_contains = ref_contains,
      j_at = ref_at,
      j_set = ref_set,
      j_get_string = ref_get_string,
      j_get_int64 = ref_get_int,
      j_get_int = ref_get_int,
      j_value_int = ref_value ref_get_int,
      j_value_string = ref_value ref_get_string,
      j_value_json = ref_value Inr,
      j_null = JNull,
      j_bool = JBool,
      j_int = JInt,
      j_string = JStr,
      j_array = JArr,
      j_object = (\<lambda>ps. JObj (mk_obj ps)),
      j_elements = (\<lambda>j. case j of JArr js \<Rightarrow> js | _ \<Rightarrow> []),
      j_size = (\<lambda>j. case j of JArr js \<Rightarrow> length js | JObj ps \<Rightarrow> length ps | JNull \<Rightarrow> 0 | _ \<Rightarrow> 1),
      j_parse = parse_ref,
      j_dump = dump_ref,
      j_dump_indent = dump_indent_ref \<rparr>"

lemma ref_api_simps [simp]:
  "j_is_object ref_api j = (case j of JObj _ \<Rightarrow> True | _ \<Rightarrow> False)"
  "j_is_array ref_api j = (case j of JArr _ \<Rightarrow> True | _ \<Rightarrow> False)"
  "j_is_string ref_api j = (case j of JStr _ \<Rightarrow> True | _ \<Rightarrow> False)"
  "j_is_null ref_api j = (case j of JNull \<Rightarrow> True | _ \<Rightarrow> False)"
  "j_is_number_integer ref_api j = (case j of JInt _ \<Rightarrow> True | _ \<Rightarrow> False)"
  "j_contains ref_api = ref_contains"
  "j_at ref_api = ref_at"
  "j_set ref_api = ref_set"
  "j_get_string ref_api = ref_get_string"
  "j_get_int64 ref_api = ref_get_int"
  "j_get_int ref_api = ref_get_int"
  "j_value_int ref_api = ref_value ref_get_int"
  "j_value_string ref_api = ref_value ref_get_string"
  "j_value_json ref_api = ref_value Inr"
  "j_null ref_api = JNull"
  "j_bool ref_api = JBool"
  "j_int ref_api = JInt"
  "j_string ref_api = JStr"
  "j_array ref_api = JArr"
  "j_object ref_api ps = JObj (mk_obj ps)"
  "j_elements ref_api j = (case j of JArr js \<Rightarrow> js | _ \<Rightarrow> [])"
  "j_size ref_api j = (case j of JArr js \<Rightarrow> length js | JObj ps \<Rightarrow> length ps | JNull \<Rightarrow> 0 | _ \<Rightarrow> 1)"
  "j_parse ref_api = parse_ref"
  "j_dump ref_api = dump_ref"
  "j_dump_indent ref_api = dump_indent_ref"
  by (simp_all add: ref_api_def)

lemma mk_obj_None [simp]: "map_of (mk_obj ps) k = None \<longleftrightarrow> k \<notin> fst ` set ps"
  by (simp add: map_of_eq_None_iff)

lemma print_one_line: "newline \<notin> set (print v)"
proof -
  have hex: "hex_digit n \<noteq> newline" if "n < 16" for n
    using hex_val_digit [OF that] by (auto simp: hex_val_def)
  have esc: "newline \<notin> set (esc c)" for c
  proof -
    have "hex_digit (of_char c div 16) \<noteq> newline" if "(of_char c :: nat) < 32"
      using that by (intro hex) simp
    then show ?thesis
      using hex [of "of_char c mod 16"] by (auto simp: esc_def)
  qed
  have str: "newline \<notin> set (print_str s)" for s
    using esc by (auto simp: print_str_def)
  have digits: "newline \<notin> set (nat_string n)" for n
    using nat_string_digits [of newline n] by (auto simp: is_digit_def)
  have commas: "\<forall>s \<in> set ss. newline \<notin> set s \<Longrightarrow> newline \<notin> set (commas ss)" for ss
    by (induction ss rule: commas.induct) auto
  show ?thesis
  proof (induction v)
    case (JInt i)
    show ?case by (simp add: int_string_def digits)
  next
    case (JArr js)
    then show ?case by (simp add: commas)
  next
    case (JObj ps)
    then have "\<forall>p \<in> set ps. newline \<notin> set (print_member p)"
      by (auto simp: str snds.simps)
    then show ?case by (simp add: commas)
  qed (simp_all add: str)
qed

lemma print_last: "last (print v) \<notin> set blanks"
proof (cases v)
  case (JInt i)
  have "is_digit (last (nat_string n))" for n
    using nat_string_digits [of "last (nat_string n)" n] by simp
  then have "is_digit (last (print v))" using JInt by (simp add: int_string_def)
  then show ?thesis by (auto simp: is_digit_def blanks_def)
qed (auto simp: blanks_def print_str_def)

interpretation ref: nlohmann_json ref_api ascii canon
proof unfold_locales
  fix j s
  assume "j_dump ref_api j = Inr s"
  then have s: "s = print j" by (simp add: dump_ref_def split: if_splits)
  obtain c cs where c: "print j = c # cs" "c \<notin> set spaces" using print_start by blast
  then have "c \<notin> set blanks" by (auto simp: spaces_def blanks_def)
  with s c print_last [of j]
  show "s \<noteq> [] \<and> hd s \<notin> set blanks \<and> last s \<notin> set blanks" by auto
next
  fix j k v
  assume "j_is_object ref_api j \<or> j_is_null ref_api j" "canon j" "ascii k" "canon v"
  then show "canon (j_set ref_api j k v)"
    by (cases j) (auto simp: list_all_iff sorted_put dest: values_put)
next
  fix ps :: "(string \<times> jv) list" and k v
  assume "keys_ok ps" "(k, v) \<in> set ps"
  then show "j_at ref_api (j_object ref_api ps) k = v"
    by (simp add: map_of_mk_obj)
next
  fix j k
  assume "canon j" "j_contains ref_api j k"
  then show "canon (j_at ref_api j k)"
    by (cases j) (fastforce simp: list_all_iff dest: map_of_SomeD split: option.splits)+
next
  fix j k and v :: jv and k'
  assume "j_is_object ref_api j \<or> j_is_null ref_api j"
  then show "j_at ref_api (j_set ref_api j k v) k' = (if k' = k then v else j_at ref_api j k')"
    by (cases j) auto
next
  fix s j
  assume "j_parse ref_api s = Inr j"
  then show "canon j"
    by (auto simp: parse_ref_def intro: parse_canon(1) split: option.splits if_splits
        simp del: parse_val.simps)
next
  fix ps :: "(string \<times> jv) list"
  assume "\<And>k v. (k, v) \<in> set ps \<Longrightarrow> ascii k \<and> canon v"
  then show "canon (j_object ref_api ps)"
    using canon_mk_obj [of ps] by (fastforce simp: list_all_iff)
next
  fix j s
  assume "canon j" "j_get_string ref_api j = Inr s"
  then show "ascii s" by (cases j) auto
next
  fix j e
  assume "j_get_string ref_api j = Inl e"
  then show "ascii (what e)" by (cases j) (auto simp: ascii_def)
next
  fix ps :: "(string \<times> jv) list" and k
  show "j_contains ref_api (j_object ref_api ps) k \<longleftrightarrow> k \<in> fst ` set ps" by simp
qed (auto simp: ascii_def list_all_iff dump_ref_def dump_indent_ref_def parse_print parse_print_newline print_one_line ref_value_def
      split: jv.splits option.splits if_splits)

end
