(* ===== verification/Tasks.thy ===== *)
theory Tasks
  imports Json_Api
begin

text \<open>
  Background tasks: \<open>ITask\<close> with its two implementations \<open>HeartbeatTask\<close> and
  \<open>SleepTask\<close> (\<open>src/tasks/builtin\<close>). A worker thread is a program counter in the task
  and advances one atomic store or one loop round at a time, so that calls from other
  threads can come between; the stop token and the clock are inputs of a step.
\<close>

section \<open>Task states\<close>

datatype TaskState = Pending | Running | Stopping | Stopped | Failed

fun task_state_to_string :: "TaskState \<Rightarrow> string" where
  "task_state_to_string Pending = ''pending''"
| "task_state_to_string Running = ''running''"
| "task_state_to_string Stopping = ''stopping''"
| "task_state_to_string Stopped = ''stopped''"
| "task_state_to_string Failed = ''failed''"

lemma task_state_to_string_inject:
  "task_state_to_string a = task_state_to_string b \<longleftrightarrow> a = b"
  by (cases a; cases b) simp_all

text \<open>
  The worker thread: none (not started or joined), in its loop with a counter (beats or
  elapsed milliseconds), between its two final stores, or finished but not joined.
\<close>

datatype worker = No_thread | Working int | Leaving | Exited

definition joinable :: "worker \<Rightarrow> bool" where
  "joinable w \<longleftrightarrow> w \<noteq> No_thread"

text \<open>The static counters of the two \<open>generate_id()\<close> functions.\<close>

record id_counters =
  heartbeat_counter :: uint64
  sleep_counter :: uint64

section \<open>\<open>HeartbeatTask\<close>\<close>

record HeartbeatTask =
  hb_id :: string
  hb_interval :: int
  hb_state :: TaskState
  hb_stopped :: bool
  hb_last_error :: string
  hb_worker :: worker

definition heartbeat_generate_id :: "id_counters \<Rightarrow> string \<times> id_counters" where
  "heartbeat_generate_id c =
     (''heartbeat_'' @ nat_string (unat (heartbeat_counter c)),
      c\<lparr>heartbeat_counter := heartbeat_counter c + 1\<rparr>)"

definition new_heartbeat :: "int \<Rightarrow> id_counters \<Rightarrow> HeartbeatTask \<times> id_counters" where
  "new_heartbeat interval_ms c =
     (case heartbeat_generate_id c of
        (i, c') \<Rightarrow>
          (\<lparr>hb_id = i, hb_interval = interval_ms, hb_state = Pending, hb_stopped = False,
            hb_last_error = [], hb_worker = No_thread\<rparr>, c'))"

definition heartbeat_id :: "HeartbeatTask \<Rightarrow> string" where
  [simp]: "heartbeat_id t = hb_id t"

definition heartbeat_type :: "HeartbeatTask \<Rightarrow> string" where
  [simp]: "heartbeat_type t = ''heartbeat''"

definition heartbeat_description :: "HeartbeatTask \<Rightarrow> string" where
  [simp]: "heartbeat_description t = ''Periodic heartbeat task that logs status at specified interval''"

definition heartbeat_state :: "HeartbeatTask \<Rightarrow> TaskState" where
  [simp]: "heartbeat_state t = hb_state t"

definition heartbeat_last_error :: "HeartbeatTask \<Rightarrow> string" where
  [simp]: "heartbeat_last_error t = hb_last_error t"

text \<open>\<open>start\<close> with the exception that creating the thread may raise.\<close>

definition heartbeat_start :: "exn option \<Rightarrow> HeartbeatTask \<Rightarrow> bool \<times> HeartbeatTask" where
  "heartbeat_start thread_exn t =
     (if hb_state t \<noteq> Pending then (False, t\<lparr>hb_last_error := ''Task already started''\<rparr>)
      else
        let t1 = t\<lparr>hb_state := Running\<rparr> in
        case thread_exn of
          None \<Rightarrow> (True, t1\<lparr>hb_worker := Working 0\<rparr>)
        | Some e \<Rightarrow> (False, t1\<lparr>hb_last_error := what e, hb_state := Failed\<rparr>))"

definition heartbeat_request_stop :: "HeartbeatTask \<Rightarrow> HeartbeatTask" where
  "heartbeat_request_stop t = t\<lparr>hb_state := Stopping\<rparr>"

text \<open>\<open>join\<close> blocks (\<^const>\<open>None\<close>) until the worker has left its function.\<close>

definition heartbeat_wait_stopped :: "int \<Rightarrow> HeartbeatTask \<Rightarrow> (bool \<times> HeartbeatTask) option" where
  "heartbeat_wait_stopped timeout t =
     (if \<not> joinable (hb_worker t) then Some (True, t)
      else if hb_worker t \<noteq> Exited then None
      else if timeout \<le> 0 then Some (True, t\<lparr>hb_worker := No_thread\<rparr>)
      else Some (hb_stopped t, t\<lparr>hb_worker := No_thread\<rparr>))"

definition heartbeat_step :: "bool \<Rightarrow> HeartbeatTask \<Rightarrow> HeartbeatTask" where
  "heartbeat_step stop_requested t =
     (case hb_worker t of
        Working beats \<Rightarrow>
          if stop_requested then t\<lparr>hb_state := Stopped, hb_worker := Leaving\<rparr>
          else t\<lparr>hb_worker := Working (beats + 1)\<rparr>
      | Leaving \<Rightarrow> t\<lparr>hb_stopped := True, hb_worker := Exited\<rparr>
      | _ \<Rightarrow> t)"

section \<open>\<open>SleepTask\<close>\<close>

record SleepTask =
  sl_id :: string
  sl_duration :: int
  sl_state :: TaskState
  sl_stopped :: bool
  sl_last_error :: string
  sl_worker :: worker

definition sleep_generate_id :: "id_counters \<Rightarrow> string \<times> id_counters" where
  "sleep_generate_id c =
     (''sleep_'' @ nat_string (unat (sleep_counter c)),
      c\<lparr>sleep_counter := sleep_counter c + 1\<rparr>)"

definition new_sleep :: "int \<Rightarrow> id_counters \<Rightarrow> SleepTask \<times> id_counters" where
  "new_sleep duration_ms c =
     (case sleep_generate_id c of
        (i, c') \<Rightarrow>
          (\<lparr>sl_id = i, sl_duration = duration_ms, sl_state = Pending, sl_stopped = False,
            sl_last_error = [], sl_worker = No_thread\<rparr>, c'))"

definition sleep_id :: "SleepTask \<Rightarrow> string" where
  [simp]: "sleep_id t = sl_id t"

definition sleep_type :: "SleepTask \<Rightarrow> string" where
  [simp]: "sleep_type t = ''sleep''"

definition sleep_description :: "SleepTask \<Rightarrow> string" where
  [simp]: "sleep_description t = ''One-shot task that sleeps for specified duration with early cancellation support''"

definition sleep_state :: "SleepTask \<Rightarrow> TaskState" where
  [simp]: "sleep_state t = sl_state t"

definition sleep_last_error :: "SleepTask \<Rightarrow> string" where
  [simp]: "sleep_last_error t = sl_last_error t"

definition sleep_start :: "exn option \<Rightarrow> SleepTask \<Rightarrow> bool \<times> SleepTask" where
  "sleep_start thread_exn t =
     (if sl_state t \<noteq> Pending then (False, t\<lparr>sl_last_error := ''Task already started''\<rparr>)
      else
        let t1 = t\<lparr>sl_state := Running\<rparr> in
        case thread_exn of
          None \<Rightarrow> (True, t1\<lparr>sl_worker := Working 0\<rparr>)
        | Some e \<Rightarrow> (False, t1\<lparr>sl_last_error := what e, sl_state := Failed\<rparr>))"

definition sleep_request_stop :: "SleepTask \<Rightarrow> SleepTask" where
  "sleep_request_stop t = t\<lparr>sl_state := Stopping\<rparr>"

definition sleep_wait_stopped :: "int \<Rightarrow> SleepTask \<Rightarrow> (bool \<times> SleepTask) option" where
  "sleep_wait_stopped timeout t =
     (if \<not> joinable (sl_worker t) then Some (True, t)
      else if sl_worker t \<noteq> Exited then None
      else if timeout \<le> 0 then Some (True, t\<lparr>sl_worker := No_thread\<rparr>)
      else Some (sl_stopped t, t\<lparr>sl_worker := No_thread\<rparr>))"

definition check_interval :: int where
  "check_interval = 100"

text \<open>
  One round: the loop test, \<open>sleep_for\<close> and the new clock reading (\<open>now\<close>, milliseconds
  since the start). Cancelled or completed, the worker stores the same state.
\<close>

definition sleep_step :: "bool \<Rightarrow> int \<Rightarrow> SleepTask \<Rightarrow> SleepTask" where
  "sleep_step stop_requested now t =
     (case sl_worker t of
        Working elapsed \<Rightarrow>
          if elapsed < sl_duration t \<and> \<not> stop_requested then t\<lparr>sl_worker := Working now\<rparr>
          else t\<lparr>sl_state := Stopped, sl_worker := Leaving\<rparr>
      | Leaving \<Rightarrow> t\<lparr>sl_stopped := True, sl_worker := Exited\<rparr>
      | _ \<Rightarrow> t)"

text \<open>How long a round that starts at \<open>elapsed\<close> asks to sleep.\<close>

definition sleep_request :: "int \<Rightarrow> int \<Rightarrow> int" where
  "sleep_request duration elapsed = min (duration - elapsed) check_interval"

section \<open>\<open>ITask\<close>\<close>

datatype ITask = Heartbeat HeartbeatTask | Sleep SleepTask

fun task_id :: "ITask \<Rightarrow> string" where
  "task_id (Heartbeat t) = heartbeat_id t"
| "task_id (Sleep t) = sleep_id t"

fun task_type :: "ITask \<Rightarrow> string" where
  "task_type (Heartbeat t) = heartbeat_type t"
| "task_type (Sleep t) = sleep_type t"

fun task_description :: "ITask \<Rightarrow> string" where
  "task_description (Heartbeat t) = heartbeat_description t"
| "task_description (Sleep t) = sleep_description t"

fun task_state :: "ITask \<Rightarrow> TaskState" where
  "task_state (Heartbeat t) = heartbeat_state t"
| "task_state (Sleep t) = sleep_state t"

fun task_last_error :: "ITask \<Rightarrow> string" where
  "task_last_error (Heartbeat t) = heartbeat_last_error t"
| "task_last_error (Sleep t) = sleep_last_error t"

fun task_worker :: "ITask \<Rightarrow> worker" where
  "task_worker (Heartbeat t) = hb_worker t"
| "task_worker (Sleep t) = sl_worker t"

fun task_start :: "exn option \<Rightarrow> ITask \<Rightarrow> bool \<times> ITask" where
  "task_start e (Heartbeat t) = map_prod id Heartbeat (heartbeat_start e t)"
| "task_start e (Sleep t) = map_prod id Sleep (sleep_start e t)"

fun task_request_stop :: "ITask \<Rightarrow> ITask" where
  "task_request_stop (Heartbeat t) = Heartbeat (heartbeat_request_stop t)"
| "task_request_stop (Sleep t) = Sleep (sleep_request_stop t)"

fun task_wait_stopped :: "int \<Rightarrow> ITask \<Rightarrow> (bool \<times> ITask) option" where
  "task_wait_stopped timeout (Heartbeat t) =
     map_option (map_prod id Heartbeat) (heartbeat_wait_stopped timeout t)"
| "task_wait_stopped timeout (Sleep t) =
     map_option (map_prod id Sleep) (sleep_wait_stopped timeout t)"

fun task_step :: "bool \<Rightarrow> int \<Rightarrow> ITask \<Rightarrow> ITask" where
  "task_step stop_requested now (Heartbeat t) = Heartbeat (heartbeat_step stop_requested t)"
| "task_step stop_requested now (Sleep t) = Sleep (sleep_step stop_requested now t)"

section \<open>The contract of a task\<close>

text \<open>
  What the manager relies on: only a pending task starts, a second \<open>start\<close> fails and
  keeps the state, \<open>request_stop\<close> always stores \<open>Stopping\<close>, the worker is the only one
  to store \<open>Stopped\<close> and does so once.
\<close>

locale background_task =
  fixes state :: "'t \<Rightarrow> TaskState" and thread :: "'t \<Rightarrow> worker"
    and start :: "exn option \<Rightarrow> 't \<Rightarrow> bool \<times> 't" and request_stop :: "'t \<Rightarrow> 't"
    and wait_stopped :: "int \<Rightarrow> 't \<Rightarrow> (bool \<times> 't) option" and step :: "bool \<Rightarrow> int \<Rightarrow> 't \<Rightarrow> 't"
  assumes start_pending: "state t = Pending \<Longrightarrow>
      fst (start e t) = (e = None) \<and> state (snd (start e t)) = (if e = None then Running else Failed) \<and>
      thread (snd (start e t)) = (if e = None then Working 0 else thread t)"
    and start_other: "state t \<noteq> Pending \<Longrightarrow>
      \<not> fst (start e t) \<and> state (snd (start e t)) = state t \<and> thread (snd (start e t)) = thread t"
    and stop_stores: "state (request_stop t) = Stopping" "thread (request_stop t) = thread t"
    and step_working: "thread t = Working n \<Longrightarrow>
      (state (step b now t) = state t \<and> (\<exists>m. thread (step b now t) = Working m)) \<or>
      (state (step b now t) = Stopped \<and> thread (step b now t) = Leaving)"
    and step_leaving: "thread t = Leaving \<Longrightarrow>
      state (step b now t) = state t \<and> thread (step b now t) = Exited"
    and step_idle: "thread t = No_thread \<or> thread t = Exited \<Longrightarrow>
      state (step b now t) = state t \<and> thread (step b now t) = thread t"
    and wait_result: "wait_stopped timeout t = Some (r, t') \<Longrightarrow>
      state t' = state t \<and> thread t' = No_thread \<and> thread t \<in> {No_thread, Exited}"
    and wait_blocks: "wait_stopped timeout t = None \<longleftrightarrow> thread t \<notin> {No_thread, Exited}"
begin

text \<open>The calls that can be made on a task, by any thread and in any order.\<close>

inductive call :: "'t \<Rightarrow> 't \<Rightarrow> bool" where
  started: "call t (snd (start e t))"
| stopping: "call t (request_stop t)"
| worked: "call t (step b now t)"
| waited: "wait_stopped timeout t = Some (r, t') \<Longrightarrow> call t t'"

lemma step_state: "state (step b now t) \<in> {state t, Stopped}"
proof (cases "thread t")
  case (Working n)
  from step_working [OF this, of b now] show ?thesis by auto
qed (simp_all add: step_leaving step_idle)

lemma call_leaves_pending:
  assumes "call t t'" and "state t \<noteq> Pending"
  shows "state t' \<noteq> Pending"
  using assms
proof cases
  case (started e)
  then show ?thesis using start_other [OF assms(2), of e] assms(2) by simp
next
  case stopping
  then show ?thesis by (simp add: stop_stores)
next
  case (worked b now)
  then show ?thesis using step_state [of b now t] assms(2) by auto
next
  case (waited timeout r)
  then show ?thesis using wait_result [OF waited] assms(2) by simp
qed

text \<open>A task that left \<open>Pending\<close> never starts again.\<close>

lemma starts_once:
  assumes "call\<^sup>*\<^sup>* t t'" and "state t \<noteq> Pending"
  shows "\<not> fst (start e t')"
proof -
  from assms have "state t' \<noteq> Pending"
    by (induction rule: rtranclp_induct) (auto dest: call_leaves_pending)
  then show ?thesis using start_other by blast
qed

text \<open>
  After the worker has left its loop nobody stores \<open>Stopped\<close> any more: a \<open>request_stop\<close>
  that comes later leaves the task in \<open>Stopping\<close> for ever.
\<close>

lemma late_stop_persists:
  assumes "call\<^sup>*\<^sup>* t t'" and "state t = Stopping" and "thread t \<in> {No_thread, Leaving, Exited}"
  shows "state t' = Stopping"
proof -
  have late: "state v = Stopping \<and> thread v \<in> {No_thread, Leaving, Exited}"
    if "call u v" "state u = Stopping \<and> thread u \<in> {No_thread, Leaving, Exited}" for u v
    using that(1)
  proof cases
    case (started e)
    then show ?thesis using start_other [of u e] that(2) by simp
  next
    case stopping
    then show ?thesis using that(2) by (simp add: stop_stores)
  next
    case (worked b now)
    then show ?thesis using step_leaving [of u b now] step_idle [of u b now] that(2) by auto
  next
    case (waited timeout r)
    then show ?thesis using wait_result [OF waited] that(2) by simp
  qed
  from assms have "state t' = Stopping \<and> thread t' \<in> {No_thread, Leaving, Exited}"
    by (induction rule: rtranclp_induct) (use late in blast)+
  then show ?thesis by blast
qed

end

lemmas heartbeat_defs = heartbeat_start_def heartbeat_request_stop_def heartbeat_step_def
  heartbeat_wait_stopped_def joinable_def Let_def
lemmas sleep_defs = sleep_start_def sleep_request_stop_def sleep_step_def
  sleep_wait_stopped_def joinable_def Let_def

interpretation hb: background_task hb_state hb_worker heartbeat_start heartbeat_request_stop
  heartbeat_wait_stopped "\<lambda>b now. heartbeat_step b"
  by unfold_locales
    (auto simp: heartbeat_defs split: option.splits worker.splits if_splits)

interpretation sl: background_task sl_state sl_worker sleep_start sleep_request_stop
  sleep_wait_stopped sleep_step
  by unfold_locales
    (auto simp: sleep_defs split: option.splits worker.splits if_splits)

text \<open>Virtual dispatch inherits the contract from the two classes.\<close>

interpretation it: background_task task_state task_worker task_start task_request_stop
  task_wait_stopped task_step
proof unfold_locales
  fix t :: ITask and e b now n timeout r t'
  show "task_state t = Pending \<Longrightarrow>
      fst (task_start e t) = (e = None) \<and> task_state (snd (task_start e t)) = (if e = None then Running else Failed) \<and>
      task_worker (snd (task_start e t)) = (if e = None then Working 0 else task_worker t)"
    by (cases t) (simp_all add: hb.start_pending sl.start_pending)
  show "task_state t \<noteq> Pending \<Longrightarrow>
      \<not> fst (task_start e t) \<and> task_state (snd (task_start e t)) = task_state t \<and>
      task_worker (snd (task_start e t)) = task_worker t"
    by (cases t) (simp_all add: hb.start_other sl.start_other)
  show "task_state (task_request_stop t) = Stopping" "task_worker (task_request_stop t) = task_worker t"
    by (cases t; simp add: hb.stop_stores sl.stop_stores)+
  show "task_worker t = Working n \<Longrightarrow>
      (task_state (task_step b now t) = task_state t \<and> (\<exists>m. task_worker (task_step b now t) = Working m)) \<or>
      (task_state (task_step b now t) = Stopped \<and> task_worker (task_step b now t) = Leaving)"
    using hb.step_working sl.step_working by (cases t) simp_all
  show "task_worker t = Leaving \<Longrightarrow>
      task_state (task_step b now t) = task_state t \<and> task_worker (task_step b now t) = Exited"
    by (cases t) (simp_all add: hb.step_leaving sl.step_leaving)
  show "task_worker t = No_thread \<or> task_worker t = Exited \<Longrightarrow>
      task_state (task_step b now t) = task_state t \<and> task_worker (task_step b now t) = task_worker t"
    by (cases t) (simp_all add: hb.step_idle sl.step_idle)
  show "task_wait_stopped timeout t = Some (r, t') \<Longrightarrow>
      task_state t' = task_state t \<and> task_worker t' = No_thread \<and> task_worker t \<in> {No_thread, Exited}"
    using hb.wait_result sl.wait_result by (cases t) fastforce+
  show "task_wait_stopped timeout t = None \<longleftrightarrow> task_worker t \<notin> {No_thread, Exited}"
    using hb.wait_blocks sl.wait_blocks by (cases t) simp_all
qed

section \<open>The sleep ends\<close>

text \<open>
  The worker of a \<open>SleepTask\<close> over a sequence of loop rounds without a stop request, given
  the clock readings. \<open>sleep_for\<close> sleeps at least as long as it is asked to.
\<close>

fun clock_ok :: "int \<Rightarrow> int \<Rightarrow> int list \<Rightarrow> bool" where
  "clock_ok duration elapsed [] \<longleftrightarrow> True"
| "clock_ok duration elapsed (now # ns) \<longleftrightarrow>
     (elapsed < duration \<longrightarrow> elapsed + sleep_request duration elapsed \<le> now) \<and> clock_ok duration now ns"

lemma sleep_step_exited:
  "sl_worker t = Exited \<Longrightarrow> fold (\<lambda>now t. sleep_step False now t) ns t = t"
  by (induction ns) (simp_all add: sleep_step_def)

lemma sleep_finishes:
  assumes "sl_worker t = Working elapsed" and "clock_ok (sl_duration t) elapsed ns"
    and "nat ((sl_duration t - elapsed + 99) div 100) + 2 \<le> length ns"
  shows "sl_worker (fold (\<lambda>now t. sleep_step False now t) ns t) = Exited \<and>
    sl_state (fold (\<lambda>now t. sleep_step False now t) ns t) = Stopped \<and>
    sl_stopped (fold (\<lambda>now t. sleep_step False now t) ns t)"
  using assms
proof (induction ns arbitrary: t elapsed)
  case (Cons now ns)
  show ?case
  proof (cases "elapsed < sl_duration t")
    case True
    let ?t = "t\<lparr>sl_worker := Working now\<rparr>"
    have adv: "elapsed + min (sl_duration t - elapsed) 100 \<le> now"
      using Cons.prems(2) True by (simp add: sleep_request_def check_interval_def)
    have "(sl_duration t - now + 99) div 100 + 1 \<le> (sl_duration t - elapsed + 99) div 100 \<or>
        (sl_duration t - now + 99) div 100 \<le> 0"
      using adv by (cases "sl_duration t - elapsed \<le> 100") auto
    then have "nat ((sl_duration t - now + 99) div 100) + 2 \<le> length ns"
      using Cons.prems(3) True by auto
    then show ?thesis
      using Cons.IH [of ?t now] Cons.prems(1,2) True by (simp add: sleep_step_def)
  next
    case False
    obtain n ns' where ns: "ns = n # ns'" using Cons.prems(3) by (cases ns) auto
    then show ?thesis
      using Cons.prems(1) False sleep_step_exited
        [of "t\<lparr>sl_state := Stopped, sl_worker := Leaving, sl_stopped := True, sl_worker := Exited\<rparr>" ns']
      by (simp add: sleep_step_def)
  qed
qed simp

end
