(* ===== verification/Registries.thy ===== *)
theory Registries
  imports Tasks
begin

text \<open>
  The tables from names to factories: \<open>TaskRegistry\<close> (\<open>src/tasks/task_registry.cpp\<close>) and
  the singleton \<open>TaskFactory\<close> with its built-in creators
  (\<open>src/tasks/builtin/task_factory.cpp\<close>), and the contract they share.
\<close>

section \<open>The contract of a name table\<close>

text \<open>
  A table with distinct names; registering a name leaves the others alone. The two ways to
  treat a name that is taken are the two extensions below.
\<close>

locale name_table =
  fixes empty :: 'r and find :: "'r \<Rightarrow> string \<Rightarrow> 'f option"
    and names :: "'r \<Rightarrow> string list" and put :: "string \<Rightarrow> 'f \<Rightarrow> 'r \<Rightarrow> 'r" and ok :: "'r \<Rightarrow> bool"
  assumes ok_empty: "ok empty"
    and find_empty: "find empty k = None"
    and ok_put: "ok r \<Longrightarrow> ok (put k f r)"
    and put_other: "k' \<noteq> k \<Longrightarrow> find (put k f r) k' = find r k'"
    and put_bound: "find (put k f r) k \<noteq> None"
    and names_set: "ok r \<Longrightarrow> set (names r) = {k. find r k \<noteq> None}"
    and names_distinct: "ok r \<Longrightarrow> distinct (names r)"
begin

text \<open>Registering a list of entries in order.\<close>

definition put_all :: "(string \<times> 'f) list \<Rightarrow> 'r \<Rightarrow> 'r" where
  "put_all ps r = fold (\<lambda>p. put (fst p) (snd p)) ps r"

lemma ok_put_all: "ok r \<Longrightarrow> ok (put_all ps r)"
  unfolding put_all_def by (induction ps arbitrary: r) (simp_all add: ok_put)

lemma put_dom: "(find (put k f r) k' \<noteq> None) = (k' = k \<or> find r k' \<noteq> None)"
  using put_other put_bound by (cases "k' = k") auto

lemma put_all_dom: "(find (put_all ps r) k \<noteq> None) = (k \<in> fst ` set ps \<or> find r k \<noteq> None)"
  unfolding put_all_def
  by (induction ps arbitrary: r) (use put_dom in auto)

lemma put_all_other: "k \<notin> fst ` set ps \<Longrightarrow> find (put_all ps r) k = find r k"
  unfolding put_all_def
  by (induction ps arbitrary: r) (simp_all add: put_other)

lemma names_put_all:
  "set (names (put_all ps empty)) = fst ` set ps" "distinct (names (put_all ps empty))"
  using names_set [OF ok_put_all [OF ok_empty]] put_all_dom [of ps empty]
    names_distinct [OF ok_put_all [OF ok_empty]]
  by (auto simp: find_empty)

end

text \<open>The first registration of a name stays.\<close>

locale first_wins = name_table +
  assumes put_taken: "find r k \<noteq> None \<Longrightarrow> put k f r = r"
    and put_free: "find r k = None \<Longrightarrow> find (put k f r) k = Some f"
begin

lemma find_put_all: "find (put_all ps r) k = (case find r k of Some f \<Rightarrow> Some f | None \<Rightarrow> map_of ps k)"
proof (induction ps arbitrary: r)
  case Nil
  show ?case by (simp add: put_all_def split: option.split)
next
  case (Cons p ps)
  have "put_all (p # ps) r = put_all ps (put (fst p) (snd p) r)" by (simp add: put_all_def)
  then show ?case
    using put_other [of k "fst p" "snd p" r] put_taken [of r k] put_free [of r k]
      Cons.IH [of "put (fst p) (snd p) r"]
    by (cases "k = fst p") (auto split: option.splits)
qed

end

text \<open>The last registration of a name stays.\<close>

locale last_wins = name_table +
  assumes put_stores: "find (put k f r) k = Some f"
begin

lemma find_put_all: "find (put_all ps r) k = (case map_of (rev ps) k of Some f \<Rightarrow> Some f | None \<Rightarrow> find r k)"
proof (induction ps arbitrary: r)
  case Nil
  show ?case by (simp add: put_all_def)
next
  case (Cons p ps)
  have "put_all (p # ps) r = put_all ps (put (fst p) (snd p) r)" by (simp add: put_all_def)
  then show ?case
    using put_other [of k "fst p" "snd p" r] put_stores [of "fst p" "snd p" r]
      Cons.IH [of "put (fst p) (snd p) r"]
    by (cases "k = fst p") (auto simp: map_add_def split: option.splits)
qed

end

section \<open>\<open>TaskRegistry\<close>\<close>

text \<open>
  A factory gets the id and the parameters; it may throw, return a null pointer, and
  advance the static id counters.
\<close>

type_synonym 'j task_factory = "string \<Rightarrow> 'j \<Rightarrow> id_counters \<Rightarrow> ITask option res \<times> id_counters"

record 'j TaskRegistry =
  factories :: "(string, 'j task_factory) umap"

definition new_task_registry :: "'j TaskRegistry" where
  "new_task_registry = \<lparr>factories = []\<rparr>"

definition register_task_type ::
    "string \<Rightarrow> 'j task_factory \<Rightarrow> 'j TaskRegistry \<Rightarrow> bool \<times> 'j TaskRegistry" where
  "register_task_type typ factory r =
     (if map_of (factories r) typ \<noteq> None then (False, r)
      else (True, r\<lparr>factories := AList.update typ factory (factories r)\<rparr>))"

definition create_task :: "string \<Rightarrow> string \<Rightarrow> 'j \<Rightarrow> 'j TaskRegistry \<Rightarrow> id_counters \<Rightarrow>
    ITask option res \<times> id_counters" where
  "create_task typ i params r c =
     (case map_of (factories r) typ of
        None \<Rightarrow> (Inr None, c)
      | Some factory \<Rightarrow> factory i params c)"

definition get_registered_types :: "'j TaskRegistry \<Rightarrow> string list" where
  "get_registered_types r = sort (map fst (factories r))"

definition has_type :: "string \<Rightarrow> 'j TaskRegistry \<Rightarrow> bool" where
  "has_type typ r \<longleftrightarrow> map_of (factories r) typ \<noteq> None"

interpretation tr: first_wins new_task_registry "\<lambda>r. map_of (factories r)" get_registered_types
  "\<lambda>k f r. snd (register_task_type k f r)" "\<lambda>r. keys_ok (factories r)"
  by unfold_locales
    (auto simp: new_task_registry_def register_task_type_def get_registered_types_def
      umap_keys)

section \<open>\<open>TaskFactory\<close> and the built-in creators\<close>

type_synonym 'j creator = "'j \<Rightarrow> id_counters \<Rightarrow> ITask option res \<times> id_counters"

record 'j TaskFactory =
  creators :: "(string, 'j creator) umap"

definition new_task_factory :: "'j TaskFactory" where
  "new_task_factory = \<lparr>creators = []\<rparr>"

definition registerTask :: "string \<Rightarrow> 'j creator \<Rightarrow> 'j TaskFactory \<Rightarrow> bool \<times> 'j TaskFactory" where
  "registerTask type_name creator f =
     (if map_of (creators f) type_name \<noteq> None then (False, f)
      else (True, f\<lparr>creators := AList.update type_name creator (creators f)\<rparr>))"

definition createTask ::
    "string \<Rightarrow> 'j \<Rightarrow> 'j TaskFactory \<Rightarrow> id_counters \<Rightarrow> ITask option res \<times> id_counters" where
  "createTask type_name params f c =
     (case map_of (creators f) type_name of
        None \<Rightarrow> (Inr None, c)
      | Some creator \<Rightarrow> creator params c)"

definition getRegisteredTypes :: "'j TaskFactory \<Rightarrow> string list" where
  "getRegisteredTypes f = map fst (creators f)"

interpretation tf: first_wins new_task_factory "\<lambda>f. map_of (creators f)" getRegisteredTypes
  "\<lambda>k g f. snd (registerTask k g f)" "\<lambda>f. keys_ok (creators f)"
  by unfold_locales
    (auto simp: new_task_factory_def registerTask_def getRegisteredTypes_def
      umap_keys)

text \<open>
  The two lambdas of \<open>BuiltinTaskRegistrar\<close>: seconds become milliseconds, a parameter of
  the wrong type makes \<open>get<int>()\<close> throw.
\<close>

definition heartbeat_creator :: "'j json_api \<Rightarrow> 'j creator" where
  "heartbeat_creator J params c =
     (case (if j_contains J params ''interval'' then j_get_int J (j_at J params ''interval'') else Inr 5) of
        Inl e \<Rightarrow> (Inl e, c)
      | Inr interval_sec \<Rightarrow>
          (case new_heartbeat (sint interval_sec * 1000) c of
             (t, c') \<Rightarrow> (Inr (Some (Heartbeat t)), c')))"

definition sleep_creator :: "'j json_api \<Rightarrow> 'j creator" where
  "sleep_creator J params c =
     (case (if j_contains J params ''duration'' then j_get_int J (j_at J params ''duration'') else Inr 10) of
        Inl e \<Rightarrow> (Inl e, c)
      | Inr duration_sec \<Rightarrow>
          (case new_sleep (sint duration_sec * 1000) c of
             (t, c') \<Rightarrow> (Inr (Some (Sleep t)), c')))"

definition BuiltinTaskRegistrar :: "'j json_api \<Rightarrow> 'j TaskFactory \<Rightarrow> 'j TaskFactory" where
  "BuiltinTaskRegistrar J f =
     snd (registerTask ''sleep'' (sleep_creator J)
       (snd (registerTask ''heartbeat'' (heartbeat_creator J) f)))"

text \<open>
  \<open>TaskFactory::instance()\<close> and the static \<open>registrar\<close>, whose constructor runs before \<open>main\<close>.
\<close>

definition factory_instance :: "'j TaskFactory" where
  "factory_instance = new_task_factory"

definition startup_factory :: "'j json_api \<Rightarrow> 'j TaskFactory" where
  "startup_factory J = BuiltinTaskRegistrar J factory_instance"

lemma builtin_put_all:
  "startup_factory J =
     tf.put_all [(''heartbeat'', heartbeat_creator J), (''sleep'', sleep_creator J)] new_task_factory"
  by (simp add: startup_factory_def factory_instance_def BuiltinTaskRegistrar_def tf.put_all_def)

lemma builtin_types:
  "set (getRegisteredTypes (startup_factory J)) = {''heartbeat'', ''sleep''}"
  "map_of (creators (startup_factory J)) =
     [''heartbeat'' \<mapsto> heartbeat_creator J, ''sleep'' \<mapsto> sleep_creator J]"
proof -
  show "set (getRegisteredTypes (startup_factory J)) = {''heartbeat'', ''sleep''}"
    unfolding builtin_put_all tf.names_put_all by simp
  show "map_of (creators (startup_factory J)) =
     [''heartbeat'' \<mapsto> heartbeat_creator J, ''sleep'' \<mapsto> sleep_creator J]"
    unfolding builtin_put_all tf.find_put_all [abs_def]
    by (auto simp: fun_eq_iff tf.find_empty)
qed

end
