(* ===== verification/Task_Manager.thy ===== *)
theory Task_Manager
  imports Registries "HOL-Library.Multiset"
begin

text \<open>
  \<open>TaskManager\<close> of \<open>src/tasks/task_manager.cpp\<close>. A \<open>unique_ptr\<close> is an option and
  \<open>std::move\<close> leaves \<^const>\<open>None\<close> behind; a call through a null pointer is undefined
  behaviour, which the operations report as the outcome \<open>Undefined\<close>.
\<close>

section \<open>Pointers\<close>

datatype 'a outcome = Done 'a | Undefined

definition out_bind :: "'a outcome \<Rightarrow> ('a \<Rightarrow> 'b outcome) \<Rightarrow> 'b outcome" where
  "out_bind m f = (case m of Done x \<Rightarrow> f x | Undefined \<Rightarrow> Undefined)"

lemma out_bind_simps [simp]:
  "out_bind (Done x) f = f x" "out_bind Undefined f = Undefined"
  by (simp_all add: out_bind_def)

lemma out_bind_Done_iff: "out_bind m f = Done y \<longleftrightarrow> (\<exists>x. m = Done x \<and> f x = Done y)"
  by (cases m) simp_all

definition deref :: "'a option \<Rightarrow> 'a outcome" where
  "deref p = (case p of None \<Rightarrow> Undefined | Some x \<Rightarrow> Done x)"

lemma deref_simps [simp]: "deref None = Undefined" "deref (Some x) = Done x"
  by (simp_all add: deref_def)

lemma deref_Done_iff [simp]: "deref p = Done x \<longleftrightarrow> p = Some x"
  by (cases p) simp_all

text \<open>\<open>y = std::move(x)\<close>: the new value of \<open>y\<close> and of \<open>x\<close>.\<close>

definition move_ptr :: "'a option \<Rightarrow> 'a option \<times> 'a option" where
  "move_ptr x = (x, None)"

fun out_map :: "('a \<Rightarrow> 'b outcome) \<Rightarrow> 'a list \<Rightarrow> 'b list outcome" where
  "out_map f [] = Done []"
| "out_map f (x # xs) = out_bind (f x) (\<lambda>y. out_bind (out_map f xs) (\<lambda>ys. Done (y # ys)))"

lemma out_map_Done_iff: "out_map f xs = Done ys \<longleftrightarrow> list_all2 (\<lambda>x y. f x = Done y) xs ys"
  by (induction xs arbitrary: ys) (auto simp: out_bind_Done_iff list_all2_Cons1)

section \<open>State\<close>

text \<open>
  An entry: the task, whether \<open>thread\<close> is joinable, the stop state of \<open>stop_source\<close>
  (\<^const>\<open>None\<close> when it was moved from), the flag and the three times.
\<close>

record TaskEntry =
  te_task :: "ITask option"
  te_joinable :: bool
  te_stop :: "bool option"
  te_running :: bool
  te_created_at :: int
  te_started_at :: int
  te_stopped_at :: int

definition time_point_min :: int where
  "time_point_min = - (2 ^ 63)"

definition new_entry :: TaskEntry where
  "new_entry =
     \<lparr>te_task = None, te_joinable = False, te_stop = Some False, te_running = False,
      te_created_at = 0, te_started_at = 0, te_stopped_at = 0\<rparr>"

text \<open>The move constructor: the new object and what is left of \<open>other\<close>.\<close>

definition move_entry :: "TaskEntry \<Rightarrow> TaskEntry \<times> TaskEntry" where
  "move_entry other =
     (\<lparr>te_task = te_task other, te_joinable = te_joinable other, te_stop = te_stop other,
       te_running = te_running other, te_created_at = te_created_at other,
       te_started_at = te_started_at other, te_stopped_at = te_stopped_at other\<rparr>,
      other\<lparr>te_task := None, te_joinable := False, te_stop := None\<rparr>)"

text \<open>
  The move assignment, with the answer of \<open>this != &other\<close>. Assigning to a joinable
  \<open>std::thread\<close> calls \<open>std::terminate\<close> (\<^const>\<open>None\<close>).
\<close>

definition assign_entry :: "bool \<Rightarrow> TaskEntry \<Rightarrow> TaskEntry \<Rightarrow> (TaskEntry \<times> TaskEntry) option" where
  "assign_entry differ this other =
     (if \<not> differ then Some (this, other)
      else if te_joinable this then None
      else
        let (task, task') = move_ptr (te_task other);
            (stop_state, stop_state') = move_ptr (te_stop other)
        in Some (this\<lparr>te_task := task, te_joinable := te_joinable other, te_stop := stop_state,
                      te_running := te_running other, te_created_at := te_created_at other,
                      te_started_at := te_started_at other, te_stopped_at := te_stopped_at other\<rparr>,
                 other\<lparr>te_task := task', te_joinable := False, te_stop := stop_state'\<rparr>))"

record 'j TaskManager =
  tm_registry :: "'j TaskRegistry"
  tm_tasks :: "(string, TaskEntry) umap"
  next_task_id :: uint64
  shutdown_requested :: bool
  tm_counters :: id_counters

record TaskInfo =
  ti_id :: string
  ti_type :: string
  ti_description :: string
  ti_state :: TaskState
  ti_last_error :: string
  ti_created_at :: int
  ti_started_at :: int
  ti_stopped_at :: int

definition new_task_manager :: "'j TaskRegistry option \<Rightarrow> id_counters \<Rightarrow> 'j TaskManager res" where
  "new_task_manager registry c =
     (case registry of
        None \<Rightarrow> Inl (Invalid_argument ''TaskRegistry cannot be null'')
      | Some r \<Rightarrow>
          Inr \<lparr>tm_registry = r, tm_tasks = [], next_task_id = 0, shutdown_requested = False,
               tm_counters = c\<rparr>)"

section \<open>Adding a task\<close>

definition manager_task_id :: "uint64 \<Rightarrow> string" where
  "manager_task_id n = ''task_'' @ nat_string (unat n)"

text \<open>
  The created task is moved into the first, outer \<open>entry\<close>, which dies with it when the
  function returns; the inner \<open>entry\<close>, which goes into the table, is filled from the
  variable that was moved from. \<open>clock\<close> holds the two readings of the clock; \<open>thread_exn\<close> is
  what the constructor of \<open>std::thread\<close> throws, after the entry was inserted. The body of the
  thread is the separate operation \<open>run_task\<close>.
\<close>

definition stamped :: "ITask option \<Rightarrow> int \<Rightarrow> TaskEntry" where
  "stamped task now =
     new_entry\<lparr>te_task := task, te_created_at := now, te_started_at := time_point_min,
               te_stopped_at := time_point_min\<rparr>"

definition add_task :: "int \<times> int \<Rightarrow> exn option \<Rightarrow> string \<Rightarrow> 'j \<Rightarrow> 'j TaskManager \<Rightarrow>
    string res \<times> 'j TaskManager" where
  "add_task clock thread_exn typ params m =
     (if shutdown_requested m then (Inr [], m)
      else
        let i = manager_task_id (next_task_id m);
            m1 = m\<lparr>next_task_id := next_task_id m + 1\<rparr> in
        case create_task typ i params (tm_registry m1) (tm_counters m1) of
          (Inl e, c) \<Rightarrow> (Inl e, m1\<lparr>tm_counters := c\<rparr>)
        | (Inr None, c) \<Rightarrow> (Inr [], m1\<lparr>tm_counters := c\<rparr>)
        | (Inr (Some t), c) \<Rightarrow>
            let m2 = m1\<lparr>tm_counters := c\<rparr>;
                task0 = Some t;
                (outer_task, task1) = move_ptr task0;
                outer_entry = stamped outer_task (fst clock);
                (inner_task, task2) = move_ptr task1;
                inner_entry = (stamped inner_task (snd clock))\<lparr>te_stop := Some False\<rparr>
            in if map_of (tm_tasks m2) i \<noteq> None then (Inr [], m2)
               else
                 let entry = fst (move_entry inner_entry);
                     m3 = m2\<lparr>tm_tasks := AList.update i entry (tm_tasks m2)\<rparr>
                 in case thread_exn of
                      Some e \<Rightarrow> (Inl e, m3)
                    | None \<Rightarrow>
                        let started = entry\<lparr>te_joinable := True\<rparr>;
                            detached = started\<lparr>te_joinable := False\<rparr>
                        in (Inr i, m3\<lparr>tm_tasks := AList.update i detached (tm_tasks m3)\<rparr>))"

text \<open>
  \<open>run_task\<close>, the body of the thread of an entry: the rounds its worker makes (stop token
  and clock of each) are the input \<open>rounds\<close>; the flag says whether the function has
  returned or is still in \<open>join\<close>.
\<close>

definition run_task :: "int \<Rightarrow> exn option \<Rightarrow> (bool \<times> int) list \<Rightarrow> int \<Rightarrow> TaskEntry \<Rightarrow> (bool \<times> TaskEntry) outcome"
where
  "run_task now1 thread_exn rounds now2 entry =
     (let e1 = entry\<lparr>te_started_at := now1, te_running := True\<rparr> in
      out_bind (deref (te_task e1)) (\<lambda>t.
        let t1 = snd (task_start thread_exn t);
            t2 = fold (\<lambda>r. task_step (fst r) (snd r)) rounds t1
        in case task_wait_stopped 0 t2 of
             None \<Rightarrow> Done (False, e1\<lparr>te_task := Some t2\<rparr>)
           | Some (_, t3) \<Rightarrow>
               Done (True, e1\<lparr>te_task := Some t3, te_stopped_at := now2, te_running := False\<rparr>)))"

section \<open>Stopping tasks\<close>

definition stop_task :: "string \<Rightarrow> 'j TaskManager \<Rightarrow> (bool \<times> 'j TaskManager) outcome" where
  "stop_task i m =
     (case map_of (tm_tasks m) i of
        None \<Rightarrow> Done (False, m)
      | Some entry \<Rightarrow>
          let e1 = entry\<lparr>te_stop := map_option (\<lambda>_. True) (te_stop entry)\<rparr> in
          out_bind (deref (te_task e1)) (\<lambda>t.
            Done (True, m\<lparr>tm_tasks :=
              AList.update i (e1\<lparr>te_task := Some (task_request_stop t)\<rparr>) (tm_tasks m)\<rparr>)))"

text \<open>
  \<open>stop_all_tasks\<close> requests the stop of every task and then polls the \<open>running\<close> flags. A poll
  is what one round of the inner loop sees: the flag, and the clock (in nanoseconds) if the
  flag is up. For each entry the flag is loaded once before the loop. \<^const>\<open>None\<close> means that the polls have
  run out while the loop goes on. The loop only reads; its result here is the list of the
  tasks whose wait has timed out.
\<close>

fun stop_each :: "string list \<Rightarrow> 'j TaskManager \<Rightarrow> 'j TaskManager outcome" where
  "stop_each [] m = Done m"
| "stop_each (i # ids) m = out_bind (stop_task i m) (\<lambda>r. stop_each ids (snd r))"

type_synonym polls = "(bool \<times> int) list"

fun wait_entry :: "int \<Rightarrow> polls \<Rightarrow> (bool \<times> polls) option" where
  "wait_entry deadline [] = None"
| "wait_entry deadline ((running, now) # ps) =
     (if \<not> running then Some (True, ps)
      else if now \<ge> deadline then Some (False, ps)
      else wait_entry deadline ps)"

fun wait_entries :: "int \<Rightarrow> string list \<Rightarrow> polls \<Rightarrow> (string list \<times> polls) option" where
  "wait_entries deadline [] ps = Some ([], ps)"
| "wait_entries deadline (i # ids) [] = None"
| "wait_entries deadline (i # ids) (p # ps) =
     (if \<not> fst p then wait_entries deadline ids ps
      else
        Option.bind (wait_entry deadline ps) (\<lambda>(ended, ps').
          map_option (map_prod (\<lambda>late. if ended then late else i # late) id)
            (wait_entries deadline ids ps')))"

definition stop_all_tasks :: "int \<Rightarrow> polls \<Rightarrow> 'j TaskManager \<Rightarrow> (string list \<times> 'j TaskManager) outcome option" where
  "stop_all_tasks now ps m =
     (let m1 = m\<lparr>shutdown_requested := True\<rparr> in
      case stop_each (map fst (tm_tasks m1)) m1 of
        Undefined \<Rightarrow> Some Undefined
      | Done m2 \<Rightarrow>
          map_option (\<lambda>(late, _). Done (late, m2))
            (wait_entries (now + 10 * 10 ^ 9) (map fst (tm_tasks m2)) ps))"

definition destroy_task_manager :: "int \<Rightarrow> polls \<Rightarrow> 'j TaskManager \<Rightarrow>
    (string list \<times> 'j TaskManager) outcome option" where
  "destroy_task_manager now ps m = stop_all_tasks now ps m"

section \<open>Queries\<close>

definition entry_info :: "TaskEntry \<Rightarrow> TaskInfo outcome" where
  "entry_info entry =
     out_bind (deref (te_task entry)) (\<lambda>t.
       Done \<lparr>ti_id = task_id t, ti_type = task_type t, ti_description = task_description t,
             ti_state = task_state t, ti_last_error = task_last_error t,
             ti_created_at = te_created_at entry, ti_started_at = te_started_at entry,
             ti_stopped_at = te_stopped_at entry\<rparr>)"

definition get_task_info :: "string \<Rightarrow> 'j TaskManager \<Rightarrow> TaskInfo option outcome" where
  "get_task_info i m =
     (case map_of (tm_tasks m) i of
        None \<Rightarrow> Done None
      | Some entry \<Rightarrow> out_bind (entry_info entry) (\<lambda>info. Done (Some info)))"

definition list_tasks :: "'j TaskManager \<Rightarrow> TaskInfo list outcome" where
  "list_tasks m =
     out_bind (out_map (\<lambda>e. entry_info (snd e)) (tm_tasks m)) (\<lambda>infos. Done (sort_key ti_id infos))"

definition active_count :: "'j TaskManager \<Rightarrow> nat outcome" where
  "active_count m =
     out_bind (out_map (\<lambda>e. out_bind (deref (te_task (snd e))) (\<lambda>t. Done (task_state t))) (tm_tasks m))
       (\<lambda>states. Done (length (filter (\<lambda>s. s = Running \<or> s = Stopping) states)))"

definition total_count :: "'j TaskManager \<Rightarrow> nat" where
  "total_count m = length (tm_tasks m)"

definition tm_get_registry :: "'j TaskManager \<Rightarrow> 'j TaskRegistry" where
  "tm_get_registry m = tm_registry m"

section \<open>The table of tasks\<close>

text \<open>
  The keys are distinct and were issued by the counter, and every entry holds a null
  pointer: the state of every manager that only \<open>add_task\<close> has filled.
\<close>

definition tm_keys :: "'j TaskManager \<Rightarrow> bool" where
  "tm_keys m \<longleftrightarrow> keys_ok (tm_tasks m) \<and>
     (\<forall>k \<in> fst ` set (tm_tasks m). \<exists>n < next_task_id m. k = manager_task_id n)"

definition tm_null :: "'j TaskManager \<Rightarrow> bool" where
  "tm_null m \<longleftrightarrow> (\<forall>e \<in> set (tm_tasks m). te_task (snd e) = None)"

lemma manager_task_id_inject: "manager_task_id m = manager_task_id n \<longleftrightarrow> m = n"
  by (simp add: manager_task_id_def word_unat_eq_iff)

lemma manager_task_id_not_Nil: "manager_task_id n \<noteq> []"
  by (simp add: manager_task_id_def)

lemma new_task_manager_ok:
  "new_task_manager r c = Inr m \<Longrightarrow> tm_keys m \<and> tm_null m"
  by (auto simp: new_task_manager_def tm_keys_def tm_null_def split: option.splits)

lemma fresh_task_id:
  assumes "tm_keys m"
  shows "map_of (tm_tasks m) (manager_task_id (next_task_id m)) = None"
  using assms by (fastforce simp: tm_keys_def map_of_eq_None_iff manager_task_id_inject)

text \<open>\<open>add_task\<close> on every branch.\<close>

lemma move_entry_simps [simp]:
  "te_task (fst (move_entry e)) = te_task e" "te_task (snd (move_entry e)) = None"
  "fst (move_entry e) = e"
  by (simp_all add: move_entry_def)

lemma add_task_fresh:
  assumes "map_of (tm_tasks m) (manager_task_id (next_task_id m)) = None"
  shows "add_task clock thread_exn typ params m =
    (let i = manager_task_id (next_task_id m);
         r = create_task typ i params (tm_registry m) (tm_counters m);
         m1 = m\<lparr>next_task_id := next_task_id m + 1, tm_counters := snd r\<rparr>
     in if shutdown_requested m then (Inr [], m)
        else case fst r of
          Inl e \<Rightarrow> (Inl e, m1)
        | Inr None \<Rightarrow> (Inr [], m1)
        | Inr (Some t) \<Rightarrow>
            (case thread_exn of None \<Rightarrow> Inr i | Some e \<Rightarrow> Inl e,
             m1\<lparr>tm_tasks := tm_tasks m @ [(i, stamped None (snd clock))]\<rparr>))"
proof -
  let ?i = "manager_task_id (next_task_id m)"
  have "AList.update ?i v (tm_tasks m) = tm_tasks m @ [(?i, v)]"
    "AList.update ?i v (tm_tasks m @ [(?i, u)]) = tm_tasks m @ [(?i, v)]" for v u
    using update_fresh [OF assms] update_again [of ?i v u "tm_tasks m"] by simp_all
  moreover have "(stamped t n)\<lparr>te_stop := Some False\<rparr> = stamped t n"
    "(stamped t n)\<lparr>te_joinable := False\<rparr> = stamped t n" for t n
    by (simp_all add: stamped_def new_entry_def)
  ultimately show ?thesis
    using assms
    by (simp add: add_task_def Let_def move_ptr_def split: prod.split sum.split option.split)
qed

lemmas add_task_cases = add_task_fresh [OF fresh_task_id]

lemma add_task_taken:
  assumes "map_of (tm_tasks m) (manager_task_id (next_task_id m)) \<noteq> None"
  shows "tm_tasks (snd (add_task clock thread_exn typ params m)) = tm_tasks m"
  using assms by (auto simp: add_task_def Let_def move_ptr_def split: prod.split sum.split option.split)

lemma add_task_result:
  "add_task clock thread_exn typ params m = (Inr i, m') \<Longrightarrow> i = [] \<or> i = manager_task_id (next_task_id m)"
  "add_task clock thread_exn typ params m = (Inl e, m') \<Longrightarrow> thread_exn = Some e \<or>
     (\<exists>c'. create_task typ (manager_task_id (next_task_id m)) params (tm_registry m) (tm_counters m) = (Inl e, c'))"
  by (auto simp: add_task_def Let_def move_ptr_def split: if_splits prod.splits sum.splits option.splits)

lemma stamped_task [simp]: "te_task (stamped t n) = t"
  by (simp add: stamped_def)

lemma add_task_keeps:
  assumes "tm_keys m" and "next_task_id m < next_task_id m + 1"
  shows "tm_keys (snd (add_task clock thread_exn typ params m))"
    and "tm_null m \<Longrightarrow> tm_null (snd (add_task clock thread_exn typ params m))"
proof -
  have le: "n < next_task_id m \<Longrightarrow> n < next_task_id m + 1" for n
    using assms(2) less_trans by blast
  show "tm_keys (snd (add_task clock thread_exn typ params m))"
    using assms le fresh_task_id [OF assms(1)] unfolding add_task_cases [OF assms(1)]
    by (fastforce simp: tm_keys_def Let_def map_of_eq_None_iff split: sum.split option.split)
  show "tm_null m \<Longrightarrow> tm_null (snd (add_task clock thread_exn typ params m))"
    unfolding add_task_cases [OF assms(1)]
    by (auto simp: tm_null_def Let_def split: sum.split option.split)
qed

text \<open>With null entries every use of an entry is undefined.\<close>

lemma tm_null_uses:
  assumes "tm_null m"
  shows "get_task_info i m = (if map_of (tm_tasks m) i = None then Done None else Undefined)"
    and "stop_task i m = (if map_of (tm_tasks m) i = None then Done (False, m) else Undefined)"
    and "list_tasks m = (if tm_tasks m = [] then Done [] else Undefined)"
    and "active_count m = (if tm_tasks m = [] then Done 0 else Undefined)"
proof -
  have null: "te_task e = None" if "map_of (tm_tasks m) i = Some e" for e
    using that assms by (fastforce simp: tm_null_def dest: map_of_SomeD)
  show "get_task_info i m = (if map_of (tm_tasks m) i = None then Done None else Undefined)"
    "stop_task i m = (if map_of (tm_tasks m) i = None then Done (False, m) else Undefined)"
    using null by (auto simp: get_task_info_def stop_task_def entry_info_def split: option.splits)
  show "list_tasks m = (if tm_tasks m = [] then Done [] else Undefined)"
    "active_count m = (if tm_tasks m = [] then Done 0 else Undefined)"
    using assms by (cases "tm_tasks m"; simp add: list_tasks_def active_count_def tm_null_def entry_info_def)+
qed

text \<open>
  Distinct keys and null entries survive the wrap-around of the counter too: an id that is
  taken is refused.
\<close>

definition tm_safe :: "'j TaskManager \<Rightarrow> bool" where
  "tm_safe m \<longleftrightarrow> keys_ok (tm_tasks m) \<and> tm_null m"

lemma tm_safe_add:
  assumes "tm_safe m"
  shows "tm_safe (snd (add_task clock thread_exn typ params m))"
proof (cases "map_of (tm_tasks m) (manager_task_id (next_task_id m))")
  case None
  with assms show ?thesis
    unfolding add_task_fresh [OF None]
    by (auto simp: tm_safe_def tm_null_def Let_def map_of_eq_None_iff split: sum.split option.split)
next
  case (Some e)
  with assms show ?thesis by (simp add: tm_safe_def tm_null_def add_task_taken)
qed

lemma tm_safe_stop: "tm_safe m \<Longrightarrow> stop_task i m = Done (b, m') \<Longrightarrow> \<not> b \<and> m' = m"
  using tm_null_uses(2) [of m i] by (auto simp: tm_safe_def split: if_splits)

section \<open>Waiting for the tasks\<close>

text \<open>
  With a clock that does not run backwards the wait is over once every task has been polled
  twice after the deadline.
\<close>

definition late_polls :: "int \<Rightarrow> polls \<Rightarrow> nat" where
  "late_polls deadline ps = length (filter (\<lambda>p. deadline \<le> snd p) ps)"

lemma late_polls_Cons [simp]:
  "late_polls d [] = 0"
  "late_polls d (p # ps) = (if d \<le> snd p then 1 else 0) + late_polls d ps"
  by (simp_all add: late_polls_def)

lemma wait_entry_ends:
  assumes "sorted (map snd ps)" and "0 < late_polls deadline ps"
  shows "\<exists>ended ps'. wait_entry deadline ps = Some (ended, ps') \<and> sorted (map snd ps') \<and>
    late_polls deadline ps \<le> Suc (late_polls deadline ps') \<and> set ps' \<subseteq> set ps \<and>
    (\<not> ended \<longrightarrow> (\<exists>p \<in> set ps. fst p \<and> deadline \<le> snd p))"
  using assms
proof (induction deadline ps rule: wait_entry.induct)
  case (2 deadline up now ps)
  show ?case
  proof (cases "up \<and> now < deadline")
    case True
    with 2 obtain ended ps' where "wait_entry deadline ps = Some (ended, ps')" "sorted (map snd ps')"
      "late_polls deadline ps \<le> Suc (late_polls deadline ps')" "set ps' \<subseteq> set ps"
      "\<not> ended \<longrightarrow> (\<exists>p \<in> set ps. fst p \<and> deadline \<le> snd p)"
      by auto
    with True show ?thesis by auto
  next
    case False
    with "2.prems" show ?thesis by auto
  qed
qed simp

lemma wait_entries_end:
  assumes "sorted (map snd ps)" and "2 * length ids \<le> late_polls deadline ps"
  shows "\<exists>late ps'. wait_entries deadline ids ps = Some (late, ps') \<and> set late \<subseteq> set ids \<and>
    (late \<noteq> [] \<longrightarrow> (\<exists>p \<in> set ps. fst p \<and> deadline \<le> snd p))"
  using assms
proof (induction ids arbitrary: ps)
  case (Cons i ids)
  then obtain p qs where ps: "ps = p # qs" by (cases ps) auto
  show ?case
  proof (cases "fst p")
    case False
    have "2 * length ids \<le> late_polls deadline qs" using Cons.prems(2) ps by (simp split: if_splits)
    from Cons.IH [OF _ this] Cons.prems(1) ps False show ?thesis by fastforce
  next
    case True
    have "0 < late_polls deadline qs" using Cons.prems(2) ps by (simp split: if_splits)
    from wait_entry_ends [OF _ this] Cons.prems(1) ps obtain ended rs where
        rs: "wait_entry deadline qs = Some (ended, rs)" "sorted (map snd rs)"
          "late_polls deadline qs \<le> Suc (late_polls deadline rs)" "set rs \<subseteq> set qs"
          "\<not> ended \<longrightarrow> (\<exists>p \<in> set qs. fst p \<and> deadline \<le> snd p)"
      by auto
    have "2 * length ids \<le> late_polls deadline rs" using Cons.prems(2) ps rs(3) by (simp split: if_splits)
    from Cons.IH [OF rs(2) this] obtain late ps' where l: "wait_entries deadline ids rs = Some (late, ps')"
        "set late \<subseteq> set ids" "late \<noteq> [] \<longrightarrow> (\<exists>p \<in> set rs. fst p \<and> deadline \<le> snd p)"
      by blast
    with rs ps True show ?thesis by (cases ended) auto
  qed
qed simp

text \<open>
  When every entry has its task, the stop of each of them is requested once; with the wait
  for the flags \<open>stop_all_tasks\<close> then returns.
\<close>

definition tm_live :: "'j TaskManager \<Rightarrow> bool" where
  "tm_live m \<longleftrightarrow> keys_ok (tm_tasks m) \<and> (\<forall>e \<in> set (tm_tasks m). te_task (snd e) \<noteq> None)"

definition asked :: "TaskEntry \<Rightarrow> TaskEntry" where
  "asked e = e\<lparr>te_stop := map_option (\<lambda>_. True) (te_stop e), te_task := map_option task_request_stop (te_task e)\<rparr>"

lemma stop_task_at:
  assumes "tm_tasks m = xs @ (i, e) # ys" and "i \<notin> fst ` set xs" and "te_task e \<noteq> None"
  shows "stop_task i m = Done (True, m\<lparr>tm_tasks := xs @ (i, asked e) # ys\<rparr>)"
proof -
  have "map_of (tm_tasks m) i = Some e" "AList.update i v (tm_tasks m) = xs @ (i, v) # ys" for v
    using assms(1,2) by (simp_all add: map_add_def map_of_eq_None_iff [THEN iffD2] update_append)
  with assms(3) show ?thesis by (auto simp: stop_task_def asked_def Let_def)
qed

lemma stop_each_asks:
  assumes "tm_tasks m = xs @ ys" and "keys_ok (xs @ ys)" and "\<forall>e \<in> set ys. te_task (snd e) \<noteq> None"
  shows "stop_each (map fst ys) m = Done (m\<lparr>tm_tasks := xs @ map (apsnd asked) ys\<rparr>)"
  using assms
proof (induction ys arbitrary: xs m)
  case (Cons y ys)
  obtain i e where y: "y = (i, e)" by fastforce
  have "stop_task i m = Done (True, m\<lparr>tm_tasks := xs @ (i, asked e) # ys\<rparr>)"
    using Cons.prems y by (intro stop_task_at) auto
  moreover have "stop_each (map fst ys) (m\<lparr>tm_tasks := xs @ (i, asked e) # ys\<rparr>) =
      Done (m\<lparr>tm_tasks := xs @ (i, asked e) # map (apsnd asked) ys\<rparr>)"
    using Cons.IH [of "m\<lparr>tm_tasks := xs @ (i, asked e) # ys\<rparr>" "xs @ [(i, asked e)]"] Cons.prems y by simp
  ultimately show ?case using y by simp
qed simp

lemma stop_all_tasks_live:
  assumes "tm_live m"
  shows "stop_all_tasks now ps m =
    map_option (\<lambda>(late, _). Done (late, m\<lparr>shutdown_requested := True,
        tm_tasks := map (apsnd asked) (tm_tasks m)\<rparr>))
      (wait_entries (now + 10 * 10 ^ 9) (map fst (tm_tasks m)) ps)"
  using assms stop_each_asks [of "m\<lparr>shutdown_requested := True\<rparr>" "[]" "tm_tasks m"]
  by (simp add: stop_all_tasks_def tm_live_def comp_def)

lemma stop_all_tasks_null:
  assumes "tm_null m"
  shows "stop_all_tasks now ps m =
    Some (if tm_tasks m = [] then Done ([], m\<lparr>shutdown_requested := True\<rparr>) else Undefined)"
proof (cases "tm_tasks m")
  case Nil
  then show ?thesis by (simp add: stop_all_tasks_def)
next
  case (Cons e es)
  have "tm_null (m\<lparr>shutdown_requested := True\<rparr>)" using assms by (simp add: tm_null_def)
  from tm_null_uses(2) [OF this, of "fst e"] Cons show ?thesis
    by (cases e) (simp add: stop_all_tasks_def)
qed

section \<open>Listing\<close>

text \<open>
  When every entry has its task, the list has one line per entry and is sorted by the
  task's own id.
\<close>

lemma list_tasks_Done:
  assumes "list_tasks m = Done infos"
  shows "sorted (map ti_id infos)" and "length infos = total_count m"
    and "mset (map ti_id infos) = mset (map (\<lambda>e. task_id (the (te_task (snd e)))) (tm_tasks m))"
proof -
  from assms obtain ys where l: "list_all2 (\<lambda>e y. entry_info (snd e) = Done y) (tm_tasks m) ys"
      and s: "infos = sort_key ti_id ys"
    by (auto simp: list_tasks_def out_bind_Done_iff out_map_Done_iff)
  from s show "sorted (map ti_id infos)" by simp
  from l s show "length infos = total_count m"
    by (simp add: total_count_def list_all2_lengthD)
  have "map ti_id ys = map (\<lambda>e. task_id (the (te_task (snd e)))) (tm_tasks m)"
    using l by (induction rule: list_all2_induct) (auto simp: entry_info_def out_bind_Done_iff)
  then show "mset (map ti_id infos) = mset (map (\<lambda>e. task_id (the (te_task (snd e)))) (tm_tasks m))"
    using s by (metis mset_map mset_sort)
qed

lemma list_tasks_entry:
  assumes "list_tasks m = Done infos" and "i \<in> set infos"
  shows "\<exists>e \<in> set (tm_tasks m). entry_info (snd e) = Done i"
proof -
  from assms(1) obtain ys where l: "list_all2 (\<lambda>e y. entry_info (snd e) = Done y) (tm_tasks m) ys"
      and "infos = sort_key ti_id ys"
    by (auto simp: list_tasks_def out_bind_Done_iff out_map_Done_iff)
  with assms(2) have "i \<in> set ys" by simp
  with l show ?thesis by (induction rule: list_all2_induct) auto
qed

lemma active_count_le: "active_count m = Done n \<Longrightarrow> n \<le> total_count m"
  by (auto simp: active_count_def total_count_def out_bind_Done_iff out_map_Done_iff
      dest!: list_all2_lengthD intro: le_trans [OF length_filter_le])

section \<open>The thread of an entry\<close>

text \<open>The worker rounds keep the contract of the task.\<close>

lemma rounds_calls: "it.call\<^sup>*\<^sup>* t (fold (\<lambda>r. task_step (fst r) (snd r)) rounds t)"
proof (induction rounds rule: rev_induct)
  case Nil
  show ?case by simp
next
  case (snoc r rounds)
  then show ?case by (auto intro: rtranclp.rtrancl_into_rtrancl it.worked)
qed

end
