(* ===== verification/Json_Protocol.thy ===== *)
theory Json_Protocol
  imports Json_Api
begin

text \<open>
  The message layer of \<open>src/ipc/json_protocol.cpp\<close> and its header: error codes, the
  message structs with their \<open>to_json\<close> and \<open>from_json\<close>, over the JSON interface \<open>J\<close>.
  \<open>std::nullopt\<close> is \<^const>\<open>None\<close>; an exception that leaves a function is \<^const>\<open>Inl\<close>.
\<close>

section \<open>Error codes\<close>

text \<open>
  \<open>enum class ProtocolErrorCode : int32_t\<close> has a fixed underlying type, so a
  \<open>static_cast\<close> stores any 32-bit value in it.
\<close>

type_synonym ProtocolErrorCode = int32

definition ParseError :: ProtocolErrorCode where "ParseError = - 32700"
definition InvalidRequest :: ProtocolErrorCode where "InvalidRequest = - 32600"
definition MethodNotFound :: ProtocolErrorCode where "MethodNotFound = - 32601"
definition InvalidParams :: ProtocolErrorCode where "InvalidParams = - 32602"
definition InternalError :: ProtocolErrorCode where "InternalError = - 32603"
definition ServerBusy :: ProtocolErrorCode where "ServerBusy = - 32000"
definition Timeout :: ProtocolErrorCode where "Timeout = - 32001"
definition NotFound :: ProtocolErrorCode where "NotFound = - 32002"
definition Unauthorized :: ProtocolErrorCode where "Unauthorized = - 32003"
definition Forbidden :: ProtocolErrorCode where "Forbidden = - 32004"

lemmas error_code_defs =
  ParseError_def InvalidRequest_def MethodNotFound_def InvalidParams_def InternalError_def
  ServerBusy_def Timeout_def NotFound_def Unauthorized_def Forbidden_def

definition protocol_error_code_to_string :: "ProtocolErrorCode \<Rightarrow> string" where
  "protocol_error_code_to_string c =
     (if c = ParseError then ''Parse error''
      else if c = InvalidRequest then ''Invalid Request''
      else if c = MethodNotFound then ''Method not found''
      else if c = InvalidParams then ''Invalid params''
      else if c = InternalError then ''Internal error''
      else if c = ServerBusy then ''Server busy''
      else if c = Timeout then ''Timeout''
      else if c = NotFound then ''Not found''
      else if c = Unauthorized then ''Unauthorized''
      else if c = Forbidden then ''Forbidden''
      else ''Unknown error'')"

section \<open>Messages\<close>

record 'j ProtocolError =
  pe_code :: ProtocolErrorCode
  pe_message :: string
  pe_data :: "'j option"

record 'j RequestMessage =
  rq_id :: "int64 option"
  rq_method :: string
  rq_params :: 'j

record 'j ResponseMessage =
  rs_id :: "int64 option"
  rs_result :: 'j

record 'j ErrorResponseMessage =
  er_id :: "int64 option"
  er_error :: "'j ProtocolError"

record 'j JsonMessage =
  jm_id :: "int64 option"
  jm_method :: "string option"
  jm_params :: "'j option"
  jm_result :: "'j option"
  jm_error :: "'j ProtocolError option"

definition empty_message :: "'j JsonMessage" where
  "empty_message =
     \<lparr>jm_id = None, jm_method = None, jm_params = None, jm_result = None, jm_error = None\<rparr>"

definition is_request :: "'j JsonMessage \<Rightarrow> bool" where
  "is_request m \<longleftrightarrow> jm_method m \<noteq> None"

definition is_response :: "'j JsonMessage \<Rightarrow> bool" where
  "is_response m \<longleftrightarrow> jm_result m \<noteq> None \<or> jm_error m \<noteq> None"

definition is_notification :: "'j JsonMessage \<Rightarrow> bool" where
  "is_notification m \<longleftrightarrow> jm_id m = None \<and> jm_method m \<noteq> None"

definition is_error_response :: "'j JsonMessage \<Rightarrow> bool" where
  "is_error_response m \<longleftrightarrow> jm_error m \<noteq> None"

section \<open>\<open>to_json\<close>\<close>

text \<open>\<open>if (x.has_value()) j[k] = x.value();\<close>\<close>

definition set_opt :: "'j json_api \<Rightarrow> string \<Rightarrow> 'j option \<Rightarrow> 'j \<Rightarrow> 'j" where
  "set_opt J k x j = (case x of Some v \<Rightarrow> j_set J j k v | None \<Rightarrow> j)"

abbreviation id_json :: "'j json_api \<Rightarrow> int64 option \<Rightarrow> 'j option" where
  "id_json J i \<equiv> map_option (\<lambda>w. j_int J (sint w)) i"

definition ProtocolError_to_json :: "'j json_api \<Rightarrow> 'j ProtocolError \<Rightarrow> 'j" where
  "ProtocolError_to_json J e =
     set_opt J ''data'' (pe_data e)
       (j_object J [(''code'', j_int J (sint (pe_code e))),
                    (''message'', j_string J (pe_message e))])"

definition RequestMessage_to_json :: "'j json_api \<Rightarrow> 'j RequestMessage \<Rightarrow> 'j" where
  "RequestMessage_to_json J m =
     set_opt J ''id'' (id_json J (rq_id m))
       (j_object J [(''method'', j_string J (rq_method m)), (''params'', rq_params m)])"

definition ResponseMessage_to_json :: "'j json_api \<Rightarrow> 'j ResponseMessage \<Rightarrow> 'j" where
  "ResponseMessage_to_json J m =
     set_opt J ''id'' (id_json J (rs_id m)) (j_object J [(''result'', rs_result m)])"

definition ErrorResponseMessage_to_json :: "'j json_api \<Rightarrow> 'j ErrorResponseMessage \<Rightarrow> 'j" where
  "ErrorResponseMessage_to_json J m =
     set_opt J ''id'' (id_json J (er_id m))
       (j_object J [(''error'', ProtocolError_to_json J (er_error m))])"

definition JsonMessage_to_json :: "'j json_api \<Rightarrow> 'j JsonMessage \<Rightarrow> 'j" where
  "JsonMessage_to_json J m =
     set_opt J ''error'' (map_option (ProtocolError_to_json J) (jm_error m))
    (set_opt J ''result'' (jm_result m)
    (set_opt J ''params'' (jm_params m)
    (set_opt J ''method'' (map_option (j_string J) (jm_method m))
    (set_opt J ''id'' (id_json J (jm_id m)) (j_null J)))))"

section \<open>\<open>from_json\<close>\<close>

definition get_opt :: "'j json_api \<Rightarrow> string \<Rightarrow> 'j \<Rightarrow> 'j option" where
  "get_opt J k j = (if j_contains J j k then Some (j_at J j k) else None)"

definition ProtocolError_from_json :: "'j json_api \<Rightarrow> 'j \<Rightarrow> 'j ProtocolError res" where
  "ProtocolError_from_json J j =
     res_bind (j_value_int J j ''code'' (- 32603)) (\<lambda>c.
     res_bind (j_value_string J j ''message'' ''Unknown error'') (\<lambda>m.
     Inr \<lparr>pe_code = c, pe_message = m, pe_data = get_opt J ''data'' j\<rparr>))"

text \<open>
  The block that reads \<open>"id"\<close>, the same in every \<open>from_json\<close>: an integer is taken,
  \<open>null\<close> counts as absent, anything else rejects the message (\<open>None\<close>).
\<close>

definition id_field :: "'j json_api \<Rightarrow> 'j \<Rightarrow> int64 option option res" where
  "id_field J j =
     (if j_contains J j ''id'' then
        (if j_is_number_integer J (j_at J j ''id'') then
           res_bind (j_get_int64 J (j_at J j ''id'')) (\<lambda>i. Inr (Some (Some i)))
         else if \<not> j_is_null J (j_at J j ''id'') then Inr None
         else Inr (Some None))
      else Inr (Some None))"

definition RequestMessage_from_json :: "'j json_api \<Rightarrow> 'j \<Rightarrow> 'j RequestMessage option res" where
  "RequestMessage_from_json J j =
     (if \<not> j_is_object J j then Inr None
      else if \<not> j_contains J j ''method'' \<or> \<not> j_is_string J (j_at J j ''method'') then Inr None
      else
        res_bind (j_get_string J (j_at J j ''method'')) (\<lambda>meth.
        res_bind (id_field J j) (\<lambda>oi.
        case oi of
          None \<Rightarrow> Inr None
        | Some i \<Rightarrow>
            Inr (Some \<lparr>rq_id = i, rq_method = meth,
                       rq_params = (if j_contains J j ''params'' then j_at J j ''params''
                                    else j_object J [])\<rparr>))))"

definition ResponseMessage_from_json :: "'j json_api \<Rightarrow> 'j \<Rightarrow> 'j ResponseMessage option res" where
  "ResponseMessage_from_json J j =
     (if \<not> j_is_object J j then Inr None
      else if \<not> j_contains J j ''result'' then Inr None
      else
        res_bind (id_field J j) (\<lambda>oi.
        case oi of
          None \<Rightarrow> Inr None
        | Some i \<Rightarrow> Inr (Some \<lparr>rs_id = i, rs_result = j_at J j ''result''\<rparr>)))"

definition ErrorResponseMessage_from_json ::
    "'j json_api \<Rightarrow> 'j \<Rightarrow> 'j ErrorResponseMessage option res" where
  "ErrorResponseMessage_from_json J j =
     (if \<not> j_is_object J j then Inr None
      else if \<not> j_contains J j ''error'' \<or> \<not> j_is_object J (j_at J j ''error'') then Inr None
      else
        res_bind (ProtocolError_from_json J (j_at J j ''error'')) (\<lambda>e.
        res_bind (id_field J j) (\<lambda>oi.
        case oi of
          None \<Rightarrow> Inr None
        | Some i \<Rightarrow> Inr (Some \<lparr>er_id = i, er_error = e\<rparr>))))"

text \<open>
  The optional \<open>"method"\<close> and \<open>"error"\<close> members of \<open>JsonMessage::from_json\<close>; the outer
  \<^const>\<open>None\<close> is the \<open>return std::nullopt\<close> for a member of the wrong type.
\<close>

definition method_field :: "'j json_api \<Rightarrow> 'j \<Rightarrow> string option option res" where
  "method_field J j =
     (if j_contains J j ''method'' then
        (if \<not> j_is_string J (j_at J j ''method'') then Inr None
         else res_bind (j_get_string J (j_at J j ''method'')) (\<lambda>s. Inr (Some (Some s))))
      else Inr (Some None))"

definition error_field :: "'j json_api \<Rightarrow> 'j \<Rightarrow> 'j ProtocolError option option res" where
  "error_field J j =
     (if j_contains J j ''error'' then
        (if \<not> j_is_object J (j_at J j ''error'') then Inr None
         else res_bind (ProtocolError_from_json J (j_at J j ''error'')) (\<lambda>e. Inr (Some (Some e))))
      else Inr (Some None))"

definition JsonMessage_from_json :: "'j json_api \<Rightarrow> 'j \<Rightarrow> 'j JsonMessage option res" where
  "JsonMessage_from_json J j =
     (if \<not> j_is_object J j then Inr None
      else
        res_bind (id_field J j) (\<lambda>oi. case oi of None \<Rightarrow> Inr None | Some i \<Rightarrow>
        res_bind (method_field J j) (\<lambda>om. case om of None \<Rightarrow> Inr None | Some meth \<Rightarrow>
        res_bind (error_field J j) (\<lambda>oe. case oe of None \<Rightarrow> Inr None | Some err \<Rightarrow>
          let msg = \<lparr>jm_id = i, jm_method = meth, jm_params = get_opt J ''params'' j,
                     jm_result = get_opt J ''result'' j, jm_error = err\<rparr>;
              has_method = (jm_method msg \<noteq> None);
              has_result = (jm_result msg \<noteq> None);
              has_error = (jm_error msg \<noteq> None)
          in if has_method \<and> (has_result \<or> has_error) then Inr None
             else if \<not> has_method \<and> \<not> has_result \<and> \<not> has_error then Inr None
             else Inr (Some msg)))))"

section \<open>Well-formed messages\<close>

text \<open>
  The condition at the end of \<open>JsonMessage::from_json\<close>: a request or a response, and not
  both. \<open>to_request\<close> is the conversion that \<open>Session::try_parse_messages\<close> applies to a
  message with a method.
\<close>

definition wf_message :: "'j JsonMessage \<Rightarrow> bool" where
  "wf_message m \<longleftrightarrow> is_request m \<noteq> is_response m"

definition to_request :: "'j json_api \<Rightarrow> 'j JsonMessage \<Rightarrow> 'j RequestMessage" where
  "to_request J m =
     \<lparr>rq_id = jm_id m,
      rq_method = (case jm_method m of Some s \<Rightarrow> s | None \<Rightarrow> []),
      rq_params = (case jm_params m of Some p \<Rightarrow> p | None \<Rightarrow> j_object J [])\<rparr>"

text \<open>The values that \<open>j[k] = v\<close> accepts.\<close>

definition settable :: "'j json_api \<Rightarrow> 'j \<Rightarrow> bool" where
  "settable J j \<longleftrightarrow> j_is_object J j \<or> j_is_null J j"

lemmas message_kind_defs = wf_message_def is_request_def is_response_def

lemma JsonMessage_from_json_cases:
  assumes "JsonMessage_from_json J j = Inr (Some m)"
  shows "j_is_object J j" (is ?obj)
    and "id_field J j = Inr (Some (jm_id m))" (is ?id)
    and "method_field J j = Inr (Some (jm_method m))" (is ?meth)
    and "error_field J j = Inr (Some (jm_error m))" (is ?err)
    and "jm_params m = get_opt J ''params'' j" (is ?par)
    and "jm_result m = get_opt J ''result'' j" (is ?res)
    and "wf_message m" (is ?wf)
proof -
  have obj: ?obj
    using assms by (cases "j_is_object J j") (simp_all add: JsonMessage_from_json_def)
  from assms obj obtain i meth err where
      fields: "id_field J j = Inr (Some i)" "method_field J j = Inr (Some meth)"
        "error_field J j = Inr (Some err)"
      and m: "m = \<lparr>jm_id = i, jm_method = meth, jm_params = get_opt J ''params'' j,
        jm_result = get_opt J ''result'' j, jm_error = err\<rparr>"
      and wf: "wf_message m"
    unfolding JsonMessage_from_json_def
    by (force simp: res_bind_opt_Some Let_def message_kind_defs simp del: not_None_eq
        split: if_split_asm)
  show ?obj ?id ?meth ?err ?par ?res ?wf
    using obj fields wf by (simp_all add: m)
qed

lemma JsonMessage_from_json_intro:
  assumes "j_is_object J j"
    and "id_field J j = Inr (Some (jm_id m))"
    and "method_field J j = Inr (Some (jm_method m))"
    and "error_field J j = Inr (Some (jm_error m))"
    and "jm_params m = get_opt J ''params'' j"
    and "jm_result m = get_opt J ''result'' j"
  shows "JsonMessage_from_json J j = Inr (if wf_message m then Some m else None)"
  using assms
  by (cases m) (simp add: JsonMessage_from_json_def Let_def message_kind_defs del: not_None_eq)

context json_build
begin

text \<open>Reading back the members that \<open>set_opt\<close> stored one after the other.\<close>

lemma settable_simps:
  "settable J (j_null J)"
  "settable J (j_object J ps)"
  "settable J j \<Longrightarrow> settable J (set_opt J k x j)"
  by (auto simp: settable_def set_opt_def build_simps split: option.splits)

lemma set_opt_is_object:
  "settable J j \<Longrightarrow> j_is_object J (set_opt J k x j) \<longleftrightarrow> x \<noteq> None \<or> j_is_object J j"
  by (auto simp: settable_def set_opt_def build_simps split: option.splits)

lemma get_opt_set_opt:
  "settable J j \<Longrightarrow>
     get_opt J k' (set_opt J k x j) = (if k' = k \<and> x \<noteq> None then x else get_opt J k' j)"
  by (auto simp: settable_def set_opt_def get_opt_def build_simps split: option.splits)

lemma get_opt_null: "get_opt J k (j_null J) = None"
  by (simp add: get_opt_def null_contains_nothing)

lemma get_opt_object:
  "distinct (map fst ps) \<Longrightarrow> get_opt J k (j_object J ps) = map_of ps k"
proof (cases "map_of ps k")
  case None
  then have "k \<notin> fst ` set ps" by (simp add: map_of_eq_None_iff)
  with None show ?thesis by (simp add: get_opt_def build_simps)
next
  case (Some v)
  then have "k \<in> fst ` set ps" by (force dest: map_of_SomeD)
  moreover assume "distinct (map fst ps)"
  ultimately show ?thesis using Some by (simp add: get_opt_def build_simps at_object_map_of)
qed

lemmas get_opt_simps =
  get_opt_set_opt settable_simps set_opt_is_object get_opt_null get_opt_object
  is_object_object is_null_null

lemma get_opt_contains: "j_contains J j k \<longleftrightarrow> get_opt J k j \<noteq> None"
  by (simp add: get_opt_def)

lemma get_opt_at: "get_opt J k j = Some v \<Longrightarrow> j_at J j k = v"
  by (simp add: get_opt_def split: if_splits)

text \<open>The members are recovered by the readers of \<open>from_json\<close>.\<close>

lemma id_field_of:
  assumes "get_opt J ''id'' j = id_json J i"
  shows "id_field J j = Inr (Some i)"
proof (cases i)
  case None
  with assms show ?thesis by (simp add: id_field_def get_opt_contains)
next
  case (Some w)
  with assms have "j_at J j ''id'' = j_int J (sint w)" by (simp add: get_opt_at)
  with Some assms show ?thesis
    by (simp add: id_field_def get_opt_contains is_integer_int get_int64_sint)
qed

lemma method_field_of:
  assumes "get_opt J ''method'' j = map_option (j_string J) s"
  shows "method_field J j = Inr (Some s)"
proof (cases s)
  case None
  with assms show ?thesis by (simp add: method_field_def get_opt_contains)
next
  case (Some t)
  with assms have "j_at J j ''method'' = j_string J t" by (simp add: get_opt_at)
  with Some assms show ?thesis
    by (simp add: method_field_def get_opt_contains build_simps)
qed

lemma ProtocolError_members:
  "get_opt J ''code'' (ProtocolError_to_json J e) = Some (j_int J (sint (pe_code e)))"
  "get_opt J ''message'' (ProtocolError_to_json J e) = Some (j_string J (pe_message e))"
  "get_opt J ''data'' (ProtocolError_to_json J e) = pe_data e"
  "j_is_object J (ProtocolError_to_json J e)"
  by (auto simp: ProtocolError_to_json_def get_opt_simps)

lemma ProtocolError_roundtrip: "ProtocolError_from_json J (ProtocolError_to_json J e) = Inr e"
  using ProtocolError_members [of e]
  by (simp add: ProtocolError_from_json_def value_int value_string get_opt_contains get_opt_at
      get_int_sint get_string_string)

lemma error_field_of:
  assumes "get_opt J ''error'' j = map_option (ProtocolError_to_json J) e"
  shows "error_field J j = Inr (Some e)"
proof (cases e)
  case None
  with assms show ?thesis by (simp add: error_field_def get_opt_contains)
next
  case (Some x)
  with assms have "j_at J j ''error'' = ProtocolError_to_json J x" by (simp add: get_opt_at)
  with Some assms show ?thesis
    by (simp add: error_field_def get_opt_contains ProtocolError_members(4) ProtocolError_roundtrip)
qed

lemma JsonMessage_members:
  "get_opt J ''id'' (JsonMessage_to_json J m) = id_json J (jm_id m)"
  "get_opt J ''method'' (JsonMessage_to_json J m) = map_option (j_string J) (jm_method m)"
  "get_opt J ''params'' (JsonMessage_to_json J m) = jm_params m"
  "get_opt J ''result'' (JsonMessage_to_json J m) = jm_result m"
  "get_opt J ''error'' (JsonMessage_to_json J m) = map_option (ProtocolError_to_json J) (jm_error m)"
  by (auto simp: JsonMessage_to_json_def get_opt_simps)

lemma JsonMessage_is_object:
  "wf_message m \<Longrightarrow> j_is_object J (JsonMessage_to_json J m)"
  by (auto simp: JsonMessage_to_json_def get_opt_simps message_kind_defs)

lemma JsonMessage_roundtrip:
  "JsonMessage_from_json J (JsonMessage_to_json J m) = Inr (if wf_message m then Some m else None)"
proof (cases "j_is_object J (JsonMessage_to_json J m)")
  case True
  then show ?thesis
    by (intro JsonMessage_from_json_intro id_field_of method_field_of error_field_of)
      (simp_all add: JsonMessage_members)
next
  case False
  with JsonMessage_is_object have "\<not> wf_message m" by blast
  with False show ?thesis by (simp add: JsonMessage_from_json_def)
qed

lemma RequestMessage_roundtrip:
  "RequestMessage_from_json J (RequestMessage_to_json J r) = Inr (Some r)"
proof -
  let ?j = "RequestMessage_to_json J r"
  have mem: "get_opt J ''id'' ?j = id_json J (rq_id r)"
    "get_opt J ''method'' ?j = Some (j_string J (rq_method r))"
    "get_opt J ''params'' ?j = Some (rq_params r)" "j_is_object J ?j"
    by (auto simp: RequestMessage_to_json_def get_opt_simps)
  then show ?thesis
    by (simp add: RequestMessage_from_json_def get_opt_contains get_opt_at id_field_of build_simps)
qed

lemma ResponseMessage_roundtrip:
  "ResponseMessage_from_json J (ResponseMessage_to_json J r) = Inr (Some r)"
proof -
  let ?j = "ResponseMessage_to_json J r"
  have mem: "get_opt J ''id'' ?j = id_json J (rs_id r)"
    "get_opt J ''result'' ?j = Some (rs_result r)" "j_is_object J ?j"
    by (auto simp: ResponseMessage_to_json_def get_opt_simps)
  then show ?thesis
    by (simp add: ResponseMessage_from_json_def get_opt_contains get_opt_at id_field_of)
qed

lemma ErrorResponseMessage_roundtrip:
  "ErrorResponseMessage_from_json J (ErrorResponseMessage_to_json J r) = Inr (Some r)"
proof -
  let ?j = "ErrorResponseMessage_to_json J r"
  have mem: "get_opt J ''id'' ?j = id_json J (er_id r)"
    "get_opt J ''error'' ?j = Some (ProtocolError_to_json J (er_error r))" "j_is_object J ?j"
    by (auto simp: ErrorResponseMessage_to_json_def get_opt_simps)
  then show ?thesis
    by (simp add: ErrorResponseMessage_from_json_def get_opt_contains get_opt_at id_field_of
        ProtocolError_members(4) ProtocolError_roundtrip)
qed

end

section \<open>The two readers of a request agree\<close>

lemma method_field_Some:
  "method_field J j = Inr (Some (Some s)) \<longleftrightarrow>
     j_contains J j ''method'' \<and> j_is_string J (j_at J j ''method'') \<and>
     j_get_string J (j_at J j ''method'') = Inr s"
  by (auto simp: method_field_def res_bind_Inr_iff)

lemma request_readers_agree:
  assumes "JsonMessage_from_json J j = Inr (Some m)" and "is_request m"
  shows "RequestMessage_from_json J j = Inr (Some (to_request J m))"
proof -
  note fields = JsonMessage_from_json_cases [OF assms(1)]
  obtain s where s: "jm_method m = Some s" using assms(2) by (auto simp: is_request_def)
  then show ?thesis
    using fields(1-3,5) s
    by (simp add: RequestMessage_from_json_def method_field_Some to_request_def get_opt_def)
qed

context json_kinds
begin

text \<open>The only exception that can leave \<open>JsonMessage::from_json\<close> comes from an \<open>"error"\<close>
  object with a member of the wrong type.\<close>

lemma id_field_no_throw: "\<exists>r. id_field J j = Inr r"
  using get_int64_ok [of "j_at J j ''id''"] by (auto simp: id_field_def)

lemma method_field_no_throw: "\<exists>r. method_field J j = Inr r"
  using get_string_ok [of "j_at J j ''method''"] by (auto simp: method_field_def)

lemma from_json_throw:
  assumes "JsonMessage_from_json J j = Inl e"
  shows "j_contains J j ''error''"
    and "ProtocolError_from_json J (j_at J j ''error'') = Inl e"
proof -
  obtain oi om where "id_field J j = Inr oi" "method_field J j = Inr om"
    using id_field_no_throw method_field_no_throw by blast
  with assms have "error_field J j = Inl e"
    by (auto simp: JsonMessage_from_json_def Let_def res_bind_Inl_iff simp del: not_None_eq
        split: if_split_asm option.split_asm)
  then show "j_contains J j ''error''" "ProtocolError_from_json J (j_at J j ''error'') = Inl e"
    by (auto simp: error_field_def res_bind_Inl_iff split: if_split_asm)
qed

lemma request_from_json_no_throw: "\<exists>r. RequestMessage_from_json J j = Inr r"
proof -
  obtain oi where "id_field J j = Inr oi" using id_field_no_throw by blast
  then show ?thesis
    using get_string_ok [of "j_at J j ''method''"]
    by (cases oi) (auto simp: RequestMessage_from_json_def)
qed

end

end
