(* ===== verification/Commands.thy ===== *)
theory Commands
  imports Task_Manager Json_Protocol
begin

text \<open>
  The commands of \<open>src/commands\<close> behind \<open>ICommand\<close>, and \<open>CommandRegistry\<close> of
  \<open>src/core/command_registry.cpp\<close>.
\<close>

section \<open>Results\<close>

record 'j CommandResult =
  cr_success :: bool
  cr_error_code :: int32
  cr_message :: string
  cr_data :: 'j

definition cr_ok :: "'j \<Rightarrow> 'j CommandResult" where
  "cr_ok data = \<lparr>cr_success = True, cr_error_code = 0, cr_message = ''OK'', cr_data = data\<rparr>"

definition cr_err :: "'j json_api \<Rightarrow> int32 \<Rightarrow> string \<Rightarrow> 'j CommandResult" where
  "cr_err J code msg =
     \<lparr>cr_success = False, cr_error_code = code, cr_message = msg, cr_data = j_object J []\<rparr>"

section \<open>The commands\<close>

text \<open>
  What a call of a command takes from its surroundings: \<open>std::time(nullptr)\<close>, the readings of
  the steady clock, and the exception of a failing \<open>std::thread\<close> constructor.
\<close>

record call_env =
  call_time :: int
  call_clock :: "int \<times> int"
  call_thread_exn :: "exn option"

datatype ICommand =
  PingCommand | StatusCommand | ShutdownCommand | CommandsListCommand
  | TasksListCommand | TasksAddCommand | TasksStopCommand

text \<open>\<open>name()\<close> and \<open>description()\<close> of every class, and the virtual calls.\<close>

definition ping_name :: string where
  [simp]: "ping_name = ''ping''"

definition status_name :: string where
  [simp]: "status_name = ''status''"

definition shutdown_name :: string where
  [simp]: "shutdown_name = ''shutdown''"

definition commands_list_name :: string where
  [simp]: "commands_list_name = ''commands.list''"

definition tasks_list_name :: string where
  [simp]: "tasks_list_name = ''tasks.list''"

definition tasks_add_name :: string where
  [simp]: "tasks_add_name = ''tasks.add''"

definition tasks_stop_name :: string where
  [simp]: "tasks_stop_name = ''tasks.stop''"

definition ping_description :: string where
  "ping_description = ''Simple ping command to check connectivity''"

definition status_description :: string where
  "status_description = ''Get daemon status information''"

definition shutdown_description :: string where
  "shutdown_description = ''Gracefully shutdown the daemon''"

definition commands_list_description :: string where
  "commands_list_description = ''List all available commands''"

definition tasks_list_description :: string where
  "tasks_list_description = ''List all tasks''"

definition tasks_add_description :: string where
  "tasks_add_description = ''Add a new task''"

definition tasks_stop_description :: string where
  "tasks_stop_description = ''Stop a task''"

fun command_name :: "ICommand \<Rightarrow> string" where
  "command_name PingCommand = ping_name"
| "command_name StatusCommand = status_name"
| "command_name ShutdownCommand = shutdown_name"
| "command_name CommandsListCommand = commands_list_name"
| "command_name TasksListCommand = tasks_list_name"
| "command_name TasksAddCommand = tasks_add_name"
| "command_name TasksStopCommand = tasks_stop_name"

fun command_description :: "ICommand \<Rightarrow> string" where
  "command_description PingCommand = ping_description"
| "command_description StatusCommand = status_description"
| "command_description ShutdownCommand = shutdown_description"
| "command_description CommandsListCommand = commands_list_description"
| "command_description TasksListCommand = tasks_list_description"
| "command_description TasksAddCommand = tasks_add_description"
| "command_description TasksStopCommand = tasks_stop_description"

definition ping_execute :: "'j json_api \<Rightarrow> int \<Rightarrow> 'j CommandResult" where
  "ping_execute J time =
     cr_ok (j_object J [(''message'', j_string J ''pong''), (''timestamp'', j_int J time)])"

definition shutdown_execute :: "'j json_api \<Rightarrow> 'j CommandResult" where
  "shutdown_execute J = cr_ok (j_object J [(''status'', j_string J ''shutdown_initiated'')])"

definition command_line :: "'j json_api \<Rightarrow> string \<Rightarrow> string \<Rightarrow> 'j" where
  "command_line J name description =
     j_object J [(''name'', j_string J name), (''description'', j_string J description)]"

definition commands_list_execute :: "'j json_api \<Rightarrow> 'j CommandResult" where
  "commands_list_execute J =
     cr_ok (j_object J [(''commands'', j_array J
       [command_line J ''ping'' ''Simple ping command'',
        command_line J ''shutdown'' ''Gracefully shutdown the daemon'',
        command_line J ''commands.list'' ''List all available commands''])])"

text \<open>\<open>context.task_manager\<close> may be null.\<close>

definition status_execute :: "'j json_api \<Rightarrow> 'j TaskManager option \<Rightarrow> 'j CommandResult outcome" where
  "status_execute J task_manager =
     (let result = j_object J [(''version'', j_string J ''0.1.0''), (''status'', j_string J ''running'')] in
      case task_manager of
        Some m \<Rightarrow>
          out_bind (active_count m) (\<lambda>n. Done (cr_ok (j_set J result ''active_tasks'' (j_int J (int n)))))
      | None \<Rightarrow> Done (cr_ok (j_set J result ''active_tasks'' (j_int J 0))))"

definition tasks_add_execute :: "'j json_api \<Rightarrow> call_env \<Rightarrow> 'j \<Rightarrow> 'j TaskManager \<Rightarrow>
    'j CommandResult res \<times> 'j TaskManager" where
  "tasks_add_execute J env params m =
     (if \<not> j_contains J params ''type'' then
        (Inr (cr_err J (- 32602) ''Missing required parameter: type''), m)
      else
        case j_get_string J (j_at J params ''type'') of
          Inl e \<Rightarrow> (Inl e, m)
        | Inr typ \<Rightarrow>
            (case add_task (call_clock env) (call_thread_exn env) typ params m of
               (Inl e, m1) \<Rightarrow> (Inl e, m1)
             | (Inr i, m1) \<Rightarrow>
                 if i = [] then
                   (Inr (cr_err J (- 32000) ''Failed to add task: unknown type or invalid params''), m1)
                 else
                   (Inr (cr_ok (j_object J [(''id'', j_string J i), (''type'', j_string J typ),
                                            (''status'', j_string J ''started'')])), m1)))"

definition state_word :: "TaskState \<Rightarrow> string" where
  "state_word s =
     (if s = Running then ''running''
      else if s = Stopped then ''stopped''
      else if s = Stopping then ''stopping''
      else if s = Failed then ''failed'' else ''pending'')"

definition task_line :: "'j json_api \<Rightarrow> TaskInfo \<Rightarrow> 'j" where
  "task_line J t =
     j_object J [(''id'', j_string J (ti_id t)), (''type'', j_string J (ti_type t)),
                 (''state'', j_string J (state_word (ti_state t)))]"

text \<open>\<open>static_cast<int>\<close> of the size.\<close>

definition tasks_list_execute :: "'j json_api \<Rightarrow> 'j TaskManager \<Rightarrow> 'j CommandResult outcome" where
  "tasks_list_execute J m =
     out_bind (list_tasks m) (\<lambda>infos.
       Done (cr_ok (j_object J
         [(''tasks'', j_array J (map (task_line J) infos)),
          (''count'', j_int J (sint (word_of_nat (length infos) :: int32)))])))"

definition tasks_stop_execute :: "'j json_api \<Rightarrow> 'j \<Rightarrow> 'j TaskManager \<Rightarrow>
    ('j CommandResult res \<times> 'j TaskManager) outcome" where
  "tasks_stop_execute J params m =
     (if \<not> j_contains J params ''id'' then
        Done (Inr (cr_err J (- 32602) ''Missing required parameter: id''), m)
      else
        case j_get_string J (j_at J params ''id'') of
          Inl e \<Rightarrow> Done (Inl e, m)
        | Inr i \<Rightarrow>
            out_bind (stop_task i m) (\<lambda>r.
              case r of
                (False, m1) \<Rightarrow>
                  Done (Inr (cr_err J (- 32001) (''Task not found or already stopped: '' @ i)), m1)
              | (True, m1) \<Rightarrow>
                  Done (Inr (cr_ok (j_object J [(''id'', j_string J i),
                                                (''status'', j_string J ''stopping'')])), m1)))"

text \<open>
  Virtual dispatch. The task commands hold a reference to the manager that the context
  carries too.
\<close>

definition execute :: "'j json_api \<Rightarrow> call_env \<Rightarrow> ICommand \<Rightarrow> 'j \<Rightarrow> 'j TaskManager \<Rightarrow>
    ('j CommandResult res \<times> 'j TaskManager) outcome" where
  "execute J env cmd params m =
     (case cmd of
        PingCommand \<Rightarrow> Done (Inr (ping_execute J (call_time env)), m)
      | StatusCommand \<Rightarrow> out_bind (status_execute J (Some m)) (\<lambda>r. Done (Inr r, m))
      | ShutdownCommand \<Rightarrow> Done (Inr (shutdown_execute J), m)
      | CommandsListCommand \<Rightarrow> Done (Inr (commands_list_execute J), m)
      | TasksListCommand \<Rightarrow> out_bind (tasks_list_execute J m) (\<lambda>r. Done (Inr r, m))
      | TasksAddCommand \<Rightarrow> Done (tasks_add_execute J env params m)
      | TasksStopCommand \<Rightarrow> tasks_stop_execute J params m)"

section \<open>\<open>CommandRegistry\<close>\<close>

record CommandRegistry =
  commands :: "(string, ICommand) umap"

definition new_command_registry :: CommandRegistry where
  "new_command_registry = \<lparr>commands = []\<rparr>"

definition register_command :: "ICommand option \<Rightarrow> CommandRegistry \<Rightarrow> CommandRegistry res" where
  "register_command cmd r =
     (case cmd of
        None \<Rightarrow> Inl (Invalid_argument ''Cannot register null command'')
      | Some c \<Rightarrow> Inr (r\<lparr>commands := AList.update (command_name c) c (commands r)\<rparr>))"

definition get_command :: "string \<Rightarrow> CommandRegistry \<Rightarrow> ICommand option" where
  "get_command name r = map_of (commands r) name"

definition list_commands :: "CommandRegistry \<Rightarrow> string list" where
  "list_commands r = map fst (commands r)"

interpretation cr: last_wins new_command_registry "\<lambda>r k. get_command k r" list_commands
  "\<lambda>k c r. r\<lparr>commands := AList.update k c (commands r)\<rparr>" "\<lambda>r. keys_ok (commands r)"
  by unfold_locales
    (auto simp: new_command_registry_def get_command_def list_commands_def umap_keys)

lemma register_command_put:
  "register_command (Some c) r = Inr (r\<lparr>commands := AList.update (command_name c) c (commands r)\<rparr>)"
  by (simp add: register_command_def)

lemma command_name_inject: "command_name a = command_name b \<longleftrightarrow> a = b"
  by (cases a; cases b) simp_all

text \<open>The commands keep the table of tasks safe.\<close>

lemma tm_safe_execute:
  assumes "tm_safe m" and "execute J env cmd params m = Done (r, m')"
  shows "tm_safe m'"
proof (cases cmd)
  case TasksAddCommand
  have safe: "tm_safe m1" if "add_task (call_clock env) (call_thread_exn env) typ params m = (x, m1)" for "typ" x m1
    using tm_safe_add [OF assms(1), of "call_clock env" "call_thread_exn env" "typ" params] that by simp
  show ?thesis
    using assms TasksAddCommand
    by (auto simp: execute_def tasks_add_execute_def split: if_splits sum.splits prod.splits intro: safe)
next
  case TasksStopCommand
  with assms tm_safe_stop [OF assms(1)] show ?thesis
    by (force simp: execute_def tasks_stop_execute_def out_bind_Done_iff
        split: if_splits sum.splits prod.splits bool.splits)
qed (use assms in \<open>auto simp: execute_def out_bind_Done_iff\<close>)

lemma state_word_eq: "state_word s = task_state_to_string s"
  by (cases s) (simp_all add: state_word_def)

end
