(* ===== verification/Core.thy ===== *)
theory Core
  imports Prelude
begin

text \<open>
  \<open>include/demo_daemon/core\<close>: the \<open>Result\<close> templates of \<open>result.hpp\<close>, versions and log
  levels of \<open>types.hpp\<close>, the level filter of the logger, and the signal handler of
  \<open>src/core/signal_handler.cpp\<close>.
\<close>

section \<open>\<open>Error\<close> and \<open>Result<T>\<close>\<close>

datatype ErrorCode =
  Success | InvalidArgument | NotFound_code | AlreadyExists | PermissionDenied | Timeout_code
  | InternalError_code | NotInitialized | Cancelled

fun errorCodeToString :: "ErrorCode \<Rightarrow> string" where
  "errorCodeToString Success = ''Success''"
| "errorCodeToString InvalidArgument = ''InvalidArgument''"
| "errorCodeToString NotFound_code = ''NotFound''"
| "errorCodeToString AlreadyExists = ''AlreadyExists''"
| "errorCodeToString PermissionDenied = ''PermissionDenied''"
| "errorCodeToString Timeout_code = ''Timeout''"
| "errorCodeToString InternalError_code = ''InternalError''"
| "errorCodeToString NotInitialized = ''NotInitialized''"
| "errorCodeToString Cancelled = ''Cancelled''"

record Error =
  err_code :: ErrorCode
  err_message :: string

definition default_error :: Error where
  "default_error = \<lparr>err_code = Success, err_message = []\<rparr>"

definition error_ok :: "Error \<Rightarrow> bool" where
  "error_ok e \<longleftrightarrow> err_code e = Success"

text \<open>\<open>explicit operator bool\<close>: an \<open>Error\<close> is true when it is one.\<close>

definition error_to_bool :: "Error \<Rightarrow> bool" where
  "error_to_bool e \<longleftrightarrow> \<not> error_ok e"

text \<open>\<open>std::variant<T, Error>\<close>.\<close>

datatype 'a Result = Value 'a | Err Error

definition result_ok :: "'a \<Rightarrow> 'a Result" where
  "result_ok v = Value v"

definition result_err :: "ErrorCode \<Rightarrow> string \<Rightarrow> 'a Result" where
  "result_err c msg = Err \<lparr>err_code = c, err_message = msg\<rparr>"

fun is_ok :: "'a Result \<Rightarrow> bool" where
  "is_ok (Value v) = True"
| "is_ok (Err e) = False"

definition hasError :: "'a Result \<Rightarrow> bool" where
  "hasError r \<longleftrightarrow> \<not> is_ok r"

fun result_error :: "'a Result \<Rightarrow> Error res" where
  "result_error (Value v) = Inl (Runtime_error ''Result does not contain error'')"
| "result_error (Err e) = Inr e"

text \<open>\<open>value()\<close> reads the message through \<open>error()\<close> when it throws.\<close>

definition result_value :: "'a Result \<Rightarrow> 'a res" where
  "result_value r =
     (case r of
        Value v \<Rightarrow> Inr v
      | Err _ \<Rightarrow>
          res_bind (result_error r) (\<lambda>e.
            Inl (Runtime_error (''Result does not contain value: '' @ err_message e))))"

definition valueOr :: "'a Result \<Rightarrow> 'a \<Rightarrow> 'a" where
  "valueOr r d = (case r of Value v \<Rightarrow> v | Err _ \<Rightarrow> d)"

definition valueOrInvoke :: "'a Result \<Rightarrow> (Error \<Rightarrow> 'a) \<Rightarrow> 'a res" where
  "valueOrInvoke r f =
     (case r of Value v \<Rightarrow> Inr v | Err _ \<Rightarrow> res_bind (result_error r) (\<lambda>e. Inr (f e)))"

text \<open>The specialisation \<open>Result<void>\<close>, whose error constructor sets \<open>has_value_\<close>.\<close>

record Result_void =
  rv_error :: Error
  rv_has_value :: bool

definition void_ok :: Result_void where
  "void_ok = \<lparr>rv_error = default_error, rv_has_value = True\<rparr>"

definition void_of_error :: "Error \<Rightarrow> Result_void" where
  "void_of_error e = \<lparr>rv_error = e, rv_has_value = True\<rparr>"

definition void_err :: "ErrorCode \<Rightarrow> string \<Rightarrow> Result_void" where
  "void_err c msg = void_of_error \<lparr>err_code = c, err_message = msg\<rparr>"

definition void_isSuccess :: "Result_void \<Rightarrow> bool" where
  "void_isSuccess r \<longleftrightarrow> rv_has_value r"

definition void_hasError :: "Result_void \<Rightarrow> bool" where
  "void_hasError r \<longleftrightarrow> \<not> rv_has_value r"

definition void_to_bool :: "Result_void \<Rightarrow> bool" where
  "void_to_bool r \<longleftrightarrow> rv_has_value r"

definition void_error :: "Result_void \<Rightarrow> Error res" where
  "void_error r =
     (if rv_has_value r then Inl (Runtime_error ''Result does not contain error'')
      else Inr (rv_error r))"

lemma result_value_cases:
  "result_value r = Inr v \<longleftrightarrow> r = Value v"
  "result_error r = Inr e \<longleftrightarrow> r = Err e"
  "is_ok r \<longleftrightarrow> (\<exists>v. r = Value v)"
  by (cases r; simp add: result_value_def)+

section \<open>Versions and log levels\<close>

record Version =
  v_major :: int32
  v_minor :: int32
  v_patch :: int32
  v_suffix :: string

definition version_toString :: "Version \<Rightarrow> string" where
  "version_toString v =
     int_string (sint (v_major v)) @ ''.'' @ int_string (sint (v_minor v)) @ ''.'' @
     int_string (sint (v_patch v)) @ (if v_suffix v \<noteq> [] then ''-'' @ v_suffix v else [])"

definition getCurrentVersion :: Version where
  "getCurrentVersion = \<lparr>v_major = 0, v_minor = 1, v_patch = 0, v_suffix = ''dev''\<rparr>"

text \<open>\<open>version.hpp\<close>, and the sizes of \<open>types.hpp\<close>.\<close>

definition VERSION :: string where "VERSION = ''0.1.0''"
definition VERSION_MAJOR :: int32 where "VERSION_MAJOR = 0"
definition VERSION_MINOR :: int32 where "VERSION_MINOR = 1"
definition VERSION_PATCH :: int32 where "VERSION_PATCH = 0"

definition kDefaultBufferSize :: nat where "kDefaultBufferSize = 65536"
definition kMaxMessageSize :: nat where "kMaxMessageSize = 1024 * 1024"

datatype LogLevel = Trace | Debug | Info | Warn | Error_level

fun level_num :: "LogLevel \<Rightarrow> nat" where
  "level_num Trace = 0"
| "level_num Debug = 1"
| "level_num Info = 2"
| "level_num Warn = 3"
| "level_num Error_level = 4"

fun logLevelToString :: "LogLevel \<Rightarrow> string" where
  "logLevelToString Trace = ''TRACE''"
| "logLevelToString Debug = ''DEBUG''"
| "logLevelToString Info = ''INFO''"
| "logLevelToString Warn = ''WARN''"
| "logLevelToString Error_level = ''ERROR''"

definition stringToLogLevel :: "string \<Rightarrow> LogLevel" where
  "stringToLogLevel s =
     (if s = ''trace'' \<or> s = ''TRACE'' then Trace
      else if s = ''debug'' \<or> s = ''DEBUG'' then Debug
      else if s = ''info'' \<or> s = ''INFO'' then Info
      else if s = ''warn'' \<or> s = ''WARN'' then Warn
      else if s = ''error'' \<or> s = ''ERROR'' then Error_level
      else Info)"

text \<open>The order of the enumeration, as the logger compares levels.\<close>

instantiation LogLevel :: linorder
begin

definition less_eq_LogLevel :: "LogLevel \<Rightarrow> LogLevel \<Rightarrow> bool" where
  "less_eq_LogLevel a b \<longleftrightarrow> level_num a \<le> level_num b"

definition less_LogLevel :: "LogLevel \<Rightarrow> LogLevel \<Rightarrow> bool" where
  "less_LogLevel a b \<longleftrightarrow> level_num a < level_num b"

instance
proof
  fix a b c :: LogLevel
  show "(a < b) = (a \<le> b \<and> \<not> b \<le> a)" by (auto simp: less_eq_LogLevel_def less_LogLevel_def)
  show "a \<le> a" by (simp add: less_eq_LogLevel_def)
  show "a \<le> b \<Longrightarrow> b \<le> c \<Longrightarrow> a \<le> c" by (simp add: less_eq_LogLevel_def)
  show "a \<le> b \<Longrightarrow> b \<le> a \<Longrightarrow> a = b" by (cases a; cases b) (simp_all add: less_eq_LogLevel_def)
  show "a \<le> b \<or> b \<le> a" by (auto simp: less_eq_LogLevel_def)
qed

end

section \<open>Exception classes\<close>

text \<open>
  \<open>exception.hpp\<close>: an exception is its class and what \<open>what()\<close> returns. A second argument is
  the \<open>message()\<close> of an \<open>std::error_code\<close>.
\<close>

datatype exception_class =
  Daemon_class | Initialization_class | Configuration_class | Ipc_class | Protocol_class
  | Command_class | Task_class | Shutdown_class

record daemon_exception =
  ex_class :: exception_class
  ex_what :: string

definition DaemonException :: "string \<Rightarrow> daemon_exception" where
  "DaemonException message = \<lparr>ex_class = Daemon_class, ex_what = message\<rparr>"

definition DaemonException_ec :: "string \<Rightarrow> string \<Rightarrow> daemon_exception" where
  "DaemonException_ec message ec_message =
     \<lparr>ex_class = Daemon_class, ex_what = message @ '': '' @ ec_message\<rparr>"

definition InitializationException :: "string \<Rightarrow> daemon_exception" where
  "InitializationException message = (DaemonException message)\<lparr>ex_class := Initialization_class\<rparr>"

definition ConfigurationException :: "string \<Rightarrow> daemon_exception" where
  "ConfigurationException message = (DaemonException message)\<lparr>ex_class := Configuration_class\<rparr>"

definition IpcException :: "string \<Rightarrow> daemon_exception" where
  "IpcException message = (DaemonException message)\<lparr>ex_class := Ipc_class\<rparr>"

definition IpcException_ec :: "string \<Rightarrow> string \<Rightarrow> daemon_exception" where
  "IpcException_ec message ec_message = (DaemonException_ec message ec_message)\<lparr>ex_class := Ipc_class\<rparr>"

definition ProtocolException :: "string \<Rightarrow> daemon_exception" where
  "ProtocolException message = (DaemonException message)\<lparr>ex_class := Protocol_class\<rparr>"

definition CommandException :: "string \<Rightarrow> daemon_exception" where
  "CommandException message = (DaemonException message)\<lparr>ex_class := Command_class\<rparr>"

definition TaskException :: "string \<Rightarrow> daemon_exception" where
  "TaskException message = (DaemonException message)\<lparr>ex_class := Task_class\<rparr>"

definition ShutdownException :: "string option \<Rightarrow> daemon_exception" where
  "ShutdownException message =
     (DaemonException (case message of Some s \<Rightarrow> s | None \<Rightarrow> ''Daemon shutdown requested''))
       \<lparr>ex_class := Shutdown_class\<rparr>"

text \<open>\<open>catch (const C&)\<close>: every class derives from \<open>DaemonException\<close> directly.\<close>

definition caught_by :: "exception_class \<Rightarrow> daemon_exception \<Rightarrow> bool" where
  "caught_by c e \<longleftrightarrow> c = Daemon_class \<or> ex_class e = c"

section \<open>Signals\<close>

text \<open>
  The self-pipe holds one byte per delivered signal, up to the capacity \<open>cap\<close> of the
  kernel's pipe: the write end blocks when it is full, which a handler that never returns
  models as \<^const>\<open>None\<close>.
\<close>

datatype SignalType = No_signal | Interrupt | Terminate | Hangup | Pipe

datatype signum = SIGINT | SIGTERM | SIGHUP | SIGPIPE | Other_signal

record SignalHandler =
  pipe_open :: bool
  pipe_bytes :: nat
  pendingSignal :: SignalType
  sig_initialized :: bool
  shutdownRequested :: bool

definition new_signal_handler :: SignalHandler where
  "new_signal_handler =
     \<lparr>pipe_open = False, pipe_bytes = 0, pendingSignal = No_signal, sig_initialized = False, shutdownRequested = False\<rparr>"

fun signal_type :: "signum \<Rightarrow> SignalType \<Rightarrow> SignalType" where
  "signal_type SIGINT p = Interrupt"
| "signal_type SIGTERM p = Terminate"
| "signal_type SIGHUP p = Hangup"
| "signal_type SIGPIPE p = Pipe"
| "signal_type Other_signal p = p"

text \<open>\<open>initialize()\<close> with the results of \<open>pipe\<close>, the two \<open>fcntl\<close> calls and the four
  \<open>sigaction\<close> calls.\<close>

definition signal_initialize :: "bool \<Rightarrow> bool \<Rightarrow> bool list \<Rightarrow> SignalHandler \<Rightarrow> bool \<times> SignalHandler" where
  "signal_initialize pipe_ok nonblock_ok sigactions_ok h =
     (if sig_initialized h then (True, h)
      else if \<not> pipe_ok then (False, h)
      else
        let h1 = h\<lparr>pipe_open := True, pipe_bytes := 0\<rparr> in
        if \<not> nonblock_ok then (False, h1)
        else if False \<in> set (take 4 sigactions_ok) then (False, h1)
        else (True, h1\<lparr>sig_initialized := True\<rparr>))"

text \<open>A write to a pipe that was never opened fails, which the code ignores.\<close>

definition writeSignalToPipe :: "nat \<Rightarrow> signum \<Rightarrow> SignalHandler \<Rightarrow> SignalHandler option" where
  "writeSignalToPipe cap n h =
     (if pipe_open h \<and> pipe_bytes h \<ge> cap then None
      else
        let h1 = (if pipe_open h then h\<lparr>pipe_bytes := pipe_bytes h + 1\<rparr> else h) in
        Some (if sig_initialized h1 then h1\<lparr>pendingSignal := signal_type n (pendingSignal h1)\<rparr> else h1))"

definition handleSignal :: "nat \<Rightarrow> signum \<Rightarrow> SignalHandler \<Rightarrow> SignalHandler option" where
  "handleSignal cap n h =
     (case n of
        SIGINT \<Rightarrow> writeSignalToPipe cap SIGINT (h\<lparr>shutdownRequested := True\<rparr>)
      | SIGTERM \<Rightarrow> writeSignalToPipe cap SIGTERM (h\<lparr>shutdownRequested := True\<rparr>)
      | SIGHUP \<Rightarrow> writeSignalToPipe cap SIGHUP h
      | SIGPIPE \<Rightarrow> writeSignalToPipe cap SIGPIPE h
      | Other_signal \<Rightarrow> Some h)"

definition checkSignal :: "SignalHandler \<Rightarrow> SignalType \<times> SignalHandler" where
  "checkSignal h =
     (if \<not> sig_initialized h then (No_signal, h)
      else (pendingSignal h, h\<lparr>pipe_bytes := 0, pendingSignal := No_signal\<rparr>))"

definition signal_reset :: "SignalHandler \<Rightarrow> SignalHandler" where
  "signal_reset h = h\<lparr>pendingSignal := No_signal\<rparr>"

text \<open>
  \<open>instance()\<close> is the default-constructed singleton; the destructor closes both ends of the
  pipe.
\<close>

definition signal_instance :: SignalHandler where
  "signal_instance = new_signal_handler"

definition isShutdownRequested :: "SignalHandler \<Rightarrow> bool" where
  [simp]: "isShutdownRequested h = shutdownRequested h"

definition destroy_signal_handler :: "SignalHandler \<Rightarrow> SignalHandler" where
  "destroy_signal_handler h = (if pipe_open h then h\<lparr>pipe_open := False, pipe_bytes := 0\<rparr> else h)"

text \<open>The shutdown flag is never taken back.\<close>

lemma shutdown_stays:
  "handleSignal cap n h = Some h' \<Longrightarrow> shutdownRequested h \<Longrightarrow> shutdownRequested h'"
  "shutdownRequested (snd (checkSignal h)) = shutdownRequested h"
  "shutdownRequested (signal_reset h) = shutdownRequested h"
  by (auto simp: handleSignal_def writeSignalToPipe_def checkSignal_def signal_reset_def Let_def
      split: signum.splits if_splits)

end
