(* ===== verification/Logger.thy ===== *)
theory Logger
  imports Core
begin

text \<open>
  \<open>Logger\<close> of \<open>src/core/logger.cpp\<close> and the templates of \<open>core/logger.hpp\<close>. The stream
  is the list of the lines written to it. The wall clock (milliseconds since the epoch) and
  \<open>std::put_time\<close> on the local time, which depends on the time zone, are inputs; so are
  the texts that \<open>operator<<\<close> makes of the arguments.
\<close>

section \<open>The logger\<close>

record Logger =
  min_level :: LogLevel
  log_lines :: "string list"

definition new_logger :: "LogLevel \<Rightarrow> Logger" where
  "new_logger level = \<lparr>min_level = level, log_lines = []\<rparr>"

definition setMinLevel :: "LogLevel \<Rightarrow> Logger \<Rightarrow> Logger" where
  "setMinLevel level L = L\<lparr>min_level := level\<rparr>"

definition minLevel :: "Logger \<Rightarrow> LogLevel" where
  [simp]: "minLevel L = min_level L"

text \<open>The singleton behind \<open>Logger::instance()\<close> is default-constructed.\<close>

definition logger_instance :: Logger where
  "logger_instance = new_logger Info"

text \<open>\<open>std::setfill('0') << std::setw(3)\<close>.\<close>

definition zero_fill :: "nat \<Rightarrow> string \<Rightarrow> string" where
  "zero_fill w s = replicate (w - length s) (CHR ''0'') @ s"

definition formatPrefix :: "(nat \<Rightarrow> string) \<Rightarrow> nat \<Rightarrow> LogLevel \<Rightarrow> string" where
  "formatPrefix put_time now level =
     ''['' @ put_time (now div 1000) @ ''.'' @ zero_fill 3 (nat_string (now mod 1000)) @
     ''] ['' @ logLevelToString level @ ''] ''"

definition log_write :: "string \<Rightarrow> Logger \<Rightarrow> Logger" where
  "log_write formattedMessage L = L\<lparr>log_lines := log_lines L @ [formattedMessage]\<rparr>"

definition log_message :: "(nat \<Rightarrow> string) \<Rightarrow> nat \<Rightarrow> LogLevel \<Rightarrow> string \<Rightarrow> Logger \<Rightarrow> Logger" where
  "log_message put_time now level message L =
     (if level \<ge> minLevel L then log_write (formatPrefix put_time now level @ message) L else L)"

text \<open>The variadic \<open>log\<close>: the format is printed as it is and the arguments follow it.\<close>

definition log_format :: "(nat \<Rightarrow> string) \<Rightarrow> nat \<Rightarrow> LogLevel \<Rightarrow> string \<Rightarrow> string list \<Rightarrow> Logger \<Rightarrow> Logger" where
  "log_format put_time now level format args L =
     (if level \<ge> minLevel L
      then log_message put_time now level (''[DEMON] '' @ format @ concat (map ((#) (CHR '' '')) args)) L
      else L)"

definition trace :: "(nat \<Rightarrow> string) \<Rightarrow> nat \<Rightarrow> string \<Rightarrow> Logger \<Rightarrow> Logger" where
  "trace put_time now message = log_message put_time now Trace message"

definition debug :: "(nat \<Rightarrow> string) \<Rightarrow> nat \<Rightarrow> string \<Rightarrow> Logger \<Rightarrow> Logger" where
  "debug put_time now message = log_message put_time now Debug message"

definition info :: "(nat \<Rightarrow> string) \<Rightarrow> nat \<Rightarrow> string \<Rightarrow> Logger \<Rightarrow> Logger" where
  "info put_time now message = log_message put_time now Info message"

definition warn :: "(nat \<Rightarrow> string) \<Rightarrow> nat \<Rightarrow> string \<Rightarrow> Logger \<Rightarrow> Logger" where
  "warn put_time now message = log_message put_time now Warn message"

definition log_error :: "(nat \<Rightarrow> string) \<Rightarrow> nat \<Rightarrow> string \<Rightarrow> Logger \<Rightarrow> Logger" where
  "log_error put_time now message = log_message put_time now Error_level message"

definition trace_format :: "(nat \<Rightarrow> string) \<Rightarrow> nat \<Rightarrow> string \<Rightarrow> string list \<Rightarrow> Logger \<Rightarrow> Logger" where
  "trace_format put_time now format args = log_format put_time now Trace format args"

definition debug_format :: "(nat \<Rightarrow> string) \<Rightarrow> nat \<Rightarrow> string \<Rightarrow> string list \<Rightarrow> Logger \<Rightarrow> Logger" where
  "debug_format put_time now format args = log_format put_time now Debug format args"

definition info_format :: "(nat \<Rightarrow> string) \<Rightarrow> nat \<Rightarrow> string \<Rightarrow> string list \<Rightarrow> Logger \<Rightarrow> Logger" where
  "info_format put_time now format args = log_format put_time now Info format args"

definition warn_format :: "(nat \<Rightarrow> string) \<Rightarrow> nat \<Rightarrow> string \<Rightarrow> string list \<Rightarrow> Logger \<Rightarrow> Logger" where
  "warn_format put_time now format args = log_format put_time now Warn format args"

definition error_format :: "(nat \<Rightarrow> string) \<Rightarrow> nat \<Rightarrow> string \<Rightarrow> string list \<Rightarrow> Logger \<Rightarrow> Logger" where
  "error_format put_time now format args = log_format put_time now Error_level format args"

section \<open>What is written\<close>

lemma length_zero_fill: "length s \<le> w \<Longrightarrow> length (zero_fill w s) = w"
  by (simp add: zero_fill_def)

lemma length_nat_string_1000: "n < 1000 \<Longrightarrow> length (nat_string n) \<le> 3"
  by (simp add: nat_string.simps [of n] nat_string.simps [of "n div 10"]
      nat_string.simps [of "n div 10 div 10"])

lemma log_message_frame [simp]: "min_level (log_message pt now l m L) = min_level L"
  by (simp add: log_message_def log_write_def)

text \<open>The second test of the level, inside the call of \<open>log\<close>, always passes.\<close>

lemma log_format_message:
  "log_format pt now l f args L =
     log_message pt now l (''[DEMON] '' @ f @ concat (map ((#) (CHR '' '')) args)) L"
  by (simp add: log_format_def log_message_def)

lemma log_calls:
  "fold (\<lambda>(now, l, m). log_message pt now l m) calls L =
     L\<lparr>log_lines := log_lines L @
       map (\<lambda>(now, l, m). formatPrefix pt now l @ m) (filter (\<lambda>(now, l, m). min_level L \<le> l) calls)\<rparr>"
proof (induction calls arbitrary: L)
  case (Cons c calls)
  obtain now l m where c: "c = (now, l, m)" by (cases c)
  have "log_message pt now l m L =
      (if min_level L \<le> l then L\<lparr>log_lines := log_lines L @ [formatPrefix pt now l @ m]\<rparr> else L)"
    by (simp add: log_message_def log_write_def)
  then show ?case by (simp add: Cons.IH c)
qed simp

end
