(* ===== verification/Framing.thy ===== *)
theory Framing
  imports Json_Protocol
begin

text \<open>
  \<open>JsonProtocolParser\<close> of \<open>src/ipc/json_protocol.cpp\<close>: newline-delimited framing with a
  size limit. The interface \<open>framer\<close> states what a reader of a byte stream may rely on
  (a parsed message consumes input; more input behind a complete line does not change what
  the line means), the reference function \<open>drain\<close> says which messages a stream holds, and
  the interpretation shows that \<open>try_parse\<close> meets the contract.
\<close>

section \<open>The parser\<close>

record JsonProtocolParser =
  max_message_size :: nat

definition DEFAULT_MAX_MESSAGE_SIZE :: nat where
  "DEFAULT_MAX_MESSAGE_SIZE = 1024 * 1024"

definition default_parser :: JsonProtocolParser where
  "default_parser = \<lparr>max_message_size = DEFAULT_MAX_MESSAGE_SIZE\<rparr>"

definition make_parse_error :: "'j JsonMessage" where
  "make_parse_error = empty_message
     \<lparr>jm_error := Some \<lparr>pe_code = ParseError, pe_message = ''Invalid JSON payload'', pe_data = None\<rparr>\<rparr>"

definition make_invalid_request :: "int64 \<Rightarrow> 'j JsonMessage" where
  "make_invalid_request i = empty_message
     \<lparr>jm_id := Some i,
      jm_error := Some \<lparr>pe_code = InvalidRequest,
        pe_message = ''The JSON sent is not a valid Request object'', pe_data = None\<rparr>\<rparr>"

definition make_method_not_found :: "int64 \<Rightarrow> string \<Rightarrow> 'j JsonMessage" where
  "make_method_not_found i meth = empty_message
     \<lparr>jm_id := Some i,
      jm_error := Some \<lparr>pe_code = MethodNotFound,
        pe_message = ''Method not found: '' @ meth, pe_data = None\<rparr>\<rparr>"

definition make_invalid_params :: "int64 \<Rightarrow> string \<Rightarrow> 'j JsonMessage" where
  "make_invalid_params i msg = empty_message
     \<lparr>jm_id := Some i,
      jm_error := Some \<lparr>pe_code = InvalidParams, pe_message = msg, pe_data = None\<rparr>\<rparr>"

definition make_internal_error :: "int64 \<Rightarrow> string \<Rightarrow> 'j JsonMessage" where
  "make_internal_error i msg = empty_message
     \<lparr>jm_id := Some i,
      jm_error := Some \<lparr>pe_code = InternalError, pe_message = msg, pe_data = None\<rparr>\<rparr>"

text \<open>The result and the value left in \<open>bytes_consumed\<close>.\<close>

definition try_parse ::
    "'j json_api \<Rightarrow> JsonProtocolParser \<Rightarrow> string \<Rightarrow> 'j JsonMessage option \<times> nat" where
  "try_parse J p data =
     (if data = [] then (None, 0)
      else case find_char newline data of
        None \<Rightarrow>
          if length data \<ge> max_message_size p then (Some make_parse_error, length data)
          else (None, 0)
      | Some newline_pos \<Rightarrow>
          if newline_pos \<ge> max_message_size p then (Some make_parse_error, newline_pos + 1)
          else
            let line = take newline_pos data;
                bytes_consumed = newline_pos + 1
            in case (find_first_not_of blanks line, find_last_not_of blanks line) of
                 (Some start, Some end_pos) \<Rightarrow>
                   (case res_bind (j_parse J (take (end_pos - start + 1) (drop start line)))
                           (JsonMessage_from_json J) of
                      Inr r \<Rightarrow> (r, bytes_consumed)
                    | Inl _ \<Rightarrow> (Some make_parse_error, bytes_consumed))
               | _ \<Rightarrow> (None, bytes_consumed))"

definition serialize :: "'j json_api \<Rightarrow> 'j JsonMessage \<Rightarrow> string res" where
  "serialize J msg = res_bind (j_dump J (JsonMessage_to_json J msg)) (\<lambda>s. Inr (s @ [newline]))"

section \<open>What a stream holds\<close>

text \<open>Take messages off the front as long as \<open>try_parse\<close> yields one.\<close>

function drain :: "(string \<Rightarrow> 'm option \<times> nat) \<Rightarrow> string \<Rightarrow> 'm list \<times> string" where
  "drain tp d =
     (case tp d of
        (None, n) \<Rightarrow> ([], d)
      | (Some m, n) \<Rightarrow>
          if 0 < n \<and> n \<le> length d
          then (m # fst (drain tp (drop n d)), snd (drain tp (drop n d)))
          else ([], d))"
  by pat_completeness auto
termination
  by (relation "measure (\<lambda>(tp, d). length d)") auto

declare drain.simps [simp del]

locale framer =
  fixes tp :: "string \<Rightarrow> 'm option \<times> nat"
    and limit :: nat
  assumes progress: "tp d = (Some m, n) \<Longrightarrow> 0 < n \<and> n \<le> length d"
    and consumed_le: "tp d = (r, n) \<Longrightarrow> n \<le> length d"
    and stable: "tp d = (r, n) \<Longrightarrow> 0 < n \<Longrightarrow> length (d @ e) < limit \<Longrightarrow> tp (d @ e) = (r, n)"
begin

lemma drain_None: "tp d = (None, n) \<Longrightarrow> drain tp d = ([], d)"
  by (simp add: drain.simps)

lemma drain_Some:
  "tp d = (Some m, n) \<Longrightarrow>
     drain tp d = (m # fst (drain tp (drop n d)), snd (drain tp (drop n d)))"
  using progress [of d m n] by (subst drain.simps) simp

lemma drain_append:
  assumes "length (d @ e) < limit"
  shows "drain tp (d @ e) =
    (fst (drain tp d) @ fst (drain tp (snd (drain tp d) @ e)), snd (drain tp (snd (drain tp d) @ e)))"
  using assms
proof (induction "length d" arbitrary: d rule: less_induct)
  case less
  show ?case
  proof (cases "tp d")
    case (Pair r n)
    show ?thesis
    proof (cases r)
      case None
      with Pair show ?thesis by (simp add: drain_None)
    next
      case (Some m)
      with Pair have d: "tp d = (Some m, n)" by simp
      note n = progress [OF d]
      have de: "tp (d @ e) = (Some m, n)" using d n less.prems by (simp add: stable)
      have "drop n (d @ e) = drop n d @ e" using n by simp
      moreover have "length (drop n d) < length d" and "length (drop n d @ e) < limit"
        using n less.prems by auto
      ultimately show ?thesis
        using less.hyps [of "drop n d"] by (simp add: drain_Some [OF d] drain_Some [OF de])
    qed
  qed
qed

lemma drain_rest:
  shows "length (snd (drain tp d)) \<le> length d" and "\<exists>n. tp (snd (drain tp d)) = (None, n)"
proof (atomize(full), induction "length d" arbitrary: d rule: less_induct)
  case less
  obtain r n where rn: "tp d = (r, n)" by fastforce
  show ?case
  proof (cases r)
    case None
    with rn show ?thesis by (simp add: drain_None)
  next
    case (Some m)
    with rn have d: "tp d = (Some m, n)" by simp
    note n = progress [OF d]
    then have "length (drop n d) < length d" by auto
    from less.hyps [OF this] n show ?thesis by (auto simp: drain_Some [OF d])
  qed
qed

text \<open>A line that is consumed without a message stays at the front of the stream.\<close>

lemma drain_blocked:
  assumes "tp d = (None, n)" and "0 < n" and "length (d @ e) < limit"
  shows "drain tp (d @ e) = ([], d @ e)"
  using stable [OF assms] by (rule drain_None)

end

section \<open>\<open>try_parse\<close> meets the contract\<close>

text \<open>
  A complete line below the limit, independent of what follows it: the trimmed text is
  parsed, a blank line and a document that is no message give no result, an exception
  gives the parse error.
\<close>

definition line_result :: "'j json_api \<Rightarrow> string \<Rightarrow> 'j JsonMessage option" where
  "line_result J line =
     (if set line \<subseteq> set blanks then None
      else case res_bind (j_parse J (trim blanks line)) (JsonMessage_from_json J) of
             Inr r \<Rightarrow> r | Inl _ \<Rightarrow> Some make_parse_error)"

lemma try_parse_line:
  assumes "newline \<notin> set line" and "length line < max_message_size p"
  shows "try_parse J p (line @ newline # rest) = (line_result J line, length line + 1)"
proof -
  have pos: "find_char newline (line @ newline # rest) = Some (length line)"
    using assms(1) by simp
  show ?thesis
  proof (cases "set line \<subseteq> set blanks")
    case True
    then have "find_first_not_of blanks line = None" by simp
    with True pos assms(2) show ?thesis
      by (simp add: try_parse_def Let_def line_result_def del: find_first_not_of_None)
  next
    case False
    then obtain i j where ij: "find_first_not_of blanks line = Some i"
        "find_last_not_of blanks line = Some j"
      by (metis find_first_not_of_None find_last_not_of_None option.exhaust)
    with pos assms(2) False substr_trim [OF ij] show ?thesis
      by (simp add: try_parse_def Let_def line_result_def split: sum.splits)
  qed
qed

lemma try_parse_long_line:
  assumes "newline \<notin> set line" and "max_message_size p \<le> length line"
  shows "try_parse J p (line @ newline # rest) = (Some make_parse_error, length line + 1)"
proof -
  have "find_char newline (line @ newline # rest) = Some (length line)"
    using assms(1) by simp
  with assms(2) show ?thesis by (simp add: try_parse_def)
qed

lemma try_parse_no_newline:
  assumes "newline \<notin> set d"
  shows "try_parse J p d =
    (if d \<noteq> [] \<and> max_message_size p \<le> length d then (Some make_parse_error, length d)
     else (None, 0))"
proof -
  have "find_char newline d = None" using assms by simp
  then show ?thesis by (auto simp: try_parse_def simp del: find_char_None)
qed

text \<open>Every input is of one of the three shapes above.\<close>

lemma line_cases:
  obtains (partial) "newline \<notin> set d"
    | (line) line rest where "d = line @ newline # rest" "newline \<notin> set line"
  using split_list_first [of newline d] by blast

lemma try_parse_consumed: "try_parse J p d = (r, n) \<Longrightarrow> n \<le> length d"
proof (cases rule: line_cases [of d])
  case partial
  assume "try_parse J p d = (r, n)"
  with partial show ?thesis by (auto simp: try_parse_no_newline split: if_splits)
next
  case (line l rest)
  assume "try_parse J p d = (r, n)"
  with line show ?thesis
    by (cases "length l < max_message_size p")
      (auto simp: try_parse_line try_parse_long_line not_less)
qed

lemma try_parse_progress: "try_parse J p d = (Some m, n) \<Longrightarrow> 0 < n"
proof (cases rule: line_cases [of d])
  case partial
  assume "try_parse J p d = (Some m, n)"
  with partial show ?thesis by (auto simp: try_parse_no_newline split: if_splits)
next
  case (line l rest)
  assume "try_parse J p d = (Some m, n)"
  with line show ?thesis
    by (cases "length l < max_message_size p")
      (auto simp: try_parse_line try_parse_long_line not_less)
qed

lemma try_parse_stable:
  assumes "try_parse J p d = (r, n)" and "0 < n" and "length (d @ e) < max_message_size p"
  shows "try_parse J p (d @ e) = (r, n)"
proof (cases rule: line_cases [of d])
  case partial
  with assms show ?thesis by (auto simp: try_parse_no_newline split: if_splits)
next
  case (line l rest)
  with assms show ?thesis by (simp add: try_parse_line)
qed

interpretation jp: framer "try_parse J p" "max_message_size p"
  for J :: "'j json_api" and p :: JsonProtocolParser
  by unfold_locales
    (auto dest: try_parse_progress try_parse_consumed intro: try_parse_stable)

section \<open>Serialised messages are read back\<close>

context nlohmann_json
begin

lemma serialize_line:
  assumes "serialize J m = Inr s"
  obtains l where "s = l @ [newline]" "j_dump J (JsonMessage_to_json J m) = Inr l"
    "newline \<notin> set l" "trim blanks l = l" "\<not> set l \<subseteq> set blanks"
proof -
  from assms obtain l where l: "s = l @ [newline]" "j_dump J (JsonMessage_to_json J m) = Inr l"
    by (auto simp: serialize_def res_bind_Inr_iff)
  note d = dump_one_line [OF l(2)] dump_trimmed [OF l(2)]
  then have "\<not> set l \<subseteq> set blanks" by (meson hd_in_set subsetD)
  with d l show thesis by (intro that) (auto intro: trim_id)
qed

lemma line_result_serialize:
  assumes "j_dump J (JsonMessage_to_json J m) = Inr l" and "dumpable (JsonMessage_to_json J m)"
    and "trim blanks l = l" and "\<not> set l \<subseteq> set blanks"
  shows "line_result J l = (if wf_message m then Some m else None)"
  using dump_parse [OF assms(2,1)] assms(3,4)
  by (simp add: line_result_def JsonMessage_roundtrip)

lemma try_parse_serialize:
  assumes "serialize J m = Inr s" and "dumpable (JsonMessage_to_json J m)"
    and "length s \<le> max_message_size p"
  shows "try_parse J p (s @ rest) = (if wf_message m then Some m else None, length s)"
proof -
  obtain l where l: "s = l @ [newline]" "j_dump J (JsonMessage_to_json J m) = Inr l"
    "newline \<notin> set l" "trim blanks l = l" "\<not> set l \<subseteq> set blanks"
    using serialize_line [OF assms(1)] by blast
  then show ?thesis
    using line_result_serialize [OF l(2) assms(2) l(4,5)] assms(3)
    by (simp add: try_parse_line)
qed

text \<open>A stream of serialised messages holds exactly these messages.\<close>

lemma drain_serialized:
  assumes "list_all2 (\<lambda>m s. serialize J m = Inr s \<and> wf_message m \<and>
      dumpable (JsonMessage_to_json J m) \<and> length s \<le> max_message_size p) ms ss"
  shows "drain (try_parse J p) (concat ss) = (ms, [])"
  using assms
proof (induction rule: list_all2_induct)
  case Nil
  have "try_parse J p [] = (None, 0)" by (simp add: try_parse_def)
  then show ?case using jp.drain_None by fastforce
next
  case (Cons m ms s ss)
  then have "try_parse J p (s @ concat ss) = (Some m, length s)"
    using try_parse_serialize [of m s p "concat ss"] by simp
  then show ?case using Cons.IH by (simp add: jp.drain_Some)
qed

end

end
