(* ===== verification/IO_Buffer.thy ===== *)
theory IO_Buffer
  imports Prelude
begin

text \<open>
  \<open>IOBuffer\<close> of \<open>include/demo_daemon/ipc/session.hpp\<close>: a byte vector with a read and a
  write position. The interface \<open>byte_queue\<close> is the queue of bytes that its users see;
  the interpretation shows that the positions and the \<open>memmove\<close> implement it.
\<close>

section \<open>The buffer\<close>

record IOBuffer =
  buf_data :: "char list"
  read_pos :: nat
  write_pos :: nat

definition sized_buffer :: "nat \<Rightarrow> IOBuffer" where
  "sized_buffer initial_size =
     \<lparr>buf_data = replicate initial_size (CHR 0x00), read_pos = 0, write_pos = 0\<rparr>"

definition new_buffer :: IOBuffer where
  "new_buffer = \<lparr>buf_data = replicate 4096 (CHR 0x00), read_pos = 0, write_pos = 0\<rparr>"

definition available_for_read :: "IOBuffer \<Rightarrow> nat" where
  "available_for_read b = size_sub (write_pos b) (read_pos b)"

definition available_for_write :: "IOBuffer \<Rightarrow> nat" where
  "available_for_write b = size_sub (length (buf_data b)) (write_pos b)"

definition compact :: "IOBuffer \<Rightarrow> IOBuffer" where
  "compact b =
     (if read_pos b > 0 then
        b\<lparr>buf_data := overwrite 0
            (slice (read_pos b) (size_sub (write_pos b) (read_pos b)) (buf_data b)) (buf_data b),
          write_pos := size_sub (write_pos b) (read_pos b),
          read_pos := 0\<rparr>
      else b)"

definition clear :: "IOBuffer \<Rightarrow> IOBuffer" where
  "clear b = b\<lparr>read_pos := 0, write_pos := 0\<rparr>"

definition get_read_view :: "IOBuffer \<Rightarrow> string" where
  "get_read_view b = slice (read_pos b) (available_for_read b) (buf_data b)"

text \<open>A store of \<open>bs\<close> through \<open>get_write_ptr()\<close> (by \<open>::read\<close> or \<open>memcpy\<close>).\<close>

definition store_at_write_ptr :: "string \<Rightarrow> IOBuffer \<Rightarrow> IOBuffer" where
  "store_at_write_ptr bs b = b\<lparr>buf_data := overwrite (write_pos b) bs (buf_data b)\<rparr>"

definition advance_write :: "nat \<Rightarrow> IOBuffer \<Rightarrow> IOBuffer" where
  "advance_write n b = b\<lparr>write_pos := write_pos b + n\<rparr>"

definition advance_read :: "nat \<Rightarrow> IOBuffer \<Rightarrow> IOBuffer" where
  "advance_read n b = b\<lparr>read_pos := read_pos b + n\<rparr>"

lemmas buffer_defs =
  available_for_read_def available_for_write_def compact_def clear_def get_read_view_def
  store_at_write_ptr_def advance_write_def advance_read_def

section \<open>The invariant\<close>

definition buf_ok :: "IOBuffer \<Rightarrow> bool" where
  "buf_ok b \<longleftrightarrow> read_pos b \<le> write_pos b \<and> write_pos b \<le> length (buf_data b)"

lemma buf_ok_new [simp, intro]: "buf_ok new_buffer"
  by (simp add: buf_ok_def new_buffer_def)

lemma available_for_read_ok:
  "buf_ok b \<Longrightarrow> available_for_read b = length (get_read_view b)"
  by (simp add: buffer_defs buf_ok_def)

lemma available_for_write_ok:
  "buf_ok b \<Longrightarrow> available_for_write b = length (buf_data b) - write_pos b"
  by (simp add: buffer_defs buf_ok_def)

section \<open>The queue it implements\<close>

locale byte_queue =
  fixes contents :: "'b \<Rightarrow> char list"
    and invar :: "'b \<Rightarrow> bool"
    and room :: "'b \<Rightarrow> nat"
    and fill :: "char list \<Rightarrow> 'b \<Rightarrow> 'b"
    and consume :: "nat \<Rightarrow> 'b \<Rightarrow> 'b"
    and tidy :: "'b \<Rightarrow> 'b"
    and reset :: "'b \<Rightarrow> 'b"
  assumes contents_fill: "invar b \<Longrightarrow> length bs \<le> room b \<Longrightarrow> contents (fill bs b) = contents b @ bs"
    and invar_fill: "invar b \<Longrightarrow> length bs \<le> room b \<Longrightarrow> invar (fill bs b)"
    and contents_consume: "invar b \<Longrightarrow> n \<le> length (contents b) \<Longrightarrow>
      contents (consume n b) = drop n (contents b)"
    and invar_consume: "invar b \<Longrightarrow> n \<le> length (contents b) \<Longrightarrow> invar (consume n b)"
    and contents_tidy: "invar b \<Longrightarrow> contents (tidy b) = contents b"
    and invar_tidy: "invar b \<Longrightarrow> invar (tidy b)"
    and room_tidy: "invar b \<Longrightarrow> room b \<le> room (tidy b)"
    and contents_reset: "contents (reset b) = []"
    and invar_reset: "invar (reset b)"
begin

text \<open>A message is taken off the front and the buffer compacted.\<close>

lemma take_off:
  assumes "invar b" and "n \<le> length (contents b)"
  shows "contents (tidy (consume n b)) = drop n (contents b)"
    and "invar (tidy (consume n b))"
  using assms by (simp_all add: contents_tidy contents_consume invar_tidy invar_consume)

end

definition buf_fill :: "string \<Rightarrow> IOBuffer \<Rightarrow> IOBuffer" where
  "buf_fill bs b = advance_write (length bs) (store_at_write_ptr bs b)"

lemma view_eq: "buf_ok b \<Longrightarrow> get_read_view b = drop (read_pos b) (take (write_pos b) (buf_data b))"
  by (simp add: buffer_defs buf_ok_def slice_eq_drop_take)

lemma view_fill:
  assumes "buf_ok b" and "length bs \<le> available_for_write b"
  shows "get_read_view (buf_fill bs b) = get_read_view b @ bs" and "buf_ok (buf_fill bs b)"
proof -
  have len: "write_pos b + length bs \<le> length (buf_data b)"
    using assms by (auto simp: available_for_write_ok buf_ok_def)
  with assms(1) show ok: "buf_ok (buf_fill bs b)"
    by (simp add: buf_ok_def buf_fill_def buffer_defs)
  have "take (write_pos b + length bs) (overwrite (write_pos b) bs (buf_data b)) =
      take (write_pos b) (buf_data b) @ bs"
    using len by (intro take_overwrite_upto) simp
  then have "get_read_view (buf_fill bs b) =
      drop (read_pos b) (take (write_pos b) (buf_data b) @ bs)"
    using view_eq [OF ok] by (simp add: buf_fill_def advance_write_def store_at_write_ptr_def)
  then show "get_read_view (buf_fill bs b) = get_read_view b @ bs"
    using assms(1) by (simp add: view_eq buf_ok_def)
qed

lemma view_consume:
  assumes "buf_ok b" and "n \<le> length (get_read_view b)"
  shows "get_read_view (advance_read n b) = drop n (get_read_view b)" and "buf_ok (advance_read n b)"
proof -
  have le: "read_pos b + n \<le> write_pos b"
    using assms by (auto simp: view_eq buf_ok_def)
  with assms(1) show ok: "buf_ok (advance_read n b)"
    by (simp add: buf_ok_def advance_read_def)
  show "get_read_view (advance_read n b) = drop n (get_read_view b)"
    using view_eq [OF ok] assms(1) by (simp add: view_eq advance_read_def add.commute)
qed

lemma compact_ok:
  assumes "buf_ok b"
  shows "get_read_view (compact b) = get_read_view b" and "buf_ok (compact b)"
    and "read_pos (compact b) = 0" and "length (buf_data (compact b)) = length (buf_data b)"
    and "available_for_write b \<le> available_for_write (compact b)"
proof -
  let ?v = "get_read_view b"
  have le: "length ?v = write_pos b - read_pos b" "length ?v \<le> length (buf_data b)"
    using assms by (auto simp: view_eq buf_ok_def)
  have c: "compact b = (if read_pos b > 0
      then b\<lparr>buf_data := overwrite 0 ?v (buf_data b), write_pos := length ?v, read_pos := 0\<rparr> else b)"
    using assms by (simp add: compact_def get_read_view_def available_for_read_def buf_ok_def)
  show "read_pos (compact b) = 0" by (simp add: c)
  show len: "length (buf_data (compact b)) = length (buf_data b)"
    using le by (simp add: c)
  show ok: "buf_ok (compact b)" using assms le by (simp add: c buf_ok_def)
  have "take (length ?v) (overwrite 0 ?v (buf_data b)) = ?v"
    using take_overwrite_upto [of 0 "buf_data b" ?v] by simp
  then show "get_read_view (compact b) = ?v"
    using view_eq [OF ok] by (cases "read_pos b > 0") (simp_all add: c)
  show "available_for_write b \<le> available_for_write (compact b)"
    using assms ok len le(1) by (auto simp: available_for_write_ok c buf_ok_def)
qed

lemma view_clear: "get_read_view (clear b) = []" "buf_ok (clear b)"
  by (simp_all add: buffer_defs buf_ok_def slice_def)

interpretation iob: byte_queue get_read_view buf_ok available_for_write buf_fill advance_read
    compact clear
  by unfold_locales (auto simp: view_fill view_consume compact_ok view_clear)

section \<open>Runs of buffer operations\<close>

text \<open>
  Any sequence of fills that fit and takes that are available behaves as on a list: no
  byte is lost, duplicated or reordered by the positions and the moves.
\<close>

datatype bufop = Fill string | Take_off nat | Compact

fun legal :: "bufop \<Rightarrow> IOBuffer \<Rightarrow> bool" where
  "legal (Fill bs) b = (length bs \<le> available_for_write b)"
| "legal (Take_off n) b = (n \<le> available_for_read b)"
| "legal Compact b = True"

fun do_op :: "bufop \<Rightarrow> IOBuffer \<Rightarrow> IOBuffer" where
  "do_op (Fill bs) b = advance_write (length bs) (store_at_write_ptr bs b)"
| "do_op (Take_off n) b = advance_read n b"
| "do_op Compact b = compact b"

fun list_op :: "bufop \<Rightarrow> string \<Rightarrow> string" where
  "list_op (Fill bs) q = q @ bs"
| "list_op (Take_off n) q = drop n q"
| "list_op Compact q = q"

fun legal_run :: "bufop list \<Rightarrow> IOBuffer \<Rightarrow> bool" where
  "legal_run [] b = True"
| "legal_run (x # xs) b = (legal x b \<and> legal_run xs (do_op x b))"

lemma do_op_step:
  assumes "buf_ok b" and "legal x b"
  shows "get_read_view (do_op x b) = list_op x (get_read_view b)" and "buf_ok (do_op x b)"
  using assms
  by (cases x; simp add: buf_fill_def [symmetric] available_for_read_ok
      iob.contents_fill iob.invar_fill iob.contents_consume iob.invar_consume
      iob.contents_tidy iob.invar_tidy)+

lemma do_ops_refine:
  assumes "buf_ok b" and "legal_run xs b"
  shows "get_read_view (fold do_op xs b) = fold list_op xs (get_read_view b) \<and>
    buf_ok (fold do_op xs b)"
  using assms
  by (induction xs arbitrary: b) (auto simp: do_op_step)

end
