(* ===== verification/Session.thy ===== *)
theory Session
  imports Framing IO_Buffer
begin

text \<open>
  One client connection: \<open>Session\<close> of \<open>src/ipc/session_manager.cpp\<close>. System calls are
  inputs of the model: what \<open>::read\<close> and \<open>::write\<close> answer is given by a script of the
  pending results, an empty script means that the call would block. The message callback
  is a parameter that may change the session and the rest of the state (\<open>'w\<close>); the
  interface \<open>message_handler\<close> says what the session's loops rely on. Log output is not
  modelled.
\<close>

section \<open>System calls\<close>

text \<open>On Linux \<open>EWOULDBLOCK\<close> is \<open>EAGAIN\<close>.\<close>

datatype errno = EAGAIN | EINTR | ENOENT | EOther nat

datatype read_result = RData string | REof | RErr errno

datatype write_result = WOk nat | WErr errno

text \<open>
  \<open>::read(fd, p, n)\<close> returns at most \<open>n\<close> bytes of the next chunk and leaves the rest;
  at the end of the stream, and for \<open>n = 0\<close>, it returns no bytes.
\<close>

fun sys_read :: "nat \<Rightarrow> read_result list \<Rightarrow> (errno + string) \<times> read_result list" where
  "sys_read n [] = (Inl EAGAIN, [])"
| "sys_read n (RData bs # inp) =
     (if n = 0 then (Inr [], RData bs # inp)
      else (Inr (take n bs), if length bs \<le> n then inp else RData (drop n bs) # inp))"
| "sys_read n (REof # inp) = (Inr [], REof # inp)"
| "sys_read n (RErr e # inp) = (Inl e, inp)"

section \<open>The session\<close>

datatype SessionState = Active | Reading | Writing | Closing | Closed

record Session =
  client_fd :: int32
  ss_state :: SessionState
  read_buffer :: IOBuffer
  write_buffer :: IOBuffer
  ss_parser :: JsonProtocolParser
  session_id :: uint64

definition MAX_BUFFER_SIZE :: nat where
  "MAX_BUFFER_SIZE = 1024 * 1024"

text \<open>The constructor increments the static counter \<open>next_session_id_\<close>.\<close>

definition new_session :: "uint64 \<Rightarrow> int32 \<Rightarrow> Session \<times> uint64" where
  "new_session next_session_id fd =
     (\<lparr>client_fd = fd, ss_state = Active, read_buffer = new_buffer, write_buffer = new_buffer,
       ss_parser = default_parser, session_id = next_session_id + 1\<rparr>,
      next_session_id + 1)"

definition get_fd :: "Session \<Rightarrow> int32" where
  [simp]: "get_fd s = client_fd s"

definition get_state :: "Session \<Rightarrow> SessionState" where
  [simp]: "get_state s = ss_state s"

definition get_id :: "Session \<Rightarrow> uint64" where
  [simp]: "get_id s = session_id s"

text \<open>\<open>initialize()\<close> with the results of the two \<open>fcntl\<close> calls.\<close>

definition initialize :: "bool \<Rightarrow> bool \<Rightarrow> Session \<Rightarrow> bool \<times> Session" where
  "initialize getfl_ok setfl_ok s =
     (if \<not> getfl_ok then (False, s)
      else if \<not> setfl_ok then (False, s)
      else (True, s\<lparr>ss_state := Active\<rparr>))"

definition close_session :: "Session \<Rightarrow> Session" where
  "close_session s =
     (if ss_state s = Closed \<or> ss_state s = Closing then s
      else s\<lparr>ss_state := Closed,
             read_buffer := clear (read_buffer s),
             write_buffer := clear (write_buffer s)\<rparr>)"

definition is_closed :: "Session \<Rightarrow> bool" where
  "is_closed s \<longleftrightarrow> ss_state s = Closed"

text \<open>\<open>~Session()\<close>: the descriptors it closes.\<close>

definition destroy_session :: "Session \<Rightarrow> int32 list" where
  "destroy_session s =
     (let s' = close_session s in if sint (client_fd s') \<ge> 0 then [client_fd s'] else [])"

section \<open>Reading\<close>

text \<open>
  When the buffer is full the function returns \<open>-1\<close> without a system call, so the
  caller sees the value \<open>errno\<close> happens to have: \<open>err0\<close>.
\<close>

definition grow_read_buffer :: "IOBuffer \<Rightarrow> IOBuffer" where
  "grow_read_buffer b =
     (if available_for_write b < 1024 then
        let new_size = min (length (buf_data b) * 2) MAX_BUFFER_SIZE
        in if new_size > length (buf_data b) then b\<lparr>buf_data := resize new_size (buf_data b)\<rparr> else b
      else b)"

definition read_from_socket ::
    "errno \<Rightarrow> Session \<Rightarrow> read_result list \<Rightarrow> (errno + nat) \<times> Session \<times> read_result list" where
  "read_from_socket err0 s inp =
     (let b = read_buffer s in
      if length (buf_data b) \<ge> MAX_BUFFER_SIZE then (Inl err0, s, inp)
      else
        let b1 = (if read_pos b > 0 \<and> available_for_read b > 0 then compact b else b);
            b2 = grow_read_buffer b1
        in case sys_read (available_for_write b2) inp of
             (Inl e, inp') \<Rightarrow> (Inl e, s\<lparr>read_buffer := b2\<rparr>, inp')
           | (Inr bs, inp') \<Rightarrow>
               let b3 = store_at_write_ptr bs b2;
                   b4 = (if length bs > 0 then advance_write (length bs) b3 else b3)
               in (Inr (length bs), s\<lparr>read_buffer := b4\<rparr>, inp'))"

text \<open>
  The callback: it may change the session and the world and may throw. \<open>handle_message\<close>
  catches what it throws and hands an internal error to the error handler; the one that the
  server gives its sessions only writes a log line.
\<close>

type_synonym ('j, 'w) handler =
  "'j RequestMessage \<Rightarrow> Session \<Rightarrow> 'w \<Rightarrow> Session \<times> 'w \<times> exn option"

definition handler_error :: "exn \<Rightarrow> 'j ProtocolError" where
  "handler_error e = \<lparr>pe_code = InternalError, pe_message = ''Internal error: '' @ what e, pe_data = None\<rparr>"

definition log_protocol_error :: "'j ProtocolError \<Rightarrow> Session \<times> 'w \<Rightarrow> Session \<times> 'w" where
  [simp]: "log_protocol_error err sw = sw"

definition handle_message ::
    "('j, 'w) handler option \<Rightarrow> 'j RequestMessage \<Rightarrow> Session \<Rightarrow> 'w \<Rightarrow> Session \<times> 'w" where
  "handle_message mh msg s w =
     (case mh of
        None \<Rightarrow> (s, w)
      | Some h \<Rightarrow>
          (case h msg s w of
             (s', w', None) \<Rightarrow> (s', w')
           | (s', w', Some e) \<Rightarrow> log_protocol_error (handler_error e :: 'j ProtocolError) (s', w')))"

definition process_message ::
    "'j json_api \<Rightarrow> ('j, 'w) handler option \<Rightarrow> 'j JsonMessage \<Rightarrow> Session \<Rightarrow> 'w \<Rightarrow> Session \<times> 'w" where
  "process_message J mh msg s w =
     (if is_request msg then handle_message mh (to_request J msg) s w else (s, w))"

partial_function (option) try_parse_messages ::
    "'j json_api \<Rightarrow> ('j, 'w) handler option \<Rightarrow> Session \<Rightarrow> 'w \<Rightarrow> (Session \<times> 'w) option" where
  "try_parse_messages J mh s w =
     (case try_parse J (ss_parser s) (get_read_view (read_buffer s)) of
        (None, n) \<Rightarrow> Some (s, w)
      | (Some msg, n) \<Rightarrow>
          (case process_message J mh msg s w of
             (s1, w1) \<Rightarrow>
               try_parse_messages J mh
                 (s1\<lparr>read_buffer := compact (advance_read n (read_buffer s1))\<rparr>) w1))"

partial_function (option) read_loop ::
    "'j json_api \<Rightarrow> ('j, 'w) handler option \<Rightarrow> errno \<Rightarrow> Session \<Rightarrow> 'w \<Rightarrow> read_result list \<Rightarrow>
      (bool \<times> Session \<times> 'w \<times> read_result list) option" where
  "read_loop J mh err0 s w inp =
     (case read_from_socket err0 s inp of
        (Inr n, s1, inp1) \<Rightarrow>
          if n > 0 then
            Option.bind (try_parse_messages J mh s1 w)
              (\<lambda>r. case r of (s2, w2) \<Rightarrow> read_loop J mh err0 s2 w2 inp1)
          else Some (False, close_session s1, w, inp1)
      | (Inl e, s1, inp1) \<Rightarrow>
          if e = EAGAIN then Some (True, s1\<lparr>ss_state := Active\<rparr>, w, inp1)
          else Some (False, close_session s1, w, inp1))"

definition on_readable ::
    "'j json_api \<Rightarrow> ('j, 'w) handler option \<Rightarrow> errno \<Rightarrow> Session \<Rightarrow> 'w \<Rightarrow> read_result list \<Rightarrow>
      (bool \<times> Session \<times> 'w \<times> read_result list) option" where
  "on_readable J mh err0 s w inp =
     (if ss_state s \<noteq> Active \<and> ss_state s \<noteq> Reading then Some (False, s, w, inp)
      else read_loop J mh err0 (s\<lparr>ss_state := Reading\<rparr>) w inp)"

section \<open>Writing\<close>

text \<open>
  The loop of \<open>on_writable\<close> with the bytes it hands to the kernel. \<open>::write\<close> accepts at
  most what it is offered; a count of 0 sends the code to the \<open>errno\<close> test.
\<close>

definition write_failed :: "errno \<Rightarrow> Session \<Rightarrow> bool \<times> Session" where
  "write_failed e s = (if e = EAGAIN then (True, s) else (False, close_session s))"

text \<open>\<open>write_to_socket\<close> with the result of \<open>::write\<close>: the returned count and \<open>errno\<close>.\<close>

definition write_to_socket :: "errno \<Rightarrow> Session \<Rightarrow> write_result \<Rightarrow> int \<times> errno" where
  "write_to_socket err0 s r =
     (if available_for_read (write_buffer s) = 0 then (0, err0)
      else
        (case r of
           WOk k \<Rightarrow> (int (min k (available_for_read (write_buffer s))), err0)
         | WErr e \<Rightarrow> (- 1, e)))"

fun write_loop :: "errno \<Rightarrow> Session \<Rightarrow> write_result list \<Rightarrow> bool \<times> Session \<times> string \<times> write_result list"
where
  "write_loop err0 s [] =
     (if available_for_read (write_buffer s) > 0 then (True, s, [], [])
      else (True, s\<lparr>ss_state := Active\<rparr>, [], []))"
| "write_loop err0 s (r # out) =
     (if available_for_read (write_buffer s) > 0 then
        (case write_to_socket err0 s r of
           (bytes_written, err) \<Rightarrow>
             if bytes_written > 0 then
               let n = nat bytes_written;
                   bs = take n (get_read_view (write_buffer s));
                   s' = s\<lparr>write_buffer := compact (advance_read n (write_buffer s))\<rparr>
               in (case write_loop err0 s' out of (ok, s'', sent, out') \<Rightarrow> (ok, s'', bs @ sent, out'))
             else (case write_failed err s of (ok, s') \<Rightarrow> (ok, s', [], out)))
      else (True, s\<lparr>ss_state := Active\<rparr>, [], r # out))"

definition on_writable ::
    "errno \<Rightarrow> Session \<Rightarrow> write_result list \<Rightarrow> bool \<times> Session \<times> string \<times> write_result list" where
  "on_writable err0 s out =
     (if ss_state s \<noteq> Writing then (True, s\<lparr>ss_state := Active\<rparr>, [], out)
      else write_loop err0 s out)"

text \<open>
  Queueing a response: \<open>resize\<close> the vector to the write position plus the text plus one,
  copy the text, add a newline. An exception of \<open>serialize\<close> leaves the session as it was.
\<close>

definition queue_text :: "string \<Rightarrow> IOBuffer \<Rightarrow> IOBuffer" where
  "queue_text json b =
     (let b1 = b\<lparr>buf_data := resize (write_pos b + length json + 1) (buf_data b)\<rparr>;
          b2 = store_at_write_ptr (json @ [newline]) b1
      in advance_write (length json + 1) b2)"

definition schedule_message :: "'j json_api \<Rightarrow> 'j JsonMessage \<Rightarrow> Session \<Rightarrow> Session res" where
  "schedule_message J msg s =
     res_bind (serialize J msg) (\<lambda>result.
       if result = [] then Inr s
       else Inr (s\<lparr>write_buffer := queue_text result (write_buffer s)\<rparr>))"

definition schedule_send :: "'j json_api \<Rightarrow> 'j ResponseMessage \<Rightarrow> Session \<Rightarrow> Session res" where
  "schedule_send J response s =
     schedule_message J
       (empty_message\<lparr>jm_id := rs_id response, jm_result := Some (rs_result response)\<rparr>) s"

definition schedule_send_error :: "'j json_api \<Rightarrow> 'j ErrorResponseMessage \<Rightarrow> Session \<Rightarrow> Session res" where
  "schedule_send_error J er s =
     schedule_message J
       (empty_message\<lparr>jm_id := er_id er, jm_error := Some (er_error er)\<rparr>) s"

section \<open>The read buffer\<close>

text \<open>
  Between two operations the read position is 0 and the vector has one of the sizes
  \<open>4096 * 2 ^ k\<close> up to the limit, because it starts at 4096 and is only ever doubled.
\<close>

definition rb_ok :: "IOBuffer \<Rightarrow> bool" where
  "rb_ok b \<longleftrightarrow> buf_ok b \<and> read_pos b = 0 \<and> (\<exists>k \<le> 8. length (buf_data b) = 4096 * 2 ^ k)"

lemma rb_ok_buf_ok [simp]: "rb_ok b \<Longrightarrow> buf_ok b"
  by (simp add: rb_ok_def)

lemma rb_ok_new [simp]: "rb_ok new_buffer"
  by (auto simp: rb_ok_def new_buffer_def buf_ok_def intro: exI [of _ 0])

lemma rb_ok_size:
  assumes "rb_ok b"
  shows "length (buf_data b) \<le> 2 ^ 20"
proof -
  obtain k where k: "k \<le> 8" "length (buf_data b) = 4096 * 2 ^ k" using assms by (auto simp: rb_ok_def)
  then have "(2 :: nat) ^ k \<le> 2 ^ 8" by (intro power_increasing) simp_all
  with k(2) show ?thesis by simp
qed

lemma rb_ok_clear: "rb_ok b \<Longrightarrow> rb_ok (clear b)"
  by (auto simp: rb_ok_def clear_def buf_ok_def)

lemma rb_ok_take_off:
  assumes "rb_ok b" and "n \<le> length (get_read_view b)"
  shows "rb_ok (compact (advance_read n b))"
    and "get_read_view (compact (advance_read n b)) = drop n (get_read_view b)"
    and "length (buf_data (compact (advance_read n b))) = length (buf_data b)"
proof -
  have ok: "buf_ok (advance_read n b)" using assms by (simp add: iob.invar_consume)
  show len: "length (buf_data (compact (advance_read n b))) = length (buf_data b)"
    by (simp add: compact_ok(4) [OF ok]) (simp add: advance_read_def)
  show "get_read_view (compact (advance_read n b)) = drop n (get_read_view b)"
    using assms by (simp add: iob.take_off)
  show "rb_ok (compact (advance_read n b))"
    using assms len compact_ok(2,3) [OF ok] by (auto simp: rb_ok_def)
qed

lemma size_below_limit:
  assumes "length (buf_data b) = 4096 * 2 ^ k" and "length (buf_data b) < MAX_BUFFER_SIZE"
  shows "k < 8"
proof (rule ccontr)
  assume "\<not> k < 8"
  then have "(2::nat) ^ 8 \<le> 2 ^ k" by (intro power_increasing) simp_all
  then show False using assms by (simp add: MAX_BUFFER_SIZE_def)
qed

lemma size_cases:
  assumes "rb_ok b"
  obtains k where "k \<le> 8" "length (buf_data b) = 4096 * 2 ^ k" "4096 \<le> length (buf_data b)"
proof -
  from assms obtain k where k: "k \<le> 8" "length (buf_data b) = 4096 * 2 ^ k"
    by (auto simp: rb_ok_def)
  moreover have "(1::nat) \<le> 2 ^ k" by simp
  ultimately show thesis by (intro that) simp_all
qed

lemma grow_read_buffer_cases:
  assumes "rb_ok b" and "length (buf_data b) < MAX_BUFFER_SIZE"
  obtains (same) "grow_read_buffer b = b" "1024 \<le> available_for_write b"
    | (doubled) "available_for_write b < 1024" "rb_ok (grow_read_buffer b)"
        "grow_read_buffer b = b\<lparr>buf_data := resize (2 * length (buf_data b)) (buf_data b)\<rparr>"
proof (cases "available_for_write b < 1024")
  case True
  obtain k where k: "length (buf_data b) = 4096 * 2 ^ k" "4096 \<le> length (buf_data b)"
    using size_cases [OF assms(1)] by blast
  have k8: "k < 8" using size_below_limit [OF k(1) assms(2)] .
  then have "(2::nat) ^ Suc k \<le> 2 ^ 8" by (intro power_increasing) simp_all
  then have "length (buf_data b) * 2 \<le> MAX_BUFFER_SIZE"
    using k(1) by (simp add: MAX_BUFFER_SIZE_def)
  with True k(2) have g: "grow_read_buffer b = b\<lparr>buf_data := resize (2 * length (buf_data b)) (buf_data b)\<rparr>"
    by (auto simp: grow_read_buffer_def Let_def mult.commute)
  have "length (resize (2 * length (buf_data b)) (buf_data b)) = 4096 * 2 ^ Suc k"
    using k(1) by simp
  then have "rb_ok (grow_read_buffer b)"
    using assms(1) k8 unfolding g rb_ok_def buf_ok_def by (auto intro!: exI [of _ "Suc k"])
  with True g show thesis by (intro doubled)
next
  case False
  then show thesis by (intro same) (simp_all add: grow_read_buffer_def)
qed

lemma rb_ok_positions:
  assumes "rb_ok b"
  shows "write_pos b = length (get_read_view b)" and "write_pos b \<le> length (buf_data b)"
    and "get_read_view b = take (write_pos b) (buf_data b)"
  using assms by (auto simp: rb_ok_def view_eq buf_ok_def)

lemma grow_read_buffer_ok:
  assumes "rb_ok b" and "length (buf_data b) < MAX_BUFFER_SIZE"
  shows "rb_ok (grow_read_buffer b)"
    and "get_read_view (grow_read_buffer b) = get_read_view b"
    and "1024 \<le> available_for_write (grow_read_buffer b)"
proof -
  have big: "4096 \<le> length (buf_data b)" using size_cases [OF assms(1)] by blast
  note pos = rb_ok_positions [OF assms(1)]
  show ok: "rb_ok (grow_read_buffer b)"
    using assms by (cases rule: grow_read_buffer_cases) (simp_all add: assms(1))
  show "get_read_view (grow_read_buffer b) = get_read_view b"
    using assms
    by (cases rule: grow_read_buffer_cases)
      (use pos rb_ok_positions(3) [OF ok] in \<open>simp_all add: take_resize\<close>)
  show "1024 \<le> available_for_write (grow_read_buffer b)"
    using assms
    by (cases rule: grow_read_buffer_cases)
      (use pos(2) big available_for_write_ok [of "grow_read_buffer b"] ok in simp_all)
qed

text \<open>The vector is doubled only when fewer than 1024 bytes are free.\<close>

lemma grow_read_buffer_size:
  assumes "rb_ok b" and "length (buf_data b) < MAX_BUFFER_SIZE"
    and "length (get_read_view b) + 1024 \<le> 2 ^ 19" and "length (buf_data b) \<le> 2 ^ 19"
  shows "length (buf_data (grow_read_buffer b)) \<le> 2 ^ 19"
  using assms(1,2)
proof (cases rule: grow_read_buffer_cases)
  case same
  with assms(4) show ?thesis by simp
next
  case doubled
  obtain k where k: "length (buf_data b) = 4096 * 2 ^ k" using size_cases [OF assms(1)] by blast
  have "length (buf_data b) < 2 ^ 19"
    using doubled(1) assms(1,3) rb_ok_positions(1) [OF assms(1)] by (simp add: available_for_write_ok)
  then have "(2::nat) ^ k < 2 ^ 7" using k by simp
  then have "k < 7" by (simp only: power_strict_increasing_iff)
  then have "(2::nat) ^ Suc k \<le> 2 ^ 7" by (intro power_increasing) simp_all
  then show ?thesis using k by (simp add: doubled(3))
qed

text \<open>
  \<open>read_from_socket\<close> below the limit: the call asks for at least 1024 bytes, so 0 bytes
  mean end of file, and what arrives is appended to the unread bytes.
\<close>

lemma read_from_socket_full:
  assumes "MAX_BUFFER_SIZE \<le> length (buf_data (read_buffer s))"
  shows "read_from_socket err0 s inp = (Inl err0, s, inp)"
  using assms by (simp add: read_from_socket_def)

lemma read_from_socket_below:
  assumes "rb_ok (read_buffer s)" and "length (buf_data (read_buffer s)) < MAX_BUFFER_SIZE"
  shows "read_from_socket err0 s inp =
    (case sys_read (available_for_write (grow_read_buffer (read_buffer s))) inp of
       (Inl e, inp') \<Rightarrow> (Inl e, s\<lparr>read_buffer := grow_read_buffer (read_buffer s)\<rparr>, inp')
     | (Inr bs, inp') \<Rightarrow>
         (Inr (length bs), s\<lparr>read_buffer := buf_fill bs (grow_read_buffer (read_buffer s))\<rparr>, inp'))"
proof -
  have "read_pos (read_buffer s) = 0" using assms(1) by (simp add: rb_ok_def)
  moreover have "overwrite n [] xs = xs" for n and xs :: string by (simp add: overwrite_def)
  ultimately show ?thesis
    using assms(2)
    by (auto simp: read_from_socket_def Let_def buf_fill_def store_at_write_ptr_def advance_write_def
        split: prod.splits sum.splits)
qed

lemma rb_ok_fill:
  assumes "rb_ok b" and "length bs \<le> available_for_write b"
  shows "rb_ok (buf_fill bs b)" and "get_read_view (buf_fill bs b) = get_read_view b @ bs"
    and "length (buf_data (buf_fill bs b)) = length (buf_data b)"
proof -
  show len: "length (buf_data (buf_fill bs b)) = length (buf_data b)"
    using assms rb_ok_positions(2) [OF assms(1)]
    by (simp add: buf_fill_def buffer_defs available_for_write_ok)
  show "get_read_view (buf_fill bs b) = get_read_view b @ bs"
    using assms by (simp add: iob.contents_fill)
  show "rb_ok (buf_fill bs b)"
    using assms len iob.invar_fill [of b bs]
    by (auto simp: rb_ok_def) (auto simp: buf_fill_def advance_write_def store_at_write_ptr_def)
qed

lemma sys_read_bound: "sys_read n inp = (Inr bs, inp') \<Longrightarrow> length bs \<le> n"
  by (cases "(n, inp)" rule: sys_read.cases) (auto split: if_splits)

definition pending :: "read_result list \<Rightarrow> nat" where
  "pending inp = sum_list (map (\<lambda>r. case r of RData bs \<Rightarrow> length bs | _ \<Rightarrow> 0) inp)"

lemma sys_read_pending:
  "sys_read n inp = (Inr bs, inp') \<Longrightarrow> pending inp = length bs + pending inp'"
  by (cases "(n, inp)" rule: sys_read.cases) (auto simp: pending_def split: if_splits)

text \<open>A read from pending data takes a first piece of it.\<close>

lemma sys_read_data:
  assumes "\<forall>d \<in> set cs. d \<noteq> []" and "cs \<noteq> []" and "0 < n"
  obtains bs cs' where "sys_read n (map RData cs) = (Inr bs, map RData cs')" "bs \<noteq> []"
    "bs @ concat cs' = concat cs" "\<forall>d \<in> set cs'. d \<noteq> []"
proof -
  obtain d ds where cs: "cs = d # ds" using assms(2) by (cases cs) auto
  show thesis
  proof (cases "length d \<le> n")
    case True
    with assms cs show thesis by (intro that [of d ds]) auto
  next
    case False
    with assms cs show thesis
      by (intro that [of "take n d" "drop n d # ds"]) (auto simp flip: append_assoc)
  qed
qed

text \<open>One round of the read loop that got data.\<close>

lemma read_loop_round:
  assumes "rb_ok (read_buffer s)" and "length (buf_data (read_buffer s)) < MAX_BUFFER_SIZE"
    and "sys_read (available_for_write (grow_read_buffer (read_buffer s))) inp = (Inr bs, inp')" and "bs \<noteq> []"
  shows "read_loop J mh err0 s w inp =
    Option.bind (try_parse_messages J mh (s\<lparr>read_buffer := buf_fill bs (grow_read_buffer (read_buffer s))\<rparr>) w)
      (\<lambda>r. case r of (s2, w2) \<Rightarrow> read_loop J mh err0 s2 w2 inp')"
  using assms(3,4) by (simp add: read_loop.simps [of J _ err0 s] read_from_socket_below [OF assms(1,2)])

section \<open>The contract of the message callback\<close>

text \<open>
  While the session works on its read buffer the callback must leave the buffer, the
  parser and the state alone; it may queue responses and change the world.
\<close>

locale message_handler =
  fixes h :: "('j, 'w) handler"
  assumes keeps: "h m s w = (s', w', e) \<Longrightarrow>
    read_buffer s' = read_buffer s \<and> ss_parser s' = ss_parser s \<and> ss_state s' = ss_state s"
    and keeps_wb: "h m s w = (s', w', e) \<Longrightarrow> buf_ok (write_buffer s) \<Longrightarrow> buf_ok (write_buffer s')"

text \<open>The same callback with a ghost list of the requests it was given.\<close>

definition logged :: "('j, 'w) handler \<Rightarrow> ('j, 'w \<times> 'j RequestMessage list) handler" where
  "logged h m s wl =
     (case h m s (fst wl) of (s', w', e) \<Rightarrow> (s', (w', snd wl @ [m]), e))"

abbreviation requests :: "'j json_api \<Rightarrow> 'j JsonMessage list \<Rightarrow> 'j RequestMessage list" where
  "requests J ms \<equiv> map (to_request J) (filter is_request ms)"

abbreviation stream :: "'j json_api \<Rightarrow> Session \<Rightarrow> string \<Rightarrow> 'j JsonMessage list \<times> string" where
  "stream J s \<equiv> drain (try_parse J (ss_parser s))"

context message_handler
begin

lemma process_message_keeps:
  assumes "process_message J (Some h) msg s w = (s1, w1)"
  shows "read_buffer s1 = read_buffer s" "ss_parser s1 = ss_parser s" "ss_state s1 = ss_state s"
  using assms keeps
  by (fastforce simp: process_message_def handle_message_def split: if_splits prod.splits option.splits)+

lemma process_message_wb:
  assumes "process_message J (Some h) msg s w = (s1, w1)" and "buf_ok (write_buffer s)"
  shows "buf_ok (write_buffer s1)"
  using assms keeps_wb
  by (fastforce simp: process_message_def handle_message_def split: if_splits prod.splits option.splits)

lemma process_message_logged:
  assumes "process_message J (Some h) msg s w = (s1, w1)"
  shows "process_message J (Some (logged h)) msg s (w, l) = (s1, (w1, l @ requests J [msg]))"
  using assms
  by (auto simp: process_message_def handle_message_def logged_def split: prod.splits option.splits)

text \<open>
  The parsing loop returns, dispatches exactly the requests of the stream in order, and
  leaves what \<open>drain\<close> leaves.
\<close>

lemma try_parse_messages_spec:
  assumes "rb_ok (read_buffer s)"
  shows "\<exists>s' w'. try_parse_messages J (Some h) s w = Some (s', w') \<and>
    try_parse_messages J (Some (logged h)) s (w, l) =
      Some (s', (w', l @ requests J (fst (stream J s (get_read_view (read_buffer s)))))) \<and>
    get_read_view (read_buffer s') = snd (stream J s (get_read_view (read_buffer s))) \<and>
    rb_ok (read_buffer s') \<and> length (buf_data (read_buffer s')) = length (buf_data (read_buffer s)) \<and>
    ss_parser s' = ss_parser s \<and> ss_state s' = ss_state s \<and>
    (buf_ok (write_buffer s) \<longrightarrow> buf_ok (write_buffer s'))"
  using assms
proof (induction "length (get_read_view (read_buffer s))" arbitrary: s w l rule: less_induct)
  case less
  let ?v = "get_read_view (read_buffer s)"
  obtain r n where rn: "try_parse J (ss_parser s) ?v = (r, n)" by fastforce
  show ?case
  proof (cases r)
    case None
    with rn less.prems show ?thesis
      by (simp add: try_parse_messages.simps [of J _ s] jp.drain_None)
  next
    case (Some msg)
    with rn have tp: "try_parse J (ss_parser s) ?v = (Some msg, n)" by simp
    note n = jp.progress [OF tp]
    obtain s1 w1 where p: "process_message J (Some h) msg s w = (s1, w1)" by fastforce
    note k = process_message_keeps [OF p]
    let ?s2 = "s1\<lparr>read_buffer := compact (advance_read n (read_buffer s1))\<rparr>"
    have off: "rb_ok (read_buffer ?s2)" "get_read_view (read_buffer ?s2) = drop n ?v"
        "length (buf_data (read_buffer ?s2)) = length (buf_data (read_buffer s))"
      using rb_ok_take_off [OF less.prems, of n] n k(1) by simp_all
    have "length (get_read_view (read_buffer ?s2)) < length ?v" using off(2) n by auto
    from less.hyps [OF this off(1), of w1 "l @ requests J [msg]"] show ?thesis
      using tp p process_message_logged [OF p, of l] process_message_wb [OF p] k off jp.drain_Some [OF tp]
      by (cases "is_request msg") (fastforce simp: try_parse_messages.simps [of J _ s])+
  qed
qed

text \<open>
  The reading loop returns for every script of the kernel: a read either fails, or takes some
  of the pending bytes, or finds the end of the stream.
\<close>

lemma read_from_socket_result:
  assumes "rb_ok (read_buffer s)" and "read_from_socket err0 s inp = (r, s1, inp1)"
  shows "rb_ok (read_buffer s1) \<and> ss_parser s1 = ss_parser s \<and> ss_state s1 = ss_state s \<and>
    write_buffer s1 = write_buffer s \<and> (\<forall>n. r = Inr n \<longrightarrow> 0 < n \<longrightarrow> pending inp1 < pending inp)"
proof (cases "length (buf_data (read_buffer s)) < MAX_BUFFER_SIZE")
  case False
  with assms show ?thesis by (auto simp: read_from_socket_full)
next
  case True
  note g = grow_read_buffer_ok [OF assms(1) True]
  obtain x inp' where x: "sys_read (available_for_write (grow_read_buffer (read_buffer s))) inp = (x, inp')" by fastforce
  show ?thesis
  proof (cases x)
    case (Inl e)
    with x g assms(2) show ?thesis by (auto simp: read_from_socket_below [OF assms(1) True])
  next
    case (Inr bs)
    then have "rb_ok (buf_fill bs (grow_read_buffer (read_buffer s)))"
      using rb_ok_fill(1) [OF g(1)] x sys_read_bound by simp
    moreover have "pending inp' < pending inp" if "bs \<noteq> []"
      using sys_read_pending x Inr that by (metis length_greater_0_conv less_add_same_cancel2)
    ultimately show ?thesis using x Inr assms(2) by (auto simp: read_from_socket_below [OF assms(1) True])
  qed
qed

lemma close_session_ok:
  assumes "rb_ok (read_buffer s)" and "ss_state s = Reading"
  shows "rb_ok (read_buffer (close_session s)) \<and> ss_parser (close_session s) = ss_parser s \<and>
    ss_state (close_session s) = Closed \<and> buf_ok (write_buffer (close_session s))"
  using assms by (auto simp: close_session_def rb_ok_clear view_clear)

lemma read_loop_total:
  assumes "rb_ok (read_buffer s)" and "ss_state s = Reading"
  shows "\<exists>ok s' w' inp'. read_loop J (Some h) err0 s w inp = Some (ok, s', w', inp') \<and>
    rb_ok (read_buffer s') \<and> ss_parser s' = ss_parser s \<and>
    ss_state s' = (if ok then Active else Closed) \<and>
    (buf_ok (write_buffer s) \<longrightarrow> buf_ok (write_buffer s'))"
  using assms
proof (induction "pending inp" arbitrary: s w inp rule: less_induct)
  case less
  obtain r s1 inp1 where r: "read_from_socket err0 s inp = (r, s1, inp1)" by (metis prod_cases3)
  note s1 = read_from_socket_result [OF less.prems(1) r]
  show ?case
  proof (cases "\<exists>n. r = Inr n \<and> 0 < n")
    case False
    with r s1 less.prems(2) close_session_ok [of s1] show ?thesis
      by (cases r) (auto simp: read_loop.simps [of J _ err0 s])
  next
    case True
    then obtain n where n: "r = Inr n" "0 < n" by blast
    obtain s2 w2 where m: "try_parse_messages J (Some h) s1 w = Some (s2, w2)"
        "rb_ok (read_buffer s2)" "ss_parser s2 = ss_parser s" "ss_state s2 = Reading"
        "buf_ok (write_buffer s) \<longrightarrow> buf_ok (write_buffer s2)"
      using less.prems(2) s1 try_parse_messages_spec [of s1 J w "[]"] by auto
    from less.hyps [of inp1, OF _ m(2,4), of w2] show ?thesis
      using r n m s1 by (auto simp: read_loop.simps [of J _ err0 s])
  qed
qed

text \<open>One read of the next bytes of a stream of chunks.\<close>

lemma read_chunk:
  assumes rb: "rb_ok (read_buffer s)" and below: "length (buf_data (read_buffer s)) < MAX_BUFFER_SIZE"
    and "[] \<notin> set cs" and "cs \<noteq> []"
  obtains bs ds where
    "sys_read (available_for_write (grow_read_buffer (read_buffer s))) (map RData cs) = (Inr bs, map RData ds)"
    "bs \<noteq> []" "concat cs = bs @ concat ds" "[] \<notin> set ds"
    "rb_ok (buf_fill bs (grow_read_buffer (read_buffer s)))"
    "get_read_view (buf_fill bs (grow_read_buffer (read_buffer s))) = get_read_view (read_buffer s) @ bs"
    "length (buf_data (buf_fill bs (grow_read_buffer (read_buffer s)))) = length (buf_data (grow_read_buffer (read_buffer s)))"
proof -
  let ?g = "grow_read_buffer (read_buffer s)"
  note g = grow_read_buffer_ok [OF rb below]
  have "\<forall>d \<in> set cs. d \<noteq> []" using assms(3) by metis
  then obtain bs ds where read: "sys_read (available_for_write ?g) (map RData cs) = (Inr bs, map RData ds)"
      "bs \<noteq> []" and "bs @ concat ds = concat cs" "\<forall>d \<in> set ds. d \<noteq> []"
    using sys_read_data [OF _ assms(4), of "available_for_write ?g"] g(3) by (metis less_le_trans zero_less_numeral)
  then show thesis
    using rb_ok_fill [OF g(1), of bs] g(2) sys_read_bound [OF read(1)] by (intro that [of bs ds]) auto
qed

text \<open>
  A session whose buffered bytes hold no complete message and whose vector is below its
  last doubling: chunks of data are dispatched as the one stream they form, whatever the
  kernel's cuts and the buffer's growth are.
\<close>

lemma read_loop_dispatch:
  assumes "rb_ok (read_buffer s)" and "length (buf_data (read_buffer s)) \<le> 2 ^ 19"
    and "2 ^ 19 \<le> max_message_size (ss_parser s)"
    and "fst (try_parse J (ss_parser s) (get_read_view (read_buffer s))) = None"
    and "[] \<notin> set cs"
    and "length (get_read_view (read_buffer s) @ concat cs) + 1024 \<le> 2 ^ 19"
  shows "\<exists>s' w'. read_loop J (Some (logged h)) err0 s (w, l) (map RData cs) =
      Some (True, s',
        (w', l @ requests J (fst (stream J s (get_read_view (read_buffer s) @ concat cs)))), []) \<and>
    read_loop J (Some h) err0 s w (map RData cs) = Some (True, s', w', []) \<and>
    get_read_view (read_buffer s') = snd (stream J s (get_read_view (read_buffer s) @ concat cs)) \<and>
    ss_state s' = Active"
  using assms
proof (induction "length (concat cs)" arbitrary: cs s w l rule: less_induct)
  case less
  let ?b = "read_buffer s" and ?v = "get_read_view (read_buffer s)"
  have below: "length (buf_data ?b) < MAX_BUFFER_SIZE"
    using less.prems(2) by (simp add: MAX_BUFFER_SIZE_def)
  note rb = less.prems(1)
  let ?g = "grow_read_buffer ?b"
  note g = grow_read_buffer_ok [OF rb below]
  have quiet: "stream J s ?v = ([], ?v)"
    using less.prems(4) jp.drain_None by (metis prod.collapse)
  show ?case
  proof (cases "cs = []")
    case True
    then show ?thesis
      using g quiet
      by (simp add: read_loop.simps [of J _ err0 s] read_from_socket_below [OF rb below])
  next
    case False
    obtain bs ds where read: "sys_read (available_for_write ?g) (map RData cs) = (Inr bs, map RData ds)" "bs \<noteq> []"
        and split: "concat cs = bs @ concat ds" and ds: "[] \<notin> set ds"
        and fill: "rb_ok (buf_fill bs ?g)" "get_read_view (buf_fill bs ?g) = ?v @ bs"
          "length (buf_data (buf_fill bs ?g)) = length (buf_data ?g)"
      by (rule read_chunk [OF rb below less.prems(5) False])
    let ?s1 = "s\<lparr>read_buffer := buf_fill bs ?g\<rparr>"
    have size: "length (buf_data ?g) \<le> 2 ^ 19"
      using less.prems(2,6) by (intro grow_read_buffer_size [OF rb below]) simp_all
    obtain s2 w2 where m: "try_parse_messages J (Some (logged h)) ?s1 (w, l) =
          Some (s2, (w2, l @ requests J (fst (stream J s (?v @ bs)))))"
        "try_parse_messages J (Some h) ?s1 w = Some (s2, w2)"
        "get_read_view (read_buffer s2) = snd (stream J s (?v @ bs))" "rb_ok (read_buffer s2)"
        "length (buf_data (read_buffer s2)) \<le> 2 ^ 19" "ss_parser s2 = ss_parser s"
      using try_parse_messages_spec [of ?s1 J w l] fill size by auto
    note rest = jp.drain_rest [of J "ss_parser s" "?v @ bs"]
    have "length (concat ds) < length (concat cs)" using read(2) split by simp
    moreover have "length (get_read_view (read_buffer s2) @ concat ds) + 1024 \<le> 2 ^ 19"
      using less.prems(6) rest(1) m(3) split by simp
    moreover have "fst (try_parse J (ss_parser s2) (get_read_view (read_buffer s2))) = None"
      using rest(2) m(3,6) by auto
    ultimately obtain s' w' where
        "read_loop J (Some (logged h)) err0 s2
           (w2, l @ requests J (fst (stream J s (?v @ bs)))) (map RData ds) =
         Some (True, s', (w', (l @ requests J (fst (stream J s (?v @ bs)))) @
           requests J (fst (stream J s2 (get_read_view (read_buffer s2) @ concat ds)))), [])"
        "read_loop J (Some h) err0 s2 w2 (map RData ds) = Some (True, s', w', [])"
        "get_read_view (read_buffer s') = snd (stream J s2 (get_read_view (read_buffer s2) @ concat ds))"
        "ss_state s' = Active"
      using less.hyps [of ds s2 w2] m(4,5,6) less.prems(3) ds by fastforce
    moreover have "length ((?v @ bs) @ concat ds) < max_message_size (ss_parser s)"
      using less.prems(3,6) split by simp
    ultimately show ?thesis
      using jp.drain_append [of "?v @ bs" "concat ds" "ss_parser s" J] m(1,2,3,6) split
      by (simp add: read_loop_round [OF rb below read])
  qed
qed

lemma message_handler_logged: "message_handler (logged h)"
  by unfold_locales (auto simp: logged_def keeps keeps_wb split: prod.splits)

end

section \<open>The write side\<close>

text \<open>Queueing appends the text and one newline to the unsent bytes.\<close>

lemma queue_text_ok:
  assumes "buf_ok b"
  shows "get_read_view (queue_text t b) = get_read_view b @ t @ [newline]"
    and "buf_ok (queue_text t b)"
proof -
  let ?b1 = "b\<lparr>buf_data := resize (write_pos b + length t + 1) (buf_data b)\<rparr>"
  have ok: "buf_ok ?b1" using assms by (simp add: buf_ok_def)
  have view: "get_read_view ?b1 = get_read_view b"
    using assms view_eq [OF ok] by (simp add: view_eq buf_ok_def take_resize)
  have room: "length (t @ [newline]) \<le> available_for_write ?b1"
    using available_for_write_ok [OF ok] by simp
  have q: "queue_text t b = buf_fill (t @ [newline]) ?b1"
    by (simp add: queue_text_def buf_fill_def Let_def)
  show "get_read_view (queue_text t b) = get_read_view b @ t @ [newline]"
    unfolding q iob.contents_fill [OF ok room] view ..
  show "buf_ok (queue_text t b)"
    unfolding q by (rule iob.invar_fill [OF ok room])
qed

text \<open>What \<open>schedule_send\<close> and \<open>schedule_send_error\<close> do, in one rule.\<close>

lemma schedule_message_ok:
  assumes "schedule_message J msg s = Inr s'"
  obtains t where "serialize J msg = Inr t"
    "s' = s\<lparr>write_buffer := queue_text t (write_buffer s)\<rparr>"
proof -
  from assms obtain t where t: "serialize J msg = Inr t"
      "(if t = [] then Inr s else Inr (s\<lparr>write_buffer := queue_text t (write_buffer s)\<rparr>)) = (Inr s' :: Session res)"
    by (auto simp: schedule_message_def res_bind_Inr_iff)
  have "t \<noteq> []" using t(1) by (auto simp: serialize_def res_bind_Inr_iff)
  with t show thesis by (intro that) auto
qed

lemma schedule_message_keeps:
  assumes "schedule_message J msg s = Inr s'"
  shows "read_buffer s' = read_buffer s" "ss_parser s' = ss_parser s" "ss_state s' = ss_state s"
    "client_fd s' = client_fd s" "session_id s' = session_id s"
    "buf_ok (write_buffer s) \<Longrightarrow> buf_ok (write_buffer s')"
  using schedule_message_ok [OF assms] queue_text_ok(2) by (metis Session.select_convs Session.update_convs(4) Session.surjective)+

text \<open>
  Partial writes lose nothing: what was handed to the kernel followed by what is still
  queued is what was queued before.
\<close>

lemma write_to_socket_bound:
  "write_to_socket err0 s r = (k, e) \<Longrightarrow> k \<le> int (available_for_read (write_buffer s))"
  by (auto simp: write_to_socket_def split: if_splits write_result.splits)

lemma write_loop_conserves:
  assumes "buf_ok (write_buffer s)" and "write_loop err0 s out = (True, s', sent, out')"
  shows "sent @ get_read_view (write_buffer s') = get_read_view (write_buffer s) \<and>
    buf_ok (write_buffer s')"
  using assms
proof (induction out arbitrary: s sent)
  case Nil
  then show ?case by (auto split: if_splits)
next
  case (Cons r out)
  show ?case
  proof (cases "available_for_read (write_buffer s) > 0")
    case False
    with Cons.prems show ?thesis by auto
  next
    case True
    obtain k err where k: "write_to_socket err0 s r = (k, err)" by fastforce
    show ?thesis
    proof (cases "k > 0")
      case False
      with True k Cons.prems show ?thesis by (auto simp: write_failed_def split: if_splits)
    next
      case pos: True
      let ?s' = "s\<lparr>write_buffer := compact (advance_read (nat k) (write_buffer s))\<rparr>"
      obtain ok s2 sent2 out2 where w: "write_loop err0 ?s' out = (ok, s2, sent2, out2)"
        by (metis prod_cases4)
      have le: "nat k \<le> length (get_read_view (write_buffer s))"
        using Cons.prems(1) write_to_socket_bound [OF k] by (simp add: available_for_read_ok)
      have "(ok, s2, take (nat k) (get_read_view (write_buffer s)) @ sent2, out2) = (True, s', sent, out')"
        using True pos k w Cons.prems(2) by (simp add: Let_def)
      moreover have "buf_ok (write_buffer ?s')"
        using iob.take_off(2) [OF Cons.prems(1) le] by simp
      ultimately show ?thesis
        using Cons.IH [of ?s' sent2] w iob.take_off(1) [OF Cons.prems(1) le]
        by (auto simp: append_assoc)
    qed
  qed
qed

section \<open>The life of a session\<close>

inductive session_reach :: "'j json_api \<Rightarrow> ('j, 'w) handler \<Rightarrow> Session \<Rightarrow> bool" for J h where
  created: "session_reach J h (fst (new_session i fd))"
| initialized: "session_reach J h s \<Longrightarrow> session_reach J h (snd (initialize a b s))"
| readable: "session_reach J h s \<Longrightarrow> on_readable J (Some h) err0 s w inp = Some (ok, s', w', inp') \<Longrightarrow>
    session_reach J h s'"
| writable: "session_reach J h s \<Longrightarrow> on_writable err0 s out = (ok, s', sent, out') \<Longrightarrow>
    session_reach J h s'"
| sent: "session_reach J h s \<Longrightarrow> schedule_send J r s = Inr s' \<Longrightarrow> session_reach J h s'"
| sent_error: "session_reach J h s \<Longrightarrow> schedule_send_error J e s = Inr s' \<Longrightarrow> session_reach J h s'"
| closed: "session_reach J h s \<Longrightarrow> session_reach J h (close_session s)"

definition session_inv :: "Session \<Rightarrow> bool" where
  "session_inv s \<longleftrightarrow> ss_state s \<noteq> Writing \<and> ss_state s \<noteq> Closing \<and> rb_ok (read_buffer s) \<and>
     buf_ok (write_buffer s) \<and> ss_parser s = default_parser"

lemma session_inv_new: "session_inv (fst (new_session i fd))"
  by (simp add: session_inv_def new_session_def)

text \<open>
  When a session can take the chunks \<open>cs\<close>: it is active, its buffer holds no complete message
  and can still be doubled once more than the bytes need.
\<close>

definition takes :: "'j json_api \<Rightarrow> Session \<Rightarrow> string list \<Rightarrow> bool" where
  "takes J s cs \<longleftrightarrow> ss_state s = Active \<and> length (buf_data (read_buffer s)) \<le> 2 ^ 19 \<and> [] \<notin> set cs \<and>
     fst (try_parse J default_parser (get_read_view (read_buffer s))) = None \<and>
     length (get_read_view (read_buffer s) @ concat cs) + 1024 \<le> 2 ^ 19"

context message_handler
begin

lemma on_readable_dispatch:
  assumes "session_inv s" and "takes J s cs"
  shows "\<exists>s' w'. on_readable J (Some (logged h)) err0 s (w, l) (map RData cs) =
      Some (True, s', (w', l @ requests J (fst (drain (try_parse J default_parser)
        (get_read_view (read_buffer s) @ concat cs)))), []) \<and>
    on_readable J (Some h) err0 s w (map RData cs) = Some (True, s', w', []) \<and>
    get_read_view (read_buffer s') =
      snd (drain (try_parse J default_parser) (get_read_view (read_buffer s) @ concat cs)) \<and>
    ss_state s' = Active"
proof -
  have p: "ss_parser s = default_parser" "rb_ok (read_buffer s)"
    using assms(1) by (simp_all add: session_inv_def)
  have "(2::nat) ^ 19 \<le> max_message_size default_parser"
    by (simp add: default_parser_def DEFAULT_MAX_MESSAGE_SIZE_def)
  then show ?thesis
    using read_loop_dispatch [of "s\<lparr>ss_state := Reading\<rparr>" J cs err0 w l] assms(2) p
    by (simp add: on_readable_def takes_def)
qed

end

lemma session_inv_close: "session_inv s \<Longrightarrow> session_inv (close_session s)"
  by (auto simp: session_inv_def close_session_def rb_ok_clear view_clear)

lemma session_inv_initialize: "session_inv s \<Longrightarrow> session_inv (snd (initialize a b s))"
  by (auto simp: session_inv_def initialize_def)

lemma session_inv_writable:
  "session_inv s \<Longrightarrow> on_writable err0 s out = (True, s\<lparr>ss_state := Active\<rparr>, [], out)"
  "session_inv s \<Longrightarrow> session_inv (s\<lparr>ss_state := Active\<rparr>)"
  by (auto simp: session_inv_def on_writable_def)

lemma session_inv_schedule:
  "session_inv s \<Longrightarrow> schedule_message J msg s = Inr s' \<Longrightarrow> session_inv s'"
  using schedule_message_keeps [of J msg s s'] by (simp add: session_inv_def)

context message_handler
begin

lemma on_readable_total:
  assumes "session_inv s"
  shows "\<exists>ok s' w' inp'. on_readable J (Some h) err0 s w inp = Some (ok, s', w', inp') \<and>
    session_inv s' \<and> (ok \<longrightarrow> ss_state s' = Active) \<and> (\<not> ok \<longrightarrow> ss_state s' = Closed)"
proof (cases "ss_state s = Active \<or> ss_state s = Reading")
  case True
  let ?s = "s\<lparr>ss_state := Reading\<rparr>"
  have "rb_ok (read_buffer ?s)" "ss_state ?s = Reading"
    using assms by (simp_all add: session_inv_def)
  from read_loop_total [OF this, of J err0 w inp] True assms show ?thesis
    by (force simp: on_readable_def session_inv_def)
next
  case False
  with assms have "ss_state s = Closed" by (cases "ss_state s") (auto simp: session_inv_def)
  with assms show ?thesis by (auto simp: on_readable_def intro: exI [of _ False])
qed

lemma session_reach_inv: "session_reach J h s \<Longrightarrow> session_inv s"
proof (induction rule: session_reach.induct)
  case (readable s err0 w inp ok s' w' inp')
  then show ?case using on_readable_total [of s J err0 w inp] by fastforce
next
  case (writable s err0 out ok s' sent out')
  then show ?case by (auto simp: session_inv_writable)
next
  case (sent s r s')
  then show ?case by (auto simp: schedule_send_def intro: session_inv_schedule)
next
  case (sent_error s e s')
  then show ?case by (auto simp: schedule_send_error_def intro: session_inv_schedule)
qed (simp_all add: session_inv_new session_inv_initialize session_inv_close)

end

section \<open>What a callback keeps of the world\<close>

text \<open>
  A callback that keeps a property \<open>I\<close> of the world, of the session's identity and of what
  it has queued: then \<open>I\<close> holds after \<open>on_readable\<close> as long as the session is open, and
  \<open>E\<close>, which must not depend on the queue, after it was closed.
\<close>

locale queue_handler = message_handler h for h :: "('j, 'w) handler" +
  fixes I E :: "Session \<Rightarrow> 'w \<Rightarrow> bool"
  assumes I_step: "I s w \<Longrightarrow> h m s w = (s', w', e) \<Longrightarrow> I s' w'"
    and I_queue: "I s w \<Longrightarrow> client_fd t = client_fd s \<Longrightarrow> session_id t = session_id s \<Longrightarrow>
      write_buffer t = write_buffer s \<Longrightarrow> I t w"
    and I_end: "I s w \<Longrightarrow> client_fd t = client_fd s \<Longrightarrow> session_id t = session_id s \<Longrightarrow> E t w"
begin

lemma process_message_I:
  "I s w \<Longrightarrow> process_message J (Some h) msg s w = (s', w') \<Longrightarrow> I s' w'"
  by (auto simp: process_message_def handle_message_def split: if_splits prod.splits option.splits
      dest: I_step)

lemma try_parse_messages_I:
  assumes "try_parse_messages J (Some h) s w = Some r" and "I s w"
  shows "I (fst r) (snd r)"
proof -
  have "mh = Some h \<longrightarrow> I s w \<longrightarrow> I (fst r) (snd r)"
    if "try_parse_messages J mh s w = Some r" for J mh s w r
    using that
  proof (rule try_parse_messages.raw_induct
      [where P = "\<lambda>J mh s w r. mh = Some h \<longrightarrow> I s w \<longrightarrow> I (fst r) (snd r)", rotated])
    fix tpm J mh s w r
    assume 1: "\<And>J mh s w r. tpm J mh s w = Some r \<Longrightarrow> mh = Some h \<longrightarrow> I s w \<longrightarrow> I (fst r) (snd r)"
      "(case try_parse J (ss_parser s) (get_read_view (read_buffer s)) of
          (None, n) \<Rightarrow> Some (s, w)
        | (Some msg, n) \<Rightarrow>
            (case process_message J mh msg s w of
               (s1, w1) \<Rightarrow> tpm J mh
                 (s1\<lparr>read_buffer := compact (advance_read n (read_buffer s1))\<rparr>) w1)) = Some r"
    show "mh = Some h \<longrightarrow> I s w \<longrightarrow> I (fst r) (snd r)"
    proof (intro impI)
      assume mh: "mh = Some h" and I: "I s w"
      obtain m n where mn: "try_parse J (ss_parser s) (get_read_view (read_buffer s)) = (m, n)"
        by fastforce
      show "I (fst r) (snd r)"
      proof (cases m)
        case None
        with 1(2) mn I show ?thesis by auto
      next
        case (Some msg)
        obtain s1 w1 where p: "process_message J (Some h) msg s w = (s1, w1)" by fastforce
        with 1(2) mn mh Some have
          "tpm J mh (s1\<lparr>read_buffer := compact (advance_read n (read_buffer s1))\<rparr>) w1 = Some r"
          by simp
        from 1(1) [OF this] mh I_queue [OF process_message_I [OF I p]] show ?thesis by simp
      qed
    qed
  qed
  with assms show ?thesis by blast
qed

lemma read_loop_I:
  assumes "read_loop J (Some h) err0 s w inp = Some (ok, s', w', inp')" and "I s w"
  shows "if ok then I s' w' else E s' w'"
proof -
  let ?P = "\<lambda>J mh err0 s w inp r. mh = Some h \<longrightarrow> I s w \<longrightarrow>
    (if fst r then I else E) (fst (snd r)) (fst (snd (snd r)))"
  have "?P J mh err0 s w inp r" if "read_loop J mh err0 s w inp = Some r" for J mh err0 s w inp r
    using that
  proof (rule read_loop.raw_induct [where P = ?P, rotated])
    fix rl J mh err0 s w inp r
    assume 1: "\<And>J mh err0 s w inp r. rl J mh err0 s w inp = Some r \<Longrightarrow> ?P J mh err0 s w inp r"
      "(case read_from_socket err0 s inp of
          (Inr n, s1, inp1) \<Rightarrow>
            if n > 0 then
              Option.bind (try_parse_messages J mh s1 w)
                (\<lambda>r. case r of (s2, w2) \<Rightarrow> rl J mh err0 s2 w2 inp1)
            else Some (False, close_session s1, w, inp1)
        | (Inl e, s1, inp1) \<Rightarrow>
            if e = EAGAIN then Some (True, s1\<lparr>ss_state := Active\<rparr>, w, inp1)
            else Some (False, close_session s1, w, inp1)) = Some r"
    show "?P J mh err0 s w inp r"
    proof (intro impI)
      assume mh: "mh = Some h" and I: "I s w"
      obtain x s1 inp1 where x: "read_from_socket err0 s inp = (x, s1, inp1)" by (metis prod_cases3)
      then have "client_fd s1 = client_fd s" "session_id s1 = session_id s" "write_buffer s1 = write_buffer s"
        by (auto simp: read_from_socket_def Let_def split: if_splits prod.splits sum.splits)
      with I I_queue have I1: "I s1 w" by simp
      show "(if fst r then I else E) (fst (snd r)) (fst (snd (snd r)))"
      proof (cases "\<exists>n. x = Inr n \<and> n > 0")
        case True
        then obtain s2 w2 where m: "try_parse_messages J (Some h) s1 w = Some (s2, w2)"
            and rl: "rl J mh err0 s2 w2 inp1 = Some r"
          using 1(2) x mh by (auto simp: bind_eq_Some_conv)
        from try_parse_messages_I [OF m I1] have "I s2 w2" by simp
        with 1(1) [OF rl] mh show ?thesis by simp
      next
        case False
        have "I (s1\<lparr>ss_state := Active\<rparr>) w" by (rule I_queue [OF I1]) simp_all
        moreover have "E (close_session s1) w" by (rule I_end [OF I1]) (simp_all add: close_session_def)
        ultimately show ?thesis using 1(2) x False by (auto split: if_splits sum.splits)
      qed
    qed
  qed
  from this [OF assms(1)] assms(2) show ?thesis by (auto split: if_splits)
qed

lemma on_readable_I:
  assumes "on_readable J (Some h) err0 s w inp = Some (ok, s', w', inp')" and "I s w"
  shows "if ok then I s' w' else E s' w'"
proof (cases "ss_state s = Active \<or> ss_state s = Reading")
  case True
  have "I (s\<lparr>ss_state := Reading\<rparr>) w" by (rule I_queue [OF assms(2)]) simp_all
  with True assms(1) show ?thesis by (intro read_loop_I) (auto simp: on_readable_def)
next
  case False
  with assms I_end [OF assms(2)] show ?thesis by (auto simp: on_readable_def)
qed

end

text \<open>A property that does not depend on the queue is kept in both cases.\<close>

locale world_handler = message_handler h for h :: "('j, 'w) handler" +
  fixes I :: "Session \<Rightarrow> 'w \<Rightarrow> bool"
  assumes I_step: "I s w \<Longrightarrow> h m s w = (s', w', e) \<Longrightarrow> I s' w'"
    and I_frame: "I s w \<Longrightarrow> client_fd t = client_fd s \<Longrightarrow> session_id t = session_id s \<Longrightarrow> I t w"

sublocale world_handler \<subseteq> queue: queue_handler h I I
  by unfold_locales (blast intro: I_step I_frame)+

context world_handler
begin

lemma on_readable_I:
  assumes "on_readable J (Some h) err0 s w inp = Some (ok, s', w', inp')" and "I s w"
  shows "I s' w'"
  using queue.on_readable_I [OF assms] by (simp split: if_splits)

end

end
