(* ===== verification/Connection_Manager.thy ===== *)
theory Connection_Manager
  imports Session
begin

text \<open>
  \<open>ConnectionManager\<close> of \<open>src/ipc/connection_manager.cpp\<close>: the sessions by id and the
  index from descriptors to ids. The sessions themselves live in a store (\<open>sessions\<close>)
  addressed by pointers, because the server and the manager share them.
\<close>

section \<open>State and operations\<close>

text \<open>A \<open>shared_ptr<Session>\<close> is \<^const>\<open>None\<close> or the address of an object of the store.\<close>

type_synonym session_ptr = nat
type_synonym session_store = "session_ptr \<Rightarrow> Session option"

record ConnectionManager =
  sessions_by_id :: "(uint64, session_ptr) umap"
  fd_to_id :: "(int32, uint64) umap"

definition new_manager :: ConnectionManager where
  "new_manager = \<lparr>sessions_by_id = [], fd_to_id = []\<rparr>"

definition add_session ::
    "session_store \<Rightarrow> session_ptr option \<Rightarrow> ConnectionManager \<Rightarrow> ConnectionManager" where
  "add_session st session cm =
     (case session of
        None \<Rightarrow> cm
      | Some p \<Rightarrow>
          (case st p of
             None \<Rightarrow> cm
           | Some s \<Rightarrow>
               cm\<lparr>sessions_by_id := AList.update (get_id s) p (sessions_by_id cm),
                  fd_to_id := AList.update (get_fd s) (get_id s) (fd_to_id cm)\<rparr>))"

definition remove_session :: "session_store \<Rightarrow> uint64 \<Rightarrow> ConnectionManager \<Rightarrow> ConnectionManager" where
  "remove_session st i cm =
     (case map_of (sessions_by_id cm) i of
        None \<Rightarrow> cm
      | Some p \<Rightarrow>
          (case st p of
             None \<Rightarrow> cm
           | Some s \<Rightarrow>
               cm\<lparr>fd_to_id := AList.delete (get_fd s) (fd_to_id cm),
                  sessions_by_id := AList.delete i (sessions_by_id cm)\<rparr>))"

definition remove_session_by_fd :: "int32 \<Rightarrow> ConnectionManager \<Rightarrow> ConnectionManager" where
  "remove_session_by_fd fd cm =
     (case map_of (fd_to_id cm) fd of
        None \<Rightarrow> cm
      | Some i \<Rightarrow>
          cm\<lparr>fd_to_id := AList.delete fd (fd_to_id cm),
             sessions_by_id := AList.delete i (sessions_by_id cm)\<rparr>)"

definition get_session :: "uint64 \<Rightarrow> ConnectionManager \<Rightarrow> session_ptr option" where
  "get_session i cm = map_of (sessions_by_id cm) i"

definition get_session_by_fd :: "int32 \<Rightarrow> ConnectionManager \<Rightarrow> session_ptr option" where
  "get_session_by_fd fd cm =
     (case map_of (fd_to_id cm) fd of
        None \<Rightarrow> None
      | Some i \<Rightarrow> map_of (sessions_by_id cm) i)"

definition session_count :: "ConnectionManager \<Rightarrow> nat" where
  "session_count cm = length (sessions_by_id cm)"

definition get_all_sessions :: "ConnectionManager \<Rightarrow> session_ptr list" where
  "get_all_sessions cm = map snd (sessions_by_id cm)"

text \<open>\<open>close_all\<close> closes every session through its pointer and empties both tables.\<close>

definition close_at :: "session_ptr \<Rightarrow> session_store \<Rightarrow> session_store" where
  "close_at p st = st(p := map_option close_session (st p))"

definition close_all :: "session_store \<Rightarrow> ConnectionManager \<Rightarrow> session_store \<times> ConnectionManager" where
  "close_all st cm =
     (fold (\<lambda>e st. close_at (snd e) st) (sessions_by_id cm) st,
      cm\<lparr>sessions_by_id := [], fd_to_id := []\<rparr>)"

section \<open>The invariant\<close>

text \<open>
  Both tables have distinct keys; every registered pointer is live and registered under
  the id of its object, and the index of descriptors is exactly the inverse of
  \<open>get_fd()\<close> on the registered sessions.
\<close>

definition cm_inv :: "session_store \<Rightarrow> ConnectionManager \<Rightarrow> bool" where
  "cm_inv st cm \<longleftrightarrow>
     keys_ok (sessions_by_id cm) \<and> keys_ok (fd_to_id cm) \<and>
     (\<forall>i p. map_of (sessions_by_id cm) i = Some p \<longrightarrow>
        (\<exists>s. st p = Some s \<and> session_id s = i \<and> map_of (fd_to_id cm) (client_fd s) = Some i)) \<and>
     (\<forall>fd i. map_of (fd_to_id cm) fd = Some i \<longrightarrow>
        (\<exists>p s. map_of (sessions_by_id cm) i = Some p \<and> st p = Some s \<and> client_fd s = fd))"

definition registered_fd :: "ConnectionManager \<Rightarrow> int32 \<Rightarrow> bool" where
  "registered_fd cm fd \<longleftrightarrow> map_of (fd_to_id cm) fd \<noteq> None"

definition registered_id :: "ConnectionManager \<Rightarrow> uint64 \<Rightarrow> bool" where
  "registered_id cm i \<longleftrightarrow> map_of (sessions_by_id cm) i \<noteq> None"

lemma cm_inv_new [simp]: "cm_inv st new_manager"
  by (simp add: cm_inv_def new_manager_def)

lemma registered_new [simp]: "\<not> registered_fd new_manager fd" "\<not> registered_id new_manager i"
  by (simp_all add: registered_fd_def registered_id_def new_manager_def)

lemma cm_invD:
  assumes "cm_inv st cm"
  shows "keys_ok (sessions_by_id cm)" "keys_ok (fd_to_id cm)"
    "map_of (sessions_by_id cm) i = Some p \<Longrightarrow>
       \<exists>s. st p = Some s \<and> session_id s = i \<and> map_of (fd_to_id cm) (client_fd s) = Some i"
    "map_of (fd_to_id cm) fd = Some i \<Longrightarrow>
       \<exists>p s. map_of (sessions_by_id cm) i = Some p \<and> st p = Some s \<and> client_fd s = fd"
  using assms unfolding cm_inv_def by blast+

lemma cm_invI:
  assumes "keys_ok (sessions_by_id cm)" and "keys_ok (fd_to_id cm)"
    and "\<And>i p. map_of (sessions_by_id cm) i = Some p \<Longrightarrow>
       \<exists>s. st p = Some s \<and> session_id s = i \<and> map_of (fd_to_id cm) (client_fd s) = Some i"
    and "\<And>fd i. map_of (fd_to_id cm) fd = Some i \<Longrightarrow>
       \<exists>p s. map_of (sessions_by_id cm) i = Some p \<and> st p = Some s \<and> client_fd s = fd"
  shows "cm_inv st cm"
  using assms unfolding cm_inv_def by blast

lemma cm_inv_add:
  assumes inv: "cm_inv st cm" and s: "st p = Some s"
    and fd: "\<not> registered_fd cm (client_fd s)" and i: "\<not> registered_id cm (session_id s)"
  shows "cm_inv st (add_session st (Some p) cm)"
proof (rule cm_invI)
  fix j q
  assume j: "map_of (sessions_by_id (add_session st (Some p) cm)) j = Some q"
  show "\<exists>s. st q = Some s \<and> session_id s = j \<and>
      map_of (fd_to_id (add_session st (Some p) cm)) (client_fd s) = Some j"
  proof (cases "j = session_id s")
    case True
    with j s show ?thesis by (simp add: add_session_def)
  next
    case False
    with j s have "map_of (sessions_by_id cm) j = Some q" by (simp add: add_session_def)
    from cm_invD(3) [OF inv this] obtain t where t: "st q = Some t" "session_id t = j"
      "map_of (fd_to_id cm) (client_fd t) = Some j" by blast
    with fd have "client_fd t \<noteq> client_fd s" by (auto simp: registered_fd_def)
    with t s show ?thesis by (simp add: add_session_def)
  qed
next
  fix f j
  assume f: "map_of (fd_to_id (add_session st (Some p) cm)) f = Some j"
  show "\<exists>q t. map_of (sessions_by_id (add_session st (Some p) cm)) j = Some q \<and>
      st q = Some t \<and> client_fd t = f"
  proof (cases "f = client_fd s")
    case True
    with f s show ?thesis by (simp add: add_session_def)
  next
    case False
    with f s have "map_of (fd_to_id cm) f = Some j" by (simp add: add_session_def)
    from cm_invD(4) [OF inv this] i have "j \<noteq> session_id s" by (auto simp: registered_id_def)
    with cm_invD(4) [OF inv \<open>map_of (fd_to_id cm) f = Some j\<close>] s show ?thesis
      by (simp add: add_session_def)
  qed
qed (use s cm_invD(1,2) [OF inv] in \<open>simp_all add: add_session_def\<close>)

lemma fd_determines_id:
  assumes "cm_inv st cm" and "map_of (fd_to_id cm) fd = Some i" and "map_of (fd_to_id cm) fd' = Some i"
  shows "fd = fd'"
  using cm_invD(4) [OF assms(1,2)] cm_invD(4) [OF assms(1,3)] by auto

lemma cm_inv_remove_by_fd:
  assumes inv: "cm_inv st cm"
  shows "cm_inv st (remove_session_by_fd fd cm)"
proof (cases "map_of (fd_to_id cm) fd")
  case None
  with inv show ?thesis by (simp add: remove_session_by_fd_def)
next
  case (Some i)
  let ?cm = "remove_session_by_fd fd cm"
  have tables: "map_of (sessions_by_id ?cm) = (map_of (sessions_by_id cm))(i := None)"
    "map_of (fd_to_id ?cm) = (map_of (fd_to_id cm))(fd := None)"
    using Some by (auto simp: remove_session_by_fd_def)
  show ?thesis
  proof (rule cm_invI)
    fix j p
    assume "map_of (sessions_by_id ?cm) j = Some p"
    then have j: "j \<noteq> i" "map_of (sessions_by_id cm) j = Some p"
      by (auto simp: tables split: if_splits)
    from cm_invD(3) [OF inv j(2)] obtain s where
      "st p = Some s" "session_id s = j" "map_of (fd_to_id cm) (client_fd s) = Some j" by blast
    moreover from this Some j(1) have "client_fd s \<noteq> fd" by auto
    ultimately show "\<exists>s. st p = Some s \<and> session_id s = j \<and>
        map_of (fd_to_id ?cm) (client_fd s) = Some j"
      by (simp add: tables)
  next
    fix f j
    assume "map_of (fd_to_id ?cm) f = Some j"
    then have f: "f \<noteq> fd" "map_of (fd_to_id cm) f = Some j"
      by (auto simp: tables split: if_splits)
    then have "j \<noteq> i" using fd_determines_id [OF inv Some] by blast
    with cm_invD(4) [OF inv f(2)]
    show "\<exists>p s. map_of (sessions_by_id ?cm) j = Some p \<and> st p = Some s \<and> client_fd s = f"
      by (simp add: tables)
  qed (use Some cm_invD(1,2) [OF inv] in \<open>simp_all add: remove_session_by_fd_def\<close>)
qed

lemma remove_session_by_id:
  assumes "cm_inv st cm" and "map_of (sessions_by_id cm) i = Some p" and "st p = Some s"
  shows "remove_session st i cm = remove_session_by_fd (client_fd s) cm"
  using assms cm_invD(3) [OF assms(1,2)]
  by (auto simp: remove_session_def remove_session_by_fd_def)

lemma cm_inv_remove:
  assumes "cm_inv st cm"
  shows "cm_inv st (remove_session st i cm)"
proof (cases "map_of (sessions_by_id cm) i")
  case None
  with assms show ?thesis by (simp add: remove_session_def)
next
  case (Some p)
  with assms obtain s where "st p = Some s" using cm_invD(3) by blast
  with assms Some show ?thesis
    by (simp add: remove_session_by_id cm_inv_remove_by_fd)
qed

text \<open>An update of a stored session that keeps its id and descriptor keeps the invariant.\<close>

lemma cm_inv_update:
  assumes inv: "cm_inv st cm" and s: "st p = Some s"
    and "client_fd s' = client_fd s" and "session_id s' = session_id s"
  shows "cm_inv (st(p := Some s')) cm"
proof (rule cm_invI)
  fix i q
  assume "map_of (sessions_by_id cm) i = Some q"
  from cm_invD(3) [OF inv this] assms(2-4)
  show "\<exists>t. (st(p := Some s')) q = Some t \<and> session_id t = i \<and>
      map_of (fd_to_id cm) (client_fd t) = Some i"
    by auto
next
  fix f i
  assume "map_of (fd_to_id cm) f = Some i"
  from cm_invD(4) [OF inv this] obtain q t where
    q: "map_of (sessions_by_id cm) i = Some q" "st q = Some t" "client_fd t = f" by blast
  with assms(2-4) show "\<exists>q t. map_of (sessions_by_id cm) i = Some q \<and>
      (st(p := Some s')) q = Some t \<and> client_fd t = f"
    by (cases "q = p") auto
qed (use cm_invD(1,2) [OF inv] in simp_all)

section \<open>Look-ups\<close>

lemma get_by_fd_sound:
  assumes "cm_inv st cm" and "get_session_by_fd fd cm = Some p"
  shows "\<exists>s. st p = Some s \<and> client_fd s = fd \<and> get_session (session_id s) cm = Some p"
  using assms(2) cm_invD(3,4) [OF assms(1)]
  by (fastforce simp: get_session_by_fd_def get_session_def split: option.splits)

text \<open>The two tables as functions of the registered sessions.\<close>

lemma registered_fd_iff:
  assumes "cm_inv st cm"
  shows "registered_fd cm fd \<longleftrightarrow>
    (\<exists>p s. p \<in> snd ` set (sessions_by_id cm) \<and> st p = Some s \<and> client_fd s = fd)"
proof
  assume "registered_fd cm fd"
  then obtain i where "map_of (fd_to_id cm) fd = Some i" by (auto simp: registered_fd_def)
  from cm_invD(4) [OF assms this] show
    "\<exists>p s. p \<in> snd ` set (sessions_by_id cm) \<and> st p = Some s \<and> client_fd s = fd"
    by (force dest: map_of_SomeD)
next
  assume "\<exists>p s. p \<in> snd ` set (sessions_by_id cm) \<and> st p = Some s \<and> client_fd s = fd"
  then obtain i p s where "(i, p) \<in> set (sessions_by_id cm)" "st p = Some s" "client_fd s = fd" by auto
  moreover from this have "map_of (sessions_by_id cm) i = Some p"
    using cm_invD(1) [OF assms] by simp
  ultimately show "registered_fd cm fd"
    using cm_invD(3) [OF assms] by (fastforce simp: registered_fd_def)
qed

lemma get_by_fd_registered:
  assumes "cm_inv st cm"
  shows "(get_session_by_fd fd cm \<noteq> None) = registered_fd cm fd"
  using cm_invD(4) [OF assms]
  by (fastforce simp: get_session_by_fd_def registered_fd_def split: option.splits)

text \<open>Registering a fresh session and removing it again changes nothing.\<close>

lemma remove_after_add:
  assumes "st p = Some s" and "\<not> registered_fd cm (client_fd s)" and "\<not> registered_id cm (session_id s)"
  shows "remove_session_by_fd (client_fd s) (add_session st (Some p) cm) = cm"
  using assms
  by (simp add: remove_session_by_fd_def add_session_def registered_fd_def registered_id_def
      delete_update_fresh)

lemma registered_add:
  assumes "st p = Some s"
  shows "registered_fd (add_session st (Some p) cm) fd \<longleftrightarrow> fd = client_fd s \<or> registered_fd cm fd"
    and "registered_id (add_session st (Some p) cm) i \<longleftrightarrow> i = session_id s \<or> registered_id cm i"
  using assms by (auto simp: add_session_def registered_fd_def registered_id_def)

lemma registered_remove_by_fd:
  "registered_fd (remove_session_by_fd fd cm) fd' \<longleftrightarrow> fd' \<noteq> fd \<and> registered_fd cm fd'"
  "registered_id (remove_session_by_fd fd cm) i \<Longrightarrow> registered_id cm i"
  by (auto simp: remove_session_by_fd_def registered_fd_def registered_id_def split: option.splits if_splits)

lemma session_count_add:
  assumes "st p = Some s" and "\<not> registered_id cm (session_id s)"
  shows "session_count (add_session st (Some p) cm) = Suc (session_count cm)"
  using assms by (simp add: session_count_def add_session_def registered_id_def length_update_fresh)

lemma session_count_remove: "session_count (remove_session_by_fd fd cm) \<le> session_count cm"
  by (auto simp: session_count_def remove_session_by_fd_def umap_length_delete split: option.splits)

text \<open>The pointers that are registered.\<close>

definition registered_ptrs :: "ConnectionManager \<Rightarrow> session_ptr set" where
  "registered_ptrs cm = snd ` set (sessions_by_id cm)"

lemma registered_ptrs_iff:
  assumes "keys_ok (sessions_by_id cm)"
  shows "p \<in> registered_ptrs cm \<longleftrightarrow> (\<exists>i. map_of (sessions_by_id cm) i = Some p)"
  using assms by (force simp: registered_ptrs_def)

lemma registered_ptrs_add:
  assumes "st p = Some s" and "\<not> registered_id cm (session_id s)"
  shows "registered_ptrs (add_session st (Some p) cm) = insert p (registered_ptrs cm)"
  using assms by (simp add: registered_ptrs_def add_session_def registered_id_def update_fresh)

lemma registered_ptrs_remove:
  assumes inv: "cm_inv st cm" and p: "get_session_by_fd fd cm = Some p"
  shows "registered_ptrs (remove_session_by_fd fd cm) = registered_ptrs cm - {p}"
proof -
  from p obtain i where i: "map_of (fd_to_id cm) fd = Some i" "map_of (sessions_by_id cm) i = Some p"
    by (auto simp: get_session_by_fd_def split: option.splits)
  have uniq: "j = i \<longleftrightarrow> q = p" if "(j, q) \<in> set (sessions_by_id cm)" for j q
  proof -
    have "map_of (sessions_by_id cm) j = Some q" using that cm_invD(1) [OF inv] by simp
    with cm_invD(3) [OF inv this] cm_invD(3) [OF inv i(2)] i(2) show ?thesis by auto
  qed
  have "registered_ptrs (remove_session_by_fd fd cm) =
      snd ` {e \<in> set (sessions_by_id cm). i \<noteq> fst e}"
    using i(1) by (simp add: registered_ptrs_def remove_session_by_fd_def AList.delete_eq case_prod_beta)
  also have "{e \<in> set (sessions_by_id cm). i \<noteq> fst e} = {e \<in> set (sessions_by_id cm). snd e \<noteq> p}"
    by (auto simp: split_paired_all dest: uniq)
  also have "snd ` \<dots> = registered_ptrs cm - {p}"
    by (auto simp: registered_ptrs_def)
  finally show ?thesis .
qed

lemma close_all_result:
  "fst (close_all st cm) = (\<lambda>p. if p \<in> registered_ptrs cm then map_option close_session (st p) else st p)"
  "snd (close_all st cm) = new_manager"
proof -
  have idem: "close_session (close_session s) = close_session s" for s
    by (simp add: close_session_def)
  have "fold (\<lambda>e st. close_at (snd e) st) xs st =
      (\<lambda>p. if p \<in> snd ` set xs then map_option close_session (st p) else st p)" for xs :: "(uint64, session_ptr) umap"
    by (induction xs arbitrary: st)
      (auto simp: close_at_def fun_eq_iff option.map_comp comp_def idem)
  then show "fst (close_all st cm) =
      (\<lambda>p. if p \<in> registered_ptrs cm then map_option close_session (st p) else st p)"
    by (simp add: close_all_def registered_ptrs_def)
qed (simp add: close_all_def new_manager_def)

section \<open>The manager as a set of sessions\<close>

text \<open>
  What the clients of the manager rely on: it holds a finite set of sessions that are
  identified by their id and by their descriptor.
\<close>

datatype ('p, 'i, 'f) directory_op = Add_op 'p | Drop_id 'i | Drop_fd 'f | Drop_all

fun apply_op :: "('p \<Rightarrow> 'c \<Rightarrow> 'c) \<Rightarrow> ('i \<Rightarrow> 'c \<Rightarrow> 'c) \<Rightarrow> ('f \<Rightarrow> 'c \<Rightarrow> 'c) \<Rightarrow> ('c \<Rightarrow> 'c) \<Rightarrow>
    ('p, 'i, 'f) directory_op \<Rightarrow> 'c \<Rightarrow> 'c" where
  "apply_op add drop_id drop_fd drop_all (Add_op p) c = add p c"
| "apply_op add drop_id drop_fd drop_all (Drop_id i) c = drop_id i c"
| "apply_op add drop_id drop_fd drop_all (Drop_fd f) c = drop_fd f c"
| "apply_op add drop_id drop_fd drop_all Drop_all c = drop_all c"

text \<open>The same operations on the set, and when a run of them only adds what is new.\<close>

definition set_op :: "('p \<Rightarrow> 'i) \<Rightarrow> ('p \<Rightarrow> 'f) \<Rightarrow> ('p, 'i, 'f) directory_op \<Rightarrow> 'p set \<Rightarrow> 'p set" where
  "set_op ident handle =
     apply_op insert (\<lambda>i A. {p \<in> A. ident p \<noteq> i}) (\<lambda>f A. {p \<in> A. handle p \<noteq> f}) (\<lambda>A. {})"

definition legal_op :: "('p \<Rightarrow> bool) \<Rightarrow> ('p \<Rightarrow> 'i) \<Rightarrow> ('p \<Rightarrow> 'f) \<Rightarrow> ('p, 'i, 'f) directory_op \<Rightarrow> 'p set \<Rightarrow> bool" where
  "legal_op live ident handle x A \<longleftrightarrow>
     (case x of
        Add_op p \<Rightarrow> live p \<and> (\<forall>q \<in> A. ident q \<noteq> ident p \<and> handle q \<noteq> handle p)
      | _ \<Rightarrow> True)"

fun legal_ops :: "('p \<Rightarrow> bool) \<Rightarrow> ('p \<Rightarrow> 'i) \<Rightarrow> ('p \<Rightarrow> 'f) \<Rightarrow> ('p, 'i, 'f) directory_op list \<Rightarrow> 'p set \<Rightarrow> bool" where
  "legal_ops live ident handle [] A = True"
| "legal_ops live ident handle (x # xs) A \<longleftrightarrow>
     legal_op live ident handle x A \<and> legal_ops live ident handle xs (set_op ident handle x A)"

locale session_directory =
  fixes live :: "'p \<Rightarrow> bool" and ident :: "'p \<Rightarrow> 'i" and handle :: "'p \<Rightarrow> 'f"
    and void :: 'c and add :: "'p \<Rightarrow> 'c \<Rightarrow> 'c" and drop_id :: "'i \<Rightarrow> 'c \<Rightarrow> 'c" and drop_fd :: "'f \<Rightarrow> 'c \<Rightarrow> 'c"
    and drop_all :: "'c \<Rightarrow> 'c"
    and find_id :: "'i \<Rightarrow> 'c \<Rightarrow> 'p option" and find_fd :: "'f \<Rightarrow> 'c \<Rightarrow> 'p option"
    and count :: "'c \<Rightarrow> nat" and content :: "'c \<Rightarrow> 'p set" and invar :: "'c \<Rightarrow> bool"
  assumes void: "content void = {} \<and> invar void"
    and add: "invar c \<Longrightarrow> live p \<Longrightarrow> \<forall>q \<in> content c. ident q \<noteq> ident p \<and> handle q \<noteq> handle p \<Longrightarrow>
      content (add p c) = insert p (content c) \<and> invar (add p c)"
    and drop_id: "invar c \<Longrightarrow> content (drop_id i c) = {p \<in> content c. ident p \<noteq> i} \<and> invar (drop_id i c)"
    and drop_fd: "invar c \<Longrightarrow> content (drop_fd f c) = {p \<in> content c. handle p \<noteq> f} \<and> invar (drop_fd f c)"
    and drop_all: "content (drop_all c) = {} \<and> invar (drop_all c)"
    and find_id: "invar c \<Longrightarrow> find_id i c = Some p \<longleftrightarrow> p \<in> content c \<and> ident p = i"
    and find_fd: "invar c \<Longrightarrow> find_fd f c = Some p \<longleftrightarrow> p \<in> content c \<and> handle p = f"
    and count: "invar c \<Longrightarrow> finite (content c) \<and> count c = card (content c)"
begin

abbreviation run_op :: "('p, 'i, 'f) directory_op \<Rightarrow> 'c \<Rightarrow> 'c" where
  "run_op \<equiv> apply_op add drop_id drop_fd drop_all"

lemma run_op_refines:
  assumes "invar c" and "legal_op live ident handle x (content c)"
  shows "content (run_op x c) = set_op ident handle x (content c) \<and> invar (run_op x c)"
  using assms add drop_id drop_fd drop_all by (cases x) (auto simp: set_op_def legal_op_def)

lemma run_refines:
  assumes "invar c" and "legal_ops live ident handle xs (content c)"
  shows "content (fold run_op xs c) = fold (set_op ident handle) xs (content c) \<and> invar (fold run_op xs c)"
  using assms
proof (induction xs arbitrary: c)
  case (Cons x xs)
  then have "content (run_op x c) = set_op ident handle x (content c) \<and> invar (run_op x c)"
    by (intro run_op_refines) simp_all
  with Cons show ?case by simp
qed simp

lemma lookups_after_run:
  assumes "legal_ops live ident handle xs {}"
  shows "content (fold run_op xs void) = fold (set_op ident handle) xs {}"
    and "find_fd f (fold run_op xs void) = Some p \<longleftrightarrow> p \<in> fold (set_op ident handle) xs {} \<and> handle p = f"
    and "find_id i (fold run_op xs void) = Some p \<longleftrightarrow> p \<in> fold (set_op ident handle) xs {} \<and> ident p = i"
    and "count (fold run_op xs void) = card (fold (set_op ident handle) xs {})"
  using run_refines [of void xs] void assms find_fd find_id count by auto

end

lemma registered_ptrsD:
  assumes "cm_inv st cm" and "p \<in> registered_ptrs cm"
  obtains s where "st p = Some s" "map_of (sessions_by_id cm) (session_id s) = Some p"
    "map_of (fd_to_id cm) (client_fd s) = Some (session_id s)"
  using assms cm_invD(3) [OF assms(1)] registered_ptrs_iff [OF cm_invD(1) [OF assms(1)]] by blast

lemma get_by_fd_iff:
  assumes "cm_inv st cm"
  shows "get_session_by_fd fd cm = Some p \<longleftrightarrow> p \<in> registered_ptrs cm \<and> client_fd (the (st p)) = fd"
proof
  assume "get_session_by_fd fd cm = Some p"
  from get_by_fd_sound [OF assms this] show "p \<in> registered_ptrs cm \<and> client_fd (the (st p)) = fd"
    using registered_ptrs_iff [OF cm_invD(1) [OF assms]] by (auto simp: get_session_def)
next
  assume "p \<in> registered_ptrs cm \<and> client_fd (the (st p)) = fd"
  then show "get_session_by_fd fd cm = Some p"
    by (auto elim!: registered_ptrsD [OF assms] simp: get_session_by_fd_def)
qed

lemma get_by_id_iff:
  assumes "cm_inv st cm"
  shows "get_session i cm = Some p \<longleftrightarrow> p \<in> registered_ptrs cm \<and> session_id (the (st p)) = i"
  using cm_invD(3) [OF assms] registered_ptrs_iff [OF cm_invD(1) [OF assms]]
  by (fastforce simp: get_session_def elim!: registered_ptrsD [OF assms])

lemma remove_by_fd_content:
  assumes "cm_inv st cm"
  shows "registered_ptrs (remove_session_by_fd fd cm) = {p \<in> registered_ptrs cm. client_fd (the (st p)) \<noteq> fd}"
proof (cases "get_session_by_fd fd cm")
  case None
  then have "remove_session_by_fd fd cm = cm"
    using get_by_fd_registered [OF assms, of fd] by (simp add: registered_fd_def remove_session_by_fd_def)
  with None get_by_fd_iff [OF assms, of fd] show ?thesis by auto
next
  case (Some p)
  have "client_fd (the (st q)) \<noteq> fd \<longleftrightarrow> q \<noteq> p" if "q \<in> registered_ptrs cm" for q
    using that Some get_by_fd_iff [OF assms, of fd q] get_by_fd_iff [OF assms, of fd p] by auto
  with registered_ptrs_remove [OF assms Some] show ?thesis by auto
qed

lemma remove_content:
  assumes "cm_inv st cm"
  shows "registered_ptrs (remove_session st i cm) = {p \<in> registered_ptrs cm. session_id (the (st p)) \<noteq> i}"
proof (cases "get_session i cm")
  case None
  then have "remove_session st i cm = cm" by (simp add: get_session_def remove_session_def)
  with None get_by_id_iff [OF assms, of i] show ?thesis by auto
next
  case (Some p)
  then obtain s where s: "st p = Some s" "session_id s = i" "map_of (fd_to_id cm) (client_fd s) = Some i"
    using cm_invD(3) [OF assms] by (auto simp: get_session_def)
  with Some have "remove_session st i cm = remove_session_by_fd (client_fd s) cm"
    using remove_session_by_id [OF assms] by (simp add: get_session_def)
  moreover have "get_session_by_fd (client_fd s) cm = Some p"
    using Some s by (simp add: get_session_by_fd_def get_session_def)
  moreover have "session_id (the (st q)) \<noteq> i \<longleftrightarrow> q \<noteq> p" if "q \<in> registered_ptrs cm" for q
    using that Some get_by_id_iff [OF assms, of i q] get_by_id_iff [OF assms, of i p] by auto
  ultimately show ?thesis using registered_ptrs_remove [OF assms, of "client_fd s" p] by auto
qed

lemma session_count_card:
  assumes "cm_inv st cm"
  shows "session_count cm = card (registered_ptrs cm)"
proof -
  have "inj_on snd (set (sessions_by_id cm))"
  proof (rule inj_onI)
    fix a b
    assume "a \<in> set (sessions_by_id cm)" "b \<in> set (sessions_by_id cm)" "snd a = snd b"
    then have "map_of (sessions_by_id cm) (fst a) = Some (snd a)" "map_of (sessions_by_id cm) (fst b) = Some (snd a)"
      using cm_invD(1) [OF assms] by (metis map_of_eq_Some_iff prod.collapse)+
    from cm_invD(3) [OF assms this(1)] cm_invD(3) [OF assms this(2)] have "fst a = fst b" by auto
    with \<open>snd a = snd b\<close> show "a = b" by (simp add: prod_eq_iff)
  qed
  then have "card (registered_ptrs cm) = card (set (sessions_by_id cm))"
    by (simp add: registered_ptrs_def card_image)
  also have "\<dots> = length (sessions_by_id cm)"
    using cm_invD(1) [OF assms] by (simp add: distinct_card distinct_map)
  finally show ?thesis by (simp add: session_count_def)
qed

definition cm_do :: "session_store \<Rightarrow> (session_ptr, uint64, int32) directory_op \<Rightarrow>
    ConnectionManager \<Rightarrow> ConnectionManager" where
  "cm_do st = apply_op (\<lambda>p. add_session st (Some p)) (remove_session st) remove_session_by_fd
     (\<lambda>cm. snd (close_all st cm))"

lemma add_content:
  assumes inv: "cm_inv st c" and live: "st p \<noteq> None"
    and fresh: "\<forall>q \<in> registered_ptrs c. session_id (the (st q)) \<noteq> session_id (the (st p)) \<and>
      client_fd (the (st q)) \<noteq> client_fd (the (st p))"
  shows "registered_ptrs (add_session st (Some p) c) = insert p (registered_ptrs c) \<and>
    cm_inv st (add_session st (Some p) c)"
proof -
  from live obtain s where s: "st p = Some s" by blast
  have id: "\<not> registered_id c (session_id s)"
    using fresh s get_by_id_iff [OF inv, of "session_id s"] by (auto simp: registered_id_def get_session_def)
  have fd: "\<not> registered_fd c (client_fd s)"
    using fresh s get_by_fd_registered [OF inv, of "client_fd s"] get_by_fd_iff [OF inv, of "client_fd s"] by force
  from registered_ptrs_add [of st p s c] cm_inv_add [OF inv s fd id] s id show ?thesis by blast
qed

interpretation dir: session_directory "\<lambda>p. st p \<noteq> None" "\<lambda>p. session_id (the (st p))" "\<lambda>p. client_fd (the (st p))"
  new_manager "\<lambda>p. add_session st (Some p)" "remove_session st" remove_session_by_fd "\<lambda>cm. snd (close_all st cm)"
  get_session get_session_by_fd session_count registered_ptrs "cm_inv st"
  for st
proof unfold_locales
  show "registered_ptrs new_manager = {} \<and> cm_inv st new_manager"
    by (simp add: registered_ptrs_def) (simp add: new_manager_def)
  then show "registered_ptrs (snd (close_all st c)) = {} \<and> cm_inv st (snd (close_all st c))" for c
    by (simp add: close_all_result(2))
  show "finite (registered_ptrs c) \<and> session_count c = card (registered_ptrs c)" if "cm_inv st c" for c
    using session_count_card [OF that] by (simp add: registered_ptrs_def)
qed (simp_all add: add_content cm_inv_remove cm_inv_remove_by_fd remove_content remove_by_fd_content
      get_by_id_iff get_by_fd_iff)

end
