(* ===== verification/Socket_Server.thy ===== *)
theory Socket_Server
  imports Connection_Manager
begin

text \<open>
  \<open>UnixSocketServer\<close> of \<open>src/ipc/unix_socket_server.cpp\<close>: set-up of the listening
  socket, the accept loop, the dispatch of epoll events to sessions and the routing of
  responses. The kernel is part of the state (open descriptors, the epoll interest list)
  and of the inputs (what the system calls answer). The sessions live in the store of the
  connection manager; an object dies, and its destructor runs, at the point where the last
  \<open>shared_ptr\<close> to it goes away.
\<close>

unbundle bit_operations_syntax

section \<open>State\<close>

record UnixSocketConfig =
  socket_path :: string
  socket_permissions :: int32
  max_connections :: nat
  cfg_max_message_size :: nat
  backlog :: int32

definition default_config :: UnixSocketConfig where
  "default_config =
     \<lparr>socket_path = ''/run/demo_daemon/demo_daemon.sock'', socket_permissions = 432,
      max_connections = 100, cfg_max_message_size = 1024 * 1024, backlog = 128\<rparr>"

text \<open>
  The members of the class, then the heap (\<open>objects\<close>, \<open>next_object\<close>, the static session
  counter), then the kernel: what the file system has at the socket path and the mode that was
  set for it (\<^const>\<open>None\<close>: the one it was created with), open descriptors,
  interest list, the \<open>::close\<close> calls made so far and the bytes handed to \<open>::write\<close>.
\<close>

datatype path_entry = Absent | Socket_file | Other_file

record UnixSocketServer =
  config :: UnixSocketConfig
  server_fd :: int32
  epoll_fd :: int32
  connection_manager :: ConnectionManager
  running :: bool
  stop_requested :: bool
  objects :: session_store
  next_object :: session_ptr
  next_session_id :: uint64
  at_path :: path_entry
  at_mode :: "int32 option"
  open_fds :: "int32 list"
  interest :: "(int32, 32 word \<times> 64 word) umap"
  close_calls :: "int32 list"
  wire :: "(int32 \<times> string) list"

definition new_server :: "UnixSocketConfig \<Rightarrow> path_entry \<Rightarrow> int32 list \<Rightarrow> UnixSocketServer" where
  "new_server c path fds =
     \<lparr>config = c, server_fd = - 1, epoll_fd = - 1, connection_manager = new_manager,
      running = False, stop_requested = False,
      objects = (\<lambda>_. None), next_object = 0, next_session_id = 0,
      at_path = path, at_mode = None, open_fds = fds, interest = [], close_calls = [], wire = []\<rparr>"

section \<open>The kernel\<close>

definition EPOLLIN :: "32 word" where "EPOLLIN = 1"
definition EPOLLOUT :: "32 word" where "EPOLLOUT = 4"
definition EPOLLERR :: "32 word" where "EPOLLERR = 8"
definition EPOLLHUP :: "32 word" where "EPOLLHUP = 16"
definition EPOLLET :: "32 word" where "EPOLLET = 2 ^ 31"

text \<open>Closing a descriptor also takes it off the interest list.\<close>

definition sys_close :: "int32 \<Rightarrow> UnixSocketServer \<Rightarrow> UnixSocketServer" where
  "sys_close fd srv =
     srv\<lparr>open_fds := removeAll fd (open_fds srv), interest := AList.delete fd (interest srv),
         close_calls := close_calls srv @ [fd]\<rparr>"

definition sys_open :: "int32 \<Rightarrow> UnixSocketServer \<Rightarrow> UnixSocketServer" where
  "sys_open fd srv = srv\<lparr>open_fds := fd # open_fds srv\<rparr>"

text \<open>
  A pending connection: the descriptor \<open>accept4\<close> gives it and whether the later calls
  \<open>fcntl(F_GETFL)\<close>, \<open>fcntl(F_SETFL)\<close> and \<open>epoll_ctl(ADD)\<close> succeed; or a failing
  \<open>accept4\<close>. No pending entry means \<open>EAGAIN\<close>. The kernel never hands out a descriptor
  that is open: such an entry counts as a failing call.
\<close>

record connection =
  conn_fd :: int32
  getfl_ok :: bool
  setfl_ok :: bool
  epoll_add_ok :: bool

type_synonym accept_result = "errno + connection"

definition valid_fd :: "UnixSocketServer \<Rightarrow> int32 \<Rightarrow> bool" where
  "valid_fd srv fd \<longleftrightarrow> 0 \<le> sint fd \<and> fd \<notin> set (open_fds srv)"

fun sys_accept :: "UnixSocketServer \<Rightarrow> accept_result list \<Rightarrow>
    connection option \<times> UnixSocketServer \<times> accept_result list" where
  "sys_accept srv [] = (None, srv, [])"
| "sys_accept srv (Inl e # cs) = (None, srv, cs)"
| "sys_accept srv (Inr c # cs) =
     (if valid_fd srv (conn_fd c) then (Some c, sys_open (conn_fd c) srv, cs) else (None, srv, cs))"

section \<open>epoll\<close>

text \<open>
  \<open>ADD\<close> fails for a descriptor that is on the list, \<open>MOD\<close> and \<open>DEL\<close> for one that is
  not.
\<close>

definition add_to_epoll ::
    "bool \<Rightarrow> int32 \<Rightarrow> 32 word \<Rightarrow> 64 word \<Rightarrow> UnixSocketServer \<Rightarrow> bool \<times> UnixSocketServer" where
  "add_to_epoll ok fd events data srv =
     (if \<not> ok \<or> map_of (interest srv) fd \<noteq> None then (False, srv)
      else (True, srv\<lparr>interest := AList.update fd (events, data) (interest srv)\<rparr>))"

definition modify_epoll ::
    "int32 \<Rightarrow> 32 word \<Rightarrow> 64 word \<Rightarrow> UnixSocketServer \<Rightarrow> bool \<times> UnixSocketServer" where
  "modify_epoll fd events data srv =
     (if map_of (interest srv) fd = None then (False, srv)
      else (True, srv\<lparr>interest := AList.update fd (events, data) (interest srv)\<rparr>))"

definition remove_from_epoll :: "int32 \<Rightarrow> UnixSocketServer \<Rightarrow> bool \<times> UnixSocketServer" where
  "remove_from_epoll fd srv =
     (if map_of (interest srv) fd = None then (False, srv)
      else (True, srv\<lparr>interest := AList.delete fd (interest srv)\<rparr>))"

text \<open>
  \<open>reinterpret_cast<void*>(static_cast<uintptr_t>(fd))\<close> and back.
\<close>

definition fd_to_ptr :: "int32 \<Rightarrow> 64 word" where
  "fd_to_ptr fd = scast fd"

definition ptr_to_fd :: "64 word \<Rightarrow> int32" where
  "ptr_to_fd p = ucast p"

section \<open>Set-up\<close>

text \<open>
  The answers of the set-up calls: \<open>errno\<close> before \<open>cleanup_socket\<close>, a failure of
  \<open>stat\<close> other than \<open>ENOENT\<close>, a failure of \<open>unlink\<close>, the descriptors of \<open>socket\<close>
  and \<open>epoll_create1\<close>, and whether \<open>bind\<close>, \<open>chmod\<close>, \<open>listen\<close> and \<open>epoll_ctl\<close> succeed.
  A failing \<open>chmod\<close> is only logged: the socket keeps the mode it was created with.
\<close>

record setup_env =
  env_errno :: errno
  env_stat :: "errno option"
  env_unlink :: "errno option"
  env_socket :: "int32 option"
  env_bind :: bool
  env_chmod :: bool
  env_listen :: bool
  env_epoll_create :: "int32 option"
  env_epoll_add :: bool

text \<open>
  For a path that is not a socket no call of \<open>cleanup_socket\<close> sets \<open>errno\<close>, so its final
  test reads the value \<open>errno\<close> had before.
\<close>

definition cleanup_socket :: "setup_env \<Rightarrow> UnixSocketServer \<Rightarrow> bool \<times> UnixSocketServer" where
  "cleanup_socket env srv =
     (case env_stat env of
        Some e \<Rightarrow> (e = ENOENT, srv)
      | None \<Rightarrow>
          (case at_path srv of
             Absent \<Rightarrow> (True, srv)
           | Socket_file \<Rightarrow>
               (case env_unlink env of
                  None \<Rightarrow> (True, srv\<lparr>at_path := Absent\<rparr>)
                | Some e \<Rightarrow> (e = ENOENT, srv))
           | Other_file \<Rightarrow> (env_errno env = ENOENT, srv)))"

definition SUN_PATH_SIZE :: nat where
  "SUN_PATH_SIZE = 108"

text \<open>\<open>bind\<close> fails when the path exists and creates the socket file otherwise.\<close>

definition create_server_socket :: "setup_env \<Rightarrow> UnixSocketServer \<Rightarrow> int32 \<times> UnixSocketServer" where
  "create_server_socket env srv =
     (case env_socket env of
        None \<Rightarrow> (- 1, srv)
      | Some fd \<Rightarrow>
          let srv1 = sys_open fd srv in
          if length (socket_path (config srv)) \<ge> SUN_PATH_SIZE then (- 1, sys_close fd srv1)
          else if \<not> env_bind env \<or> at_path srv1 \<noteq> Absent then (- 1, sys_close fd srv1)
          else
            let srv2 = srv1\<lparr>at_path := Socket_file, at_mode := None\<rparr>;
                srv3 = (if env_chmod env
                        then srv2\<lparr>at_mode := Some (socket_permissions (config srv2))\<rparr> else srv2)
            in if \<not> env_listen env then (- 1, sys_close fd srv3)
               else (fd, srv3))"

definition server_initialize :: "setup_env \<Rightarrow> UnixSocketServer \<Rightarrow> bool \<times> UnixSocketServer" where
  "server_initialize env srv =
     (case create_server_socket env (snd (cleanup_socket env srv)) of
        (fd, srv1) \<Rightarrow>
          let srv2 = srv1\<lparr>server_fd := fd\<rparr> in
          if sint fd < 0 then (False, srv2)
          else
            (case env_epoll_create env of
               None \<Rightarrow> (False, (sys_close fd srv2)\<lparr>epoll_fd := - 1, server_fd := - 1\<rparr>)
             | Some ep \<Rightarrow>
                 let srv3 = (sys_open ep srv2)\<lparr>epoll_fd := ep\<rparr> in
                 (case add_to_epoll (env_epoll_add env) fd (EPOLLIN OR EPOLLET) 0 srv3 of
                    (True, srv4) \<Rightarrow> (True, srv4)
                  | (False, srv4) \<Rightarrow>
                      (False, (sys_close fd (sys_close ep srv4))\<lparr>epoll_fd := - 1, server_fd := - 1\<rparr>))))"

section \<open>Accepting\<close>

definition accept_connection :: "UnixSocketServer \<Rightarrow> accept_result list \<Rightarrow>
    connection option \<times> UnixSocketServer \<times> accept_result list" where
  "accept_connection srv cs =
     (case sys_accept srv cs of
        (None, srv1, cs1) \<Rightarrow> (None, srv1, cs1)
      | (Some c, srv1, cs1) \<Rightarrow>
          if session_count (connection_manager srv1) \<ge> max_connections (config srv1)
          then (None, sys_close (conn_fd c) srv1, cs1)
          else (Some c, srv1, cs1))"

text \<open>\<open>make_shared<Session>\<close>, and the end of the last reference to an object.\<close>

definition make_session :: "int32 \<Rightarrow> UnixSocketServer \<Rightarrow> session_ptr \<times> UnixSocketServer" where
  "make_session fd srv =
     (case new_session (next_session_id srv) fd of
        (s, n) \<Rightarrow>
          (next_object srv,
           srv\<lparr>objects := (objects srv)(next_object srv := Some s),
               next_object := next_object srv + 1, next_session_id := n\<rparr>))"

definition release_session :: "session_ptr \<Rightarrow> UnixSocketServer \<Rightarrow> UnixSocketServer" where
  "release_session p srv =
     (if p \<in> snd ` set (sessions_by_id (connection_manager srv)) then srv
      else
        (case objects srv p of
           None \<Rightarrow> srv
         | Some s \<Rightarrow> fold sys_close (destroy_session s) (srv\<lparr>objects := (objects srv)(p := None)\<rparr>)))"

text \<open>One round of the accept loop, after \<open>accept_connection\<close> returned a descriptor.\<close>

definition open_session :: "connection \<Rightarrow> UnixSocketServer \<Rightarrow> UnixSocketServer" where
  "open_session c srv =
     (let fd = conn_fd c in
      case make_session fd srv of
        (p, srv1) \<Rightarrow>
          (case map_option (initialize (getfl_ok c) (setfl_ok c)) (objects srv1 p) of
             None \<Rightarrow> srv1
           | Some (ok, s) \<Rightarrow>
               let srv2 = srv1\<lparr>objects := (objects srv1)(p := Some s)\<rparr> in
               if \<not> ok then release_session p (sys_close fd srv2)
               else
                 let srv3 = srv2\<lparr>connection_manager :=
                       add_session (objects srv2) (Some p) (connection_manager srv2)\<rparr> in
                 (case add_to_epoll (epoll_add_ok c) fd (EPOLLIN OR EPOLLET OR EPOLLOUT) (fd_to_ptr fd) srv3 of
                    (True, srv4) \<Rightarrow> release_session p srv4
                  | (False, srv4) \<Rightarrow>
                      release_session p
                        (sys_close fd
                          (srv4\<lparr>connection_manager :=
                             remove_session_by_fd fd (connection_manager srv4)\<rparr>)))))"

lemma accept_connection_shorter:
  "accept_connection srv cs = (Some c, srv', cs') \<Longrightarrow> length cs' < length cs"
  by (cases "(srv, cs)" rule: sys_accept.cases)
    (auto simp: accept_connection_def split: if_splits)

function accept_loop :: "UnixSocketServer \<Rightarrow> accept_result list \<Rightarrow> UnixSocketServer \<times> accept_result list"
where
  "accept_loop srv cs =
     (case accept_connection srv cs of
        (None, srv1, cs1) \<Rightarrow> (srv1, cs1)
      | (Some c, srv1, cs1) \<Rightarrow> accept_loop (open_session c srv1) cs1)"
  by pat_completeness auto
termination
  by (relation "measure (length \<circ> snd)") (auto dest: accept_connection_shorter [OF sym])

declare accept_loop.simps [simp del]

section \<open>Messages\<close>

text \<open>
  The lambda given to every session looks the session up by the request id read as a
  descriptor, and calls the command handler through a reference it captured. The reference
  denotes the by-value parameter of the \<open>handle_epoll_event\<close> call that created the
  session, which has returned by then; \<open>ch\<close> is what a call through it does: a response or
  an exception, and its effect on the rest of the program (\<open>'w\<close>).
\<close>

type_synonym ('j, 'w) command_handler =
  "'j RequestMessage \<Rightarrow> 'w \<Rightarrow> 'j ResponseMessage res \<times> 'w"

definition internal_error_response :: "'j RequestMessage \<Rightarrow> exn \<Rightarrow> 'j ErrorResponseMessage" where
  "internal_error_response msg e =
     \<lparr>er_id = rq_id msg,
      er_error = \<lparr>pe_code = InternalError, pe_message = ''Internal error: '' @ what e, pe_data = None\<rparr>\<rparr>"

text \<open>The effect of a member call on a session of the heap that may throw.\<close>

definition on_object :: "session_ptr \<Rightarrow> (Session \<Rightarrow> Session res) \<Rightarrow> UnixSocketServer \<Rightarrow>
    UnixSocketServer \<times> exn option" where
  "on_object p f srv =
     (case objects srv p of
        None \<Rightarrow> (srv, None)
      | Some s \<Rightarrow>
          (case f s of
             Inl e \<Rightarrow> (srv, Some e)
           | Inr s' \<Rightarrow> (srv\<lparr>objects := (objects srv)(p := Some s')\<rparr>, None)))"

definition object_fd :: "UnixSocketServer \<Rightarrow> session_ptr \<Rightarrow> int32" where
  "object_fd srv p = (case objects srv p of Some s \<Rightarrow> get_fd s | None \<Rightarrow> - 1)"

definition on_message :: "'j json_api \<Rightarrow> ('j, 'w) command_handler \<Rightarrow> 'j RequestMessage \<Rightarrow> session_ptr \<Rightarrow>
    UnixSocketServer \<Rightarrow> 'w \<Rightarrow> UnixSocketServer \<times> 'w \<times> exn option" where
  "on_message J ch msg p srv w =
     (case ch msg w of
        (Inl e, w1) \<Rightarrow>
          (case on_object p (schedule_send_error J (internal_error_response msg e)) srv of
             (srv1, x) \<Rightarrow> (srv1, w1, x))
      | (Inr response, w1) \<Rightarrow>
          (case on_object p (schedule_send J (response\<lparr>rs_id := rq_id msg\<rparr>)) srv of
             (srv1, None) \<Rightarrow>
               (snd (modify_epoll (object_fd srv1 p) (EPOLLIN OR EPOLLET OR EPOLLOUT)
                       (fd_to_ptr (object_fd srv1 p)) srv1), w1, None)
           | (srv1, Some e) \<Rightarrow>
               (case on_object p (schedule_send_error J (internal_error_response msg e)) srv1 of
                  (srv2, x) \<Rightarrow> (srv2, w1, x))))"

definition request_fd :: "'j RequestMessage \<Rightarrow> int32" where
  "request_fd msg = ucast (case rq_id msg of Some i \<Rightarrow> i | None \<Rightarrow> 0)"

text \<open>
  The lambda as the callback of the session at \<open>p\<close>, whose current value \<open>s\<close> is put into
  the heap first and read back afterwards: the target may be the same object.
\<close>

definition session_callback :: "'j json_api \<Rightarrow> ('j, 'w) command_handler \<Rightarrow> session_ptr \<Rightarrow>
    ('j, UnixSocketServer \<times> 'w) handler" where
  "session_callback J ch p msg s sw =
     (let srv = (fst sw)\<lparr>objects := (objects (fst sw))(p := Some s)\<rparr> in
      case get_session_by_fd (request_fd msg) (connection_manager srv) of
        None \<Rightarrow> (s, (srv, snd sw), None)
      | Some q \<Rightarrow>
          (case on_message J ch msg q srv (snd sw) of
             (srv1, w1, x) \<Rightarrow>
               (case objects srv1 p of Some s1 \<Rightarrow> s1 | None \<Rightarrow> s, (srv1, w1), x)))"

section \<open>Events\<close>

text \<open>
  An event with the answers of the system calls made while it is handled: the pending
  connections, the data to read, the results of \<open>::write\<close>, and the value \<open>errno\<close>
  has when it is read without a failing call.
\<close>

record event =
  ev_events :: "32 word"
  ev_ptr :: "64 word"
  ev_conns :: "accept_result list"
  ev_input :: "read_result list"
  ev_output :: "write_result list"
  ev_errno :: errno

definition client_event :: "'j json_api \<Rightarrow> ('j, 'w) command_handler \<Rightarrow> event \<Rightarrow> session_ptr \<Rightarrow> Session \<Rightarrow>
    UnixSocketServer \<Rightarrow> 'w \<Rightarrow> (UnixSocketServer \<times> 'w) option" where
  "client_event J ch ev p s srv w =
     (let fd = ptr_to_fd (ev_ptr ev) in
      Option.bind
        (if ev_events ev AND (EPOLLIN OR EPOLLERR OR EPOLLHUP) \<noteq> 0 then
           map_option (\<lambda>(ok, s1, sw, inp). (ok, s1, sw))
             (on_readable J (Some (session_callback J ch p)) (ev_errno ev) s (srv, w) (ev_input ev))
         else Some (True, s, (srv, w)))
        (\<lambda>(active1, s1, (srv1, w1)).
           case (if active1 \<and> ev_events ev AND EPOLLOUT \<noteq> 0 then
                   (case on_writable (ev_errno ev) s1 (ev_output ev) of
                      (ok, s2, sent, out) \<Rightarrow> (ok, s2, [(fd, sent)]))
                 else (active1, s1, [])) of
             (active, s2, sent) \<Rightarrow>
               let srv2 = srv1\<lparr>objects := (objects srv1)(p := Some s2), wire := wire srv1 @ sent\<rparr> in
               if \<not> active \<or> is_closed s2 then
                 let srv3 = snd (remove_from_epoll fd srv2);
                     srv4 = srv3\<lparr>connection_manager := remove_session_by_fd fd (connection_manager srv3)\<rparr>
                 in Some (release_session p srv4, w1)
               else Some (srv2, w1)))"

definition handle_epoll_event :: "'j json_api \<Rightarrow> ('j, 'w) command_handler \<Rightarrow> event \<Rightarrow>
    UnixSocketServer \<Rightarrow> 'w \<Rightarrow> (UnixSocketServer \<times> 'w) option" where
  "handle_epoll_event J ch ev srv w =
     (if ev_ptr ev = 0 then Some (fst (accept_loop srv (ev_conns ev)), w)
      else
        let fd = ptr_to_fd (ev_ptr ev) in
        case get_session_by_fd fd (connection_manager srv) of
          None \<Rightarrow> Some (snd (remove_from_epoll fd srv), w)
        | Some p \<Rightarrow>
            (case objects srv p of
               None \<Rightarrow> Some (srv, w)
             | Some s \<Rightarrow> client_event J ch ev p s srv w))"

section \<open>The event loop\<close>

text \<open>
  \<open>stop()\<close> closes every session and clears the tables, which ends their objects.
\<close>

definition stop :: "UnixSocketServer \<Rightarrow> UnixSocketServer" where
  "stop srv =
     (let ps = get_all_sessions (connection_manager srv) in
      case close_all (objects srv) (connection_manager srv) of
        (st, cm) \<Rightarrow>
          fold release_session ps
            (srv\<lparr>stop_requested := True, objects := st, connection_manager := cm\<rparr>))"

definition destroy_server :: "UnixSocketServer \<Rightarrow> UnixSocketServer" where
  "destroy_server srv =
     (let srv1 = stop srv;
          srv2 = (if sint (server_fd srv1) \<ge> 0
                  then (sys_close (server_fd srv1) srv1)\<lparr>server_fd := - 1\<rparr> else srv1)
      in if sint (epoll_fd srv2) \<ge> 0
         then (sys_close (epoll_fd srv2) srv2)\<lparr>epoll_fd := - 1\<rparr> else srv2)"

definition active_connections :: "UnixSocketServer \<Rightarrow> nat" where
  "active_connections srv = session_count (connection_manager srv)"

definition is_running :: "UnixSocketServer \<Rightarrow> bool" where
  "is_running srv \<longleftrightarrow> running srv"

definition get_socket_path :: "UnixSocketServer \<Rightarrow> string" where
  "get_socket_path srv = socket_path (config srv)"

text \<open>
  What happens at \<open>epoll_wait\<close>: it fails, it returns events, or another thread calls
  \<open>stop()\<close> while the loop waits. \<open>run\<close> returns \<^const>\<open>None\<close> as long as it has not
  come back: at the end of the script it is still blocked in \<open>epoll_wait\<close>.
\<close>

datatype wait_result = Wait_error errno | Wait_events "event list" | Stop_called

fun handle_events :: "'j json_api \<Rightarrow> ('j, 'w) command_handler \<Rightarrow> event list \<Rightarrow>
    UnixSocketServer \<Rightarrow> 'w \<Rightarrow> (UnixSocketServer \<times> 'w) option" where
  "handle_events J ch [] srv w = Some (srv, w)"
| "handle_events J ch (ev # evs) srv w =
     Option.bind (handle_epoll_event J ch ev srv w) (\<lambda>(srv1, w1). handle_events J ch evs srv1 w1)"

text \<open>
  The flag is only tested between two calls of \<open>epoll_wait\<close>: a call that is waiting when
  \<open>stop()\<close> is called goes on waiting.
\<close>

fun wait_loop :: "'j json_api \<Rightarrow> ('j, 'w) command_handler \<Rightarrow> wait_result list \<Rightarrow>
    UnixSocketServer \<Rightarrow> 'w \<Rightarrow> (bool option \<times> UnixSocketServer \<times> 'w) option" where
  "wait_loop J ch [] srv w = Some (None, srv, w)"
| "wait_loop J ch (Stop_called # rs) srv w = wait_loop J ch rs (stop srv) w"
| "wait_loop J ch (Wait_error e # rs) srv w =
     (if e = EINTR \<and> \<not> stop_requested srv then wait_loop J ch rs srv w
      else Some (Some (\<not> stop_requested srv), srv\<lparr>running := False\<rparr>, w))"
| "wait_loop J ch (Wait_events evs # rs) srv w =
     Option.bind (handle_events J ch evs srv w)
       (\<lambda>(srv1, w1).
          if stop_requested srv1 then Some (Some False, srv1\<lparr>running := False\<rparr>, w1)
          else wait_loop J ch rs srv1 w1)"

definition run :: "'j json_api \<Rightarrow> ('j, 'w) command_handler \<Rightarrow> wait_result list \<Rightarrow>
    UnixSocketServer \<Rightarrow> 'w \<Rightarrow> (bool option \<times> UnixSocketServer \<times> 'w) option" where
  "run J ch rs srv w =
     (if sint (server_fd srv) < 0 \<or> sint (epoll_fd srv) < 0 then Some (Some False, srv, w)
      else wait_loop J ch rs (srv\<lparr>running := True, stop_requested := False\<rparr>) w)"

section \<open>The invariant of the server\<close>

text \<open>
  Every live session object is registered, in the state its class keeps and on an open
  descriptor; the interest list holds exactly the listening socket and the registered
  clients; the limit is respected; and no byte has been handed to \<open>::write\<close>.
\<close>

definition client_events :: "32 word" where
  "client_events = EPOLLIN OR EPOLLET OR EPOLLOUT"

definition watched :: "UnixSocketServer \<Rightarrow> int32 \<Rightarrow> (32 word \<times> 64 word) option" where
  "watched srv fd =
     (if fd = server_fd srv then Some (EPOLLIN OR EPOLLET, 0)
      else if registered_fd (connection_manager srv) fd then Some (client_events, fd_to_ptr fd)
      else None)"

definition server_inv :: "UnixSocketServer \<Rightarrow> bool" where
  "server_inv srv \<longleftrightarrow>
     cm_inv (objects srv) (connection_manager srv) \<and>
     session_count (connection_manager srv) \<le> max_connections (config srv) \<and>
     (\<forall>p s. objects srv p = Some s \<longrightarrow>
        session_inv s \<and> p < next_object srv \<and> p \<in> registered_ptrs (connection_manager srv)) \<and>
     (\<forall>i. registered_id (connection_manager srv) i \<longrightarrow> i \<le> next_session_id srv) \<and>
     (\<forall>fd. registered_fd (connection_manager srv) fd \<longrightarrow>
        fd \<in> set (open_fds srv) \<and> 0 \<le> sint fd \<and> fd \<noteq> server_fd srv) \<and>
     server_fd srv \<in> set (open_fds srv) \<and>
     map_of (interest srv) = watched srv \<and>
     (\<forall>e\<in>set (wire srv). snd e = [])"

lemma server_invD:
  assumes "server_inv srv"
  shows "cm_inv (objects srv) (connection_manager srv)"
    "session_count (connection_manager srv) \<le> max_connections (config srv)"
    "objects srv p = Some s \<Longrightarrow> session_inv s"
    "objects srv p = Some s \<Longrightarrow> p < next_object srv"
    "objects srv p = Some s \<Longrightarrow> p \<in> registered_ptrs (connection_manager srv)"
    "registered_id (connection_manager srv) i \<Longrightarrow> i \<le> next_session_id srv"
    "registered_fd (connection_manager srv) fd \<Longrightarrow>
       fd \<in> set (open_fds srv) \<and> 0 \<le> sint fd \<and> fd \<noteq> server_fd srv"
    "server_fd srv \<in> set (open_fds srv)"
    "map_of (interest srv) = watched srv"
    "\<forall>e\<in>set (wire srv). snd e = []"
  using assms unfolding server_inv_def by blast+

text \<open>The session objects that live are registered, so the connection limit bounds them.\<close>

lemma live_objects:
  assumes "server_inv srv"
  shows "finite (dom (objects srv))" and "card (dom (objects srv)) \<le> max_connections (config srv)"
proof -
  have fin: "finite (registered_ptrs (connection_manager srv))" by (simp add: registered_ptrs_def)
  have sub: "dom (objects srv) \<subseteq> registered_ptrs (connection_manager srv)" using server_invD(5) [OF assms] by blast
  show "finite (dom (objects srv))" by (rule finite_subset [OF sub fin])
  show "card (dom (objects srv)) \<le> max_connections (config srv)"
    using card_mono [OF fin sub] session_count_card [OF server_invD(1) [OF assms]] server_invD(2) [OF assms] by simp
qed

text \<open>A session that keeps its identity may be replaced.\<close>

lemma server_inv_object:
  assumes inv: "server_inv srv" and s: "objects srv p = Some s"
    and s': "client_fd s' = client_fd s" "session_id s' = session_id s" "session_inv s'"
  shows "server_inv (srv\<lparr>objects := (objects srv)(p := Some s')\<rparr>)"
proof -
  note d = server_invD [OF inv]
  have "cm_inv ((objects srv)(p := Some s')) (connection_manager srv)"
    by (rule cm_inv_update [OF d(1) s s'(1,2)])
  then show ?thesis
    using d(2,8,9,10) d(3-7) s s'(3)
    unfolding server_inv_def by (simp add: watched_def fun_eq_iff)
qed

text \<open>Flags, counters that grow, and empty writes do not matter.\<close>

lemma server_inv_wire:
  "server_inv srv \<Longrightarrow> \<forall>e\<in>set sent. snd e = [] \<Longrightarrow> server_inv (srv\<lparr>wire := wire srv @ sent\<rparr>)"
  unfolding server_inv_def watched_def by (auto simp: fun_eq_iff)

lemma server_inv_flags:
  "server_inv srv \<Longrightarrow> server_inv (srv\<lparr>running := r\<rparr>)"
  "server_inv srv \<Longrightarrow> server_inv (srv\<lparr>running := r, stop_requested := b\<rparr>)"
  unfolding server_inv_def watched_def by (auto simp: fun_eq_iff)

lemma server_inv_modify_epoll:
  assumes inv: "server_inv srv" and p: "objects srv p = Some s"
  shows "server_inv (snd (modify_epoll (client_fd s) client_events (fd_to_ptr (client_fd s)) srv))"
proof -
  note d = server_invD [OF inv]
  have r: "registered_fd (connection_manager srv) (client_fd s)"
    using registered_fd_iff [OF d(1)] d(5) [OF p] p by (auto simp: registered_ptrs_def)
  with d(7) [OF r] have "map_of (AList.update (client_fd s) (client_events, fd_to_ptr (client_fd s)) (interest srv)) = map_of (interest srv)"
    by (auto simp: d(9) watched_def)
  with inv show ?thesis
    unfolding server_inv_def watched_def modify_epoll_def by auto
qed

section \<open>Accepted connections\<close>

text \<open>
  A connection for which a call fails leaves no trace but its closed descriptor, which is
  closed twice: by the loop and by the destructor.
\<close>

definition dropped :: "connection \<Rightarrow> UnixSocketServer \<Rightarrow> UnixSocketServer" where
  "dropped c srv =
     srv\<lparr>next_object := next_object srv + 1, next_session_id := next_session_id srv + 1,
         open_fds := removeAll (conn_fd c) (open_fds srv),
         interest := AList.delete (conn_fd c) (interest srv),
         close_calls := close_calls srv @ [conn_fd c, conn_fd c]\<rparr>"

definition fresh_conn :: "connection \<Rightarrow> UnixSocketServer \<Rightarrow> bool" where
  "fresh_conn c srv \<longleftrightarrow>
     0 \<le> sint (conn_fd c) \<and> conn_fd c \<in> set (open_fds srv) \<and> conn_fd c \<noteq> server_fd srv \<and>
     \<not> registered_fd (connection_manager srv) (conn_fd c) \<and>
     next_session_id srv < next_session_id srv + 1"

lemma server_inv_fresh:
  assumes "server_inv srv"
  shows "objects srv (next_object srv) = None"
    and "next_session_id srv < next_session_id srv + 1 \<Longrightarrow>
      \<not> registered_id (connection_manager srv) (next_session_id srv + 1)"
    and "next_object srv \<notin> registered_ptrs (connection_manager srv)"
proof -
  note d = server_invD [OF assms]
  show *: "objects srv (next_object srv) = None" using d(4) by (meson less_irrefl not_None_eq)
  show "\<not> registered_id (connection_manager srv) (next_session_id srv + 1)"
    if "next_session_id srv < next_session_id srv + 1"
    using that d(6) leD by blast
  show "next_object srv \<notin> registered_ptrs (connection_manager srv)"
    using cm_invD(3) [OF d(1)] * registered_ptrs_iff [OF cm_invD(1) [OF d(1)]] by fastforce
qed

lemma open_session_failed:
  assumes inv: "server_inv srv" and c: "fresh_conn c srv"
    and fail: "\<not> (getfl_ok c \<and> setfl_ok c \<and> epoll_add_ok c)"
  shows "open_session c srv = dropped c srv"
proof -
  note f = server_inv_fresh [OF inv]
  have none: "map_of (interest srv) (conn_fd c) = None"
    using c server_invD(9) [OF inv] by (simp add: fresh_conn_def watched_def)
  let ?s = "fst (new_session (next_session_id srv) (conn_fd c))"
  let ?st = "(objects srv)(next_object srv := Some ?s)"
  have undo: "remove_session_by_fd (conn_fd c) (add_session ?st (Some (next_object srv)) (connection_manager srv))
      = connection_manager srv"
    using remove_after_add [of ?st "next_object srv" ?s "connection_manager srv"] c f(2)
    by (simp add: new_session_def fresh_conn_def)
  have pos: "0 \<le> sint (conn_fd c)" using c by (simp add: fresh_conn_def)
  have p: "next_object srv \<notin> snd ` set (sessions_by_id (connection_manager srv))"
    using f(3) by (simp add: registered_ptrs_def)
  have same: "(objects srv)(next_object srv := None) = objects srv" using f(1) by auto
  show ?thesis
    using fail none undo pos p same
    by (auto simp: open_session_def make_session_def new_session_def initialize_def
        release_session_def add_to_epoll_def sys_close_def dropped_def destroy_session_def
        close_session_def Let_def delete_idem)
qed

lemma open_session_accepted:
  assumes inv: "server_inv srv" and c: "fresh_conn c srv"
    and ok: "getfl_ok c" "setfl_ok c" "epoll_add_ok c"
  shows "open_session c srv =
    (let s = fst (new_session (next_session_id srv) (conn_fd c));
         st = (objects srv)(next_object srv := Some s)
     in srv\<lparr>objects := st, next_object := next_object srv + 1, next_session_id := next_session_id srv + 1,
            connection_manager := add_session st (Some (next_object srv)) (connection_manager srv),
            interest := AList.update (conn_fd c) (client_events, fd_to_ptr (conn_fd c)) (interest srv)\<rparr>)"
proof -
  have none: "map_of (interest srv) (conn_fd c) = None"
    using c server_invD(9) [OF inv] by (simp add: fresh_conn_def watched_def)
  let ?s = "fst (new_session (next_session_id srv) (conn_fd c))"
  let ?st = "(objects srv)(next_object srv := Some ?s)"
  have "next_object srv \<in> snd ` set (sessions_by_id
      (add_session ?st (Some (next_object srv)) (connection_manager srv)))"
    using registered_ptrs_add [of ?st "next_object srv" ?s "connection_manager srv"] c
      server_inv_fresh(2) [OF inv]
    by (simp add: registered_ptrs_def new_session_def fresh_conn_def)
  then show ?thesis
    using ok none
    by (simp add: open_session_def make_session_def new_session_def initialize_def
        release_session_def add_to_epoll_def client_events_def Let_def)
qed

lemma server_inv_dropped:
  assumes inv: "server_inv srv" and c: "fresh_conn c srv"
  shows "server_inv (dropped c srv)"
proof -
  note d = server_invD [OF inv]
  have ids: "i \<le> next_session_id srv + 1" if "registered_id (connection_manager srv) i" for i
    using d(6) [OF that] c unfolding fresh_conn_def by (meson less_imp_le order_trans)
  have watch: "map_of (AList.delete (conn_fd c) (interest srv)) = watched (dropped c srv)"
    using c d(9) by (auto simp: fun_eq_iff fresh_conn_def watched_def dropped_def)
  have fds: "registered_fd (connection_manager srv) fd \<Longrightarrow> fd \<noteq> conn_fd c" for fd
    using c by (auto simp: fresh_conn_def)
  show ?thesis
    unfolding server_inv_def watch [symmetric]
    using d(1,2,8,10) d(3-5) d(7) ids fds c
    by (auto simp: dropped_def fresh_conn_def less_Suc_eq)
qed

lemma cm_inv_new_object:
  assumes inv: "cm_inv st cm" and "st q = None"
  shows "cm_inv (st(q := Some s)) cm"
proof (rule cm_invI)
  fix i p
  assume i: "map_of (sessions_by_id cm) i = Some p"
  from cm_invD(3) [OF inv i] assms(2)
  show "\<exists>t. (st(q := Some s)) p = Some t \<and> session_id t = i \<and> map_of (fd_to_id cm) (client_fd t) = Some i" by auto
next
  fix fd i
  assume i: "map_of (fd_to_id cm) fd = Some i"
  from cm_invD(4) [OF inv i] assms(2)
  show "\<exists>p t. map_of (sessions_by_id cm) i = Some p \<and> (st(q := Some s)) p = Some t \<and> client_fd t = fd" by fastforce
qed (use cm_invD(1,2) [OF inv] in simp_all)

lemma server_inv_accepted:
  assumes inv: "server_inv srv" and c: "fresh_conn c srv"
    and ok: "getfl_ok c" "setfl_ok c" "epoll_add_ok c"
    and room: "session_count (connection_manager srv) < max_connections (config srv)"
  shows "server_inv (open_session c srv)"
proof -
  note d = server_invD [OF inv] and f = server_inv_fresh [OF inv]
  let ?p = "next_object srv" and ?cm = "connection_manager srv"
  define s where "s = fst (new_session (next_session_id srv) (conn_fd c))"
  define st where "st = (objects srv)(?p := Some s)"
  define cm where "cm = add_session st (Some ?p) ?cm"
  have s: "client_fd s = conn_fd c" "session_id s = next_session_id srv + 1" "session_inv s"
    using session_inv_new by (simp_all add: s_def new_session_def)
  have st: "st ?p = Some s" by (simp add: st_def)
  have id: "\<not> registered_id ?cm (session_id s)" using f(2) c s(2) by (simp add: fresh_conn_def)
  have fd: "\<not> registered_fd ?cm (client_fd s)" using c s(1) by (simp add: fresh_conn_def)
  have eq: "open_session c srv =
      srv\<lparr>objects := st, next_object := ?p + 1, next_session_id := next_session_id srv + 1,
          connection_manager := cm,
          interest := AList.update (conn_fd c) (client_events, fd_to_ptr (conn_fd c)) (interest srv)\<rparr>"
    using open_session_accepted [OF inv c ok] by (simp add: Let_def s_def st_def cm_def)
  have old: "cm_inv st ?cm" unfolding st_def by (rule cm_inv_new_object [OF d(1) f(1)])
  have new: "cm_inv st cm" unfolding cm_def by (rule cm_inv_add [OF old st fd id])
  have reg: "registered_fd cm fd \<longleftrightarrow> fd = conn_fd c \<or> registered_fd ?cm fd"
      "registered_id cm i \<longleftrightarrow> i = next_session_id srv + 1 \<or> registered_id ?cm i" for fd i
    using registered_add [of st ?p s ?cm] st s by (simp_all add: cm_def)
  have ptrs: "registered_ptrs cm = insert ?p (registered_ptrs ?cm)"
    unfolding cm_def by (rule registered_ptrs_add [of st ?p s, OF st id])
  have cnt: "session_count cm = Suc (session_count ?cm)"
    unfolding cm_def by (rule session_count_add [of st ?p s, OF st id])
  have ids: "i \<le> next_session_id srv + 1" if "registered_id ?cm i" for i
    using d(6) [OF that] c unfolding fresh_conn_def by (meson less_imp_le order_trans)
  have watch: "map_of (interest (open_session c srv)) = watched (open_session c srv)"
    using c d(9) by (auto simp: fun_eq_iff fresh_conn_def watched_def eq reg)
  show ?thesis
    unfolding server_inv_def watch [symmetric]
    using new cnt room ptrs reg ids d(3-5) d(7,8,10) s(3) c
    by (auto simp: eq st_def fresh_conn_def less_Suc_eq split: if_splits)
qed

lemma server_inv_open_session:
  assumes "server_inv srv" and "fresh_conn c srv"
    and "session_count (connection_manager srv) < max_connections (config srv)"
  shows "server_inv (open_session c srv)"
    and "next_session_id (open_session c srv) = next_session_id srv + 1"
    and "config (open_session c srv) = config srv"
  using assms server_inv_accepted [OF assms(1,2) _ _ _ assms(3)] server_inv_dropped [OF assms(1,2)]
  by (cases "getfl_ok c \<and> setfl_ok c \<and> epoll_add_ok c";
      simp add: open_session_failed open_session_accepted Let_def dropped_def)+

text \<open>\<open>accept4\<close> gives an open, unregistered descriptor.\<close>

lemma accept_connection_cases:
  assumes inv: "server_inv srv" and a: "accept_connection srv cs = (r, srv', cs')"
  shows "server_inv srv' \<and> next_session_id srv' = next_session_id srv \<and> length cs' \<le> length cs \<and>
    (\<forall>c. r = Some c \<longrightarrow>
      (next_session_id srv < next_session_id srv + 1 \<longrightarrow> fresh_conn c srv') \<and>
      session_count (connection_manager srv') < max_connections (config srv'))"
proof -
  note d = server_invD [OF inv]
  have frame: "server_inv (sys_open fd srv)" for fd
    using inv unfolding server_inv_def watched_def sys_open_def by (auto simp: fun_eq_iff)
  have undo: "server_inv (sys_close fd (sys_open fd srv))" if "valid_fd srv fd" for fd
  proof -
    have no: "\<not> registered_fd (connection_manager srv) fd" "fd \<noteq> server_fd srv"
      using that d(7,8) by (auto simp: valid_fd_def)
    then have "map_of (AList.delete fd (interest srv)) = watched (sys_close fd (sys_open fd srv))"
      using d(9) by (auto simp: fun_eq_iff watched_def sys_close_def sys_open_def)
    then show ?thesis
      using d(1-8,10) no
      unfolding server_inv_def by (auto simp: sys_close_def sys_open_def)
  qed
  have fresh: "fresh_conn c (sys_open (conn_fd c) srv)"
    if "valid_fd srv (conn_fd c)" "next_session_id srv < next_session_id srv + 1" for c
    using that d(7,8) by (auto simp: fresh_conn_def valid_fd_def sys_open_def)
  show ?thesis
    using a inv frame undo fresh
    by (cases "(srv, cs)" rule: sys_accept.cases)
      (auto simp: accept_connection_def sys_open_def sys_close_def split: if_splits)
qed

lemma no_wrap: "unat (i :: uint64) + 1 < 2 ^ 64 \<Longrightarrow> i < i + 1 \<and> unat (i + 1) = unat i + 1"
  by (simp add: word_less_nat_alt unat_word_ariths)

text \<open>
  What \<open>accept_connection\<close> and one round of the loop keep, the loop keeps.
\<close>

lemma accept_loop_keeps:
  assumes "server_inv srv" and "unat (next_session_id srv) + length cs < 2 ^ 64" and "Q srv"
    and none: "\<And>srv cs srv' cs'. Q srv \<Longrightarrow> accept_connection srv cs = (None, srv', cs') \<Longrightarrow> Q srv'"
    and opn: "\<And>c srv cs srv' cs'. Q srv \<Longrightarrow> accept_connection srv cs = (Some c, srv', cs') \<Longrightarrow>
      server_inv srv' \<Longrightarrow> fresh_conn c srv' \<Longrightarrow> Q (open_session c srv')"
  shows "server_inv (fst (accept_loop srv cs)) \<and> Q (fst (accept_loop srv cs))"
  using assms(1-3)
proof (induction srv cs rule: accept_loop.induct)
  case (1 srv cs)
  obtain r srv1 cs1 where a: "accept_connection srv cs = (r, srv1, cs1)" by (metis prod_cases3)
  note cases = accept_connection_cases [OF 1(2) a]
  show ?case
  proof (cases r)
    case None
    with a cases none [OF 1(4)] show ?thesis by (simp add: accept_loop.simps [of srv])
  next
    case (Some c)
    have shorter: "length cs1 < length cs" using a Some accept_connection_shorter by blast
    then have small: "unat (next_session_id srv) + 1 < 2 ^ 64" using 1(3) by simp
    with cases Some have fresh: "fresh_conn c srv1"
      "session_count (connection_manager srv1) < max_connections (config srv1)"
      using no_wrap by blast+
    note o = server_inv_open_session [OF _ fresh]
    have "unat (next_session_id (open_session c srv1)) + length cs1 < 2 ^ 64"
      using o(2) cases no_wrap [OF small] shorter 1(3) by simp
    moreover have "Q (open_session c srv1)" using opn [OF 1(4) _ _ fresh(1)] a Some cases by blast
    ultimately show ?thesis
      using 1(1) [OF a [symmetric]] Some o(1) cases
      by (simp add: accept_loop.simps [of srv] a)
  qed
qed

lemmas server_inv_accept_loop =
  accept_loop_keeps [where Q = "\<lambda>_. True", simplified]

section \<open>The callback of a session\<close>

text \<open>What \<open>schedule_send\<close> and \<open>schedule_send_error\<close> keep, as one relation.\<close>

definition queued :: "Session \<Rightarrow> Session \<Rightarrow> bool" where
  "queued s s' \<longleftrightarrow> read_buffer s' = read_buffer s \<and> ss_parser s' = ss_parser s \<and>
     ss_state s' = ss_state s \<and> client_fd s' = client_fd s \<and> session_id s' = session_id s \<and>
     (buf_ok (write_buffer s) \<longrightarrow> buf_ok (write_buffer s'))"

lemma queued_refl [simp]: "queued s s"
  by (simp add: queued_def)

lemma queued_trans: "queued s s' \<Longrightarrow> queued s' s'' \<Longrightarrow> queued s s''"
  by (simp add: queued_def)

lemma queued_message: "schedule_message J msg s = Inr s' \<Longrightarrow> queued s s'"
  using schedule_message_keeps [of J msg s s'] by (simp add: queued_def)

lemma queued_schedule:
  "schedule_send J r s = Inr s' \<Longrightarrow> queued s s'"
  "schedule_send_error J e s = Inr s' \<Longrightarrow> queued s s'"
  by (auto simp: schedule_send_def schedule_send_error_def intro: queued_message)

lemma queued_session_inv: "queued s s' \<Longrightarrow> session_inv s \<Longrightarrow> session_inv s'"
  by (simp add: queued_def session_inv_def)

text \<open>
  \<open>on_message\<close> replaces one object by one with more queued bytes and may rewrite the
  epoll entry of that session.
\<close>

lemma on_object_cases:
  assumes "\<And>s s'. f s = Inr s' \<Longrightarrow> queued s s'" and "objects srv q = Some s"
  shows "\<exists>s'. queued s s' \<and>
    fst (on_object q f srv) = srv\<lparr>objects := (objects srv)(q := Some s')\<rparr>"
proof (cases "f s")
  case (Inl e)
  then show ?thesis using assms(2) by (auto simp: on_object_def fun_upd_idem intro!: exI [of _ s])
next
  case (Inr s')
  then show ?thesis using assms by (auto simp: on_object_def)
qed

lemma on_message_cases:
  assumes "objects srv q = Some s" and "on_message J ch msg q srv w = (srv', w', x)"
  shows "\<exists>s'. queued s s' \<and>
    (srv' = srv\<lparr>objects := (objects srv)(q := Some s')\<rparr> \<or>
     srv' = snd (modify_epoll (client_fd s) client_events (fd_to_ptr (client_fd s))
              (srv\<lparr>objects := (objects srv)(q := Some s')\<rparr>)))"
proof -
  let ?err = "\<lambda>e. on_object q (schedule_send_error J (internal_error_response msg e))"
  have err: "\<exists>s'. queued s s' \<and> fst (?err e srv) = srv\<lparr>objects := (objects srv)(q := Some s')\<rparr>" for e
    by (rule on_object_cases [OF queued_schedule(2) assms(1)])
  obtain r w1 where r: "ch msg w = (r, w1)" by fastforce
  show ?thesis
  proof (cases r)
    case (Inl e)
    with r assms(2) err [of e] show ?thesis by (auto simp: on_message_def split: prod.splits)
  next
    case (Inr resp)
    let ?f = "schedule_send J (resp\<lparr>rs_id := rq_id msg\<rparr>)"
    show ?thesis
    proof (cases "?f s")
      case (Inl e)
      then have "on_object q ?f srv = (srv, Some e)" using assms(1) by (simp add: on_object_def)
      with r Inr assms(2) err [of e] show ?thesis by (auto simp: on_message_def split: prod.splits)
    next
      case ok: (Inr s')
      then have "on_object q ?f srv = (srv\<lparr>objects := (objects srv)(q := Some s')\<rparr>, None)"
        using assms(1) by (simp add: on_object_def)
      moreover have "queued s s'" using ok by (rule queued_schedule(1))
      ultimately show ?thesis
        using r Inr assms(2)
        by (auto simp: on_message_def object_fd_def queued_def client_events_def intro!: exI [of _ s'])
    qed
  qed
qed

text \<open>
  The property of the world that the callback keeps: with some session of the same
  identity at \<open>p\<close>, the server is in its invariant and its tables are unchanged.
\<close>

definition callback_inv :: "ConnectionManager \<Rightarrow> session_ptr \<Rightarrow> Session \<Rightarrow> UnixSocketServer \<times> 'w \<Rightarrow> bool" where
  "callback_inv cm p s sw \<longleftrightarrow>
     connection_manager (fst sw) = cm \<and>
     (\<exists>s0. client_fd s0 = client_fd s \<and> session_id s0 = session_id s \<and> session_inv s0 \<and>
        server_inv ((fst sw)\<lparr>objects := (objects (fst sw))(p := Some s0)\<rparr>))"

lemma on_message_other:
  "on_message J ch msg q srv w = (srv', w', x) \<Longrightarrow> p \<noteq> q \<Longrightarrow> objects srv' p = objects srv p"
  by (auto simp: on_message_def on_object_def modify_epoll_def
      split: prod.splits sum.splits option.splits if_splits)

lemma modify_epoll_frame [simp]:
  "connection_manager (snd (modify_epoll fd ev d srv)) = connection_manager srv"
  "objects (snd (modify_epoll fd ev d srv)) = objects srv"
  "(snd (modify_epoll fd ev d srv))\<lparr>objects := st\<rparr> = snd (modify_epoll fd ev d (srv\<lparr>objects := st\<rparr>))"
  by (simp_all add: modify_epoll_def)

lemma callback_queued:
  assumes "session_callback J ch p msg s sw = (s', sw', e)"
  shows "queued s s'"
proof -
  let ?srv = "(fst sw)\<lparr>objects := (objects (fst sw))(p := Some s)\<rparr>"
  have here: "\<exists>t. objects srv1 p = Some t \<and> queued s t"
    if "on_message J ch msg q ?srv (snd sw) = (srv1, w1, x)" for q srv1 w1 x
  proof (cases "q = p")
    case True
    then show ?thesis using on_message_cases [OF _ that, of s] by auto
  next
    case False
    then show ?thesis using on_message_other [OF that, of p] by simp
  qed
  show ?thesis
    using assms
    by (auto simp: session_callback_def Let_def split: option.splits prod.splits dest: here)
qed

text \<open>A response queued on another session: its object changes, and its interest entry is renewed.\<close>

lemma server_inv_queued:
  assumes inv: "server_inv srv" and t: "objects srv q = Some t" and q: "queued t t'"
    and upd: "srv' = srv\<lparr>objects := (objects srv)(q := Some t')\<rparr> \<or>
      srv' = snd (modify_epoll (client_fd t) client_events (fd_to_ptr (client_fd t))
        (srv\<lparr>objects := (objects srv)(q := Some t')\<rparr>))"
  shows "server_inv srv'"
proof -
  have inv2: "server_inv (srv\<lparr>objects := (objects srv)(q := Some t')\<rparr>)"
    using t q queued_session_inv [OF q] server_invD(3) [OF inv t]
    by (intro server_inv_object [OF inv, of q t]) (simp_all add: queued_def)
  moreover have "client_fd t' = client_fd t" using q by (simp add: queued_def)
  ultimately show ?thesis using upd server_inv_modify_epoll [OF inv2, of q t'] by auto
qed

lemma callback_inv_step:
  assumes I: "callback_inv cm p s sw" and cb: "session_callback J ch p msg s sw = (s', sw', e)"
  shows "callback_inv cm p s' sw'"
proof -
  let ?srv = "(fst sw)\<lparr>objects := (objects (fst sw))(p := Some s)\<rparr>"
  from I obtain s0 where cm: "connection_manager (fst sw) = cm"
    and s0: "client_fd s0 = client_fd s" "session_id s0 = session_id s" "session_inv s0"
    and inv: "server_inv ((fst sw)\<lparr>objects := (objects (fst sw))(p := Some s0)\<rparr>)" (is "server_inv ?base")
    by (auto simp: callback_inv_def)
  have s': "client_fd s' = client_fd s" "session_id s' = session_id s"
    using callback_queued [OF cb] by (simp_all add: queued_def)
  have "connection_manager (fst sw') = cm \<and>
      server_inv ((fst sw')\<lparr>objects := (objects (fst sw'))(p := Some s0)\<rparr>)"
  proof (cases "get_session_by_fd (request_fd msg) cm")
    case None
    with cb cm inv show ?thesis by (auto simp: session_callback_def Let_def)
  next
    case (Some q)
    obtain srv1 w1 x where m: "on_message J ch msg q ?srv (snd sw) = (srv1, w1, x)"
      by (metis prod_cases3)
    with cb cm Some have sw': "fst sw' = srv1" by (auto simp: session_callback_def Let_def)
    show ?thesis
    proof (cases "q = p")
      case True
      with on_message_cases [OF _ m, of s] obtain t where
        "srv1 = ?srv\<lparr>objects := (objects ?srv)(p := Some t)\<rparr> \<or>
         srv1 = snd (modify_epoll (client_fd s) client_events (fd_to_ptr (client_fd s))
              (?srv\<lparr>objects := (objects ?srv)(p := Some t)\<rparr>))" by auto
      then show ?thesis
        using sw' cm inv server_inv_modify_epoll [OF inv, of p s0] s0(1) by auto
    next
      case False
      from get_by_fd_sound [OF server_invD(1) [OF inv], of "request_fd msg" q] Some cm False obtain t where
        t: "objects (fst sw) q = Some t" by auto
      with on_message_cases [OF _ m, of t] False obtain t' where
        t': "queued t t'" "srv1 = ?srv\<lparr>objects := (objects ?srv)(q := Some t')\<rparr> \<or>
         srv1 = snd (modify_epoll (client_fd t) client_events (fd_to_ptr (client_fd t))
              (?srv\<lparr>objects := (objects ?srv)(q := Some t')\<rparr>))" by auto
      have "objects ?base q = Some t" using t False by simp
      then have "server_inv (srv1\<lparr>objects := (objects srv1)(p := Some s0)\<rparr>)"
        by (rule server_inv_queued [OF inv _ t'(1)]) (use t'(2) False in \<open>auto simp: fun_upd_twist\<close>)
      with sw' cm t'(2) show ?thesis by auto
    qed
  qed
  with s0 s' show ?thesis by (auto simp: callback_inv_def)
qed

interpretation cb: world_handler "session_callback J ch p" "callback_inv cm p"
  for J :: "'j json_api" and ch :: "('j, 'w) command_handler" and cm p
proof unfold_locales
  fix m s w s' w' e
  assume "session_callback J ch p m s w = (s', w', e)"
  from callback_queued [OF this]
  show "read_buffer s' = read_buffer s \<and> ss_parser s' = ss_parser s \<and> ss_state s' = ss_state s"
    and "buf_ok (write_buffer s) \<Longrightarrow> buf_ok (write_buffer s')"
    by (simp_all add: queued_def)
next
  fix s t :: Session and w :: "UnixSocketServer \<times> 'w"
  assume "callback_inv cm p s w" "client_fd t = client_fd s" "session_id t = session_id s"
  then show "callback_inv cm p t w" by (simp add: callback_inv_def)
qed (rule callback_inv_step)

section \<open>Events keep the invariant\<close>

text \<open>
  A session that ends: it leaves the interest list and the tables, its object dies and its
  destructor closes the descriptor.
\<close>

definition ended :: "int32 \<Rightarrow> session_ptr \<Rightarrow> UnixSocketServer \<Rightarrow> UnixSocketServer" where
  "ended fd p srv =
     srv\<lparr>interest := AList.delete fd (interest srv),
         connection_manager := remove_session_by_fd fd (connection_manager srv),
         objects := (objects srv)(p := None),
         open_fds := removeAll fd (open_fds srv),
         close_calls := close_calls srv @ [fd]\<rparr>"

lemma release_ended:
  assumes inv: "server_inv srv" and p: "get_session_by_fd fd (connection_manager srv) = Some p"
  defines "srv1 \<equiv> snd (remove_from_epoll fd srv)"
  shows "release_session p (srv1\<lparr>connection_manager := remove_session_by_fd fd (connection_manager srv1)\<rparr>)
    = ended fd p srv"
proof -
  note d = server_invD [OF inv]
  from get_by_fd_sound [OF d(1) p] obtain s where s: "objects srv p = Some s" "client_fd s = fd"
    by blast
  have r: "registered_fd (connection_manager srv) fd" using get_by_fd_registered [OF d(1), of fd] p by simp
  have out: "p \<notin> snd ` set (sessions_by_id (remove_session_by_fd fd (connection_manager srv)))"
    using registered_ptrs_remove [OF d(1) p] by (simp add: registered_ptrs_def)
  have "map_of (interest srv) fd \<noteq> None" using d(9) r by (simp add: watched_def)
  then have srv1: "srv1 = srv\<lparr>interest := AList.delete fd (interest srv)\<rparr>"
    by (auto simp: srv1_def remove_from_epoll_def)
  have "destroy_session s = [fd]"
    using d(7) [OF r] s(2) by (simp add: destroy_session_def close_session_def Let_def)
  with s out show ?thesis
    by (simp add: srv1 release_session_def sys_close_def ended_def delete_idem)
qed

lemma server_inv_ended:
  assumes inv: "server_inv srv" and p: "get_session_by_fd fd (connection_manager srv) = Some p"
  shows "server_inv (ended fd p srv)"
proof -
  note d = server_invD [OF inv]
  let ?cm = "remove_session_by_fd fd (connection_manager srv)"
  have r: "registered_fd (connection_manager srv) fd" using get_by_fd_registered [OF d(1), of fd] p by simp
  have ptrs: "registered_ptrs ?cm = registered_ptrs (connection_manager srv) - {p}"
    by (rule registered_ptrs_remove [OF d(1) p])
  have old: "cm_inv (objects srv) ?cm" by (rule cm_inv_remove_by_fd [OF d(1)])
  have live: "q \<noteq> p" if "map_of (sessions_by_id ?cm) i = Some q" for i q
    using that ptrs registered_ptrs_iff [OF cm_invD(1) [OF old]] by blast
  have "cm_inv ((objects srv)(p := None)) ?cm"
  proof (rule cm_invI)
    fix i q
    assume i: "map_of (sessions_by_id ?cm) i = Some q"
    from cm_invD(3) [OF old i] live [OF i]
    show "\<exists>s. ((objects srv)(p := None)) q = Some s \<and> session_id s = i \<and>
        map_of (fd_to_id ?cm) (client_fd s) = Some i" by simp
  next
    fix f i
    assume i: "map_of (fd_to_id ?cm) f = Some i"
    from cm_invD(4) [OF old i] live
    show "\<exists>q s. map_of (sessions_by_id ?cm) i = Some q \<and>
        ((objects srv)(p := None)) q = Some s \<and> client_fd s = f" by fastforce
  qed (use cm_invD(1,2) [OF old] in simp_all)
  moreover have "map_of (interest (ended fd p srv)) = watched (ended fd p srv)"
    using d(7) [OF r] d(9) by (auto simp: fun_eq_iff watched_def ended_def registered_remove_by_fd)
  moreover have "session_count ?cm \<le> max_connections (config srv)"
    using session_count_remove d(2) le_trans by blast
  ultimately show ?thesis
    using ptrs d(3-8,10) d(7) [OF r] registered_remove_by_fd(2) [of fd "connection_manager srv"]
    unfolding server_inv_def
    by (auto simp: ended_def registered_remove_by_fd(1) split: if_splits)
qed

lemma callback_inv_start:
  assumes "server_inv srv" and "objects srv p = Some s"
  shows "callback_inv (connection_manager srv) p s (srv, w)"
  using assms server_invD(3) [OF assms]
  by (auto simp: callback_inv_def fun_upd_idem intro!: exI [of _ s])

text \<open>The read phase of an event, with the session put back into the heap.\<close>

lemma server_inv_readable:
  assumes inv: "server_inv srv" and s: "objects srv p = Some s"
    and r: "on_readable J (Some (session_callback J ch p)) err0 s (srv, w) inp = Some (ok, s1, sw, inp')"
  shows "server_inv ((fst sw)\<lparr>objects := (objects (fst sw))(p := Some s1)\<rparr>)"
    and "connection_manager (fst sw) = connection_manager srv" and "session_inv s1"
    and "client_fd s1 = client_fd s"
proof -
  have "callback_inv (connection_manager srv) p s1 sw"
    by (rule cb.on_readable_I [OF r callback_inv_start [OF inv s]])
  then obtain s0 where s0: "client_fd s0 = client_fd s1" "session_id s0 = session_id s1"
      "server_inv ((fst sw)\<lparr>objects := (objects (fst sw))(p := Some s0)\<rparr>)"
      and cm: "connection_manager (fst sw) = connection_manager srv"
    by (auto simp: callback_inv_def)
  show inv1: "session_inv s1"
  proof -
    have "\<exists>ok s' w' inp'. on_readable J (Some (session_callback J ch p)) err0 s (srv, w) inp =
        Some (ok, s', w', inp') \<and> session_inv s' \<and>
        (ok \<longrightarrow> ss_state s' = Active) \<and> (\<not> ok \<longrightarrow> ss_state s' = Closed)"
      by (rule cb.on_readable_total) (rule server_invD(3) [OF inv s])
    with r show ?thesis by auto
  qed
  show srv1: "server_inv ((fst sw)\<lparr>objects := (objects (fst sw))(p := Some s1)\<rparr>)"
    using server_inv_object [OF s0(3), of p s0 s1] s0(1,2) inv1 by simp
  show "connection_manager (fst sw) = connection_manager srv" by (rule cm)
  from server_invD(5) [OF inv s] obtain i where i: "map_of (sessions_by_id (connection_manager srv)) i = Some p"
    using registered_ptrs_iff [OF cm_invD(1) [OF server_invD(1) [OF inv]]] by blast
  from cm_invD(3) [OF server_invD(1) [OF inv] i] cm_invD(3) [OF server_invD(1) [OF srv1], of i p] i cm s
  have "session_id s1 = i" "map_of (fd_to_id (connection_manager srv)) (client_fd s1) = Some i"
    "map_of (fd_to_id (connection_manager srv)) (client_fd s) = Some i" by auto
  then show "client_fd s1 = client_fd s"
    using fd_determines_id [OF server_invD(1) [OF inv]] by blast
qed

text \<open>
  An event on a client socket is handled: the session stays, or it ends; the invariant holds
  after the read and write phases, and so does every property \<open>I\<close> that the callback keeps.
\<close>

lemma client_event_cases:
  assumes inv: "server_inv srv" and s: "objects srv p = Some s"
    and p: "get_session_by_fd (ptr_to_fd (ev_ptr ev)) (connection_manager srv) = Some p"
    and I: "world_handler (session_callback J ch p) I" "I s (srv, w)"
  obtains srv1 w1 s2 sent upd where
    "upd = srv1\<lparr>objects := (objects srv1)(p := Some s2), wire := wire srv1 @ sent\<rparr>"
    "server_inv upd" "connection_manager upd = connection_manager srv" "I s2 (srv1, w1)"
    "client_event J ch ev p s srv w = Some (upd, w1) \<or>
     client_event J ch ev p s srv w = Some (ended (ptr_to_fd (ev_ptr ev)) p upd, w1)"
proof -
  let ?fd = "ptr_to_fd (ev_ptr ev)"
  obtain active1 s1 srv1 w1 where read:
      "(if ev_events ev AND (EPOLLIN OR EPOLLERR OR EPOLLHUP) \<noteq> 0 then
         map_option (\<lambda>(ok, s1, sw, inp). (ok, s1, sw))
           (on_readable J (Some (session_callback J ch p)) (ev_errno ev) s (srv, w) (ev_input ev))
        else Some (True, s, (srv, w))) = Some (active1, s1, (srv1, w1))"
    and inv1: "server_inv (srv1\<lparr>objects := (objects srv1)(p := Some s1)\<rparr>)" "session_inv s1"
    and cm: "connection_manager srv1 = connection_manager srv" and I1: "I s1 (srv1, w1)"
  proof (cases "ev_events ev AND (EPOLLIN OR EPOLLERR OR EPOLLHUP) \<noteq> 0")
    case True
    obtain ok t sw inp' where
      r: "on_readable J (Some (session_callback J ch p)) (ev_errno ev) s (srv, w) (ev_input ev) = Some (ok, t, sw, inp')"
      using cb.on_readable_total [OF server_invD(3) [OF inv s]] by blast
    show thesis
      using r True server_inv_readable [OF inv s r] world_handler.on_readable_I [OF I(1) r I(2)]
      by (intro that [of ok t "fst sw" "snd sw"]) simp_all
  next
    case False
    with inv s server_invD(3) [OF inv s] I(2) show thesis
      by (intro that [of True s srv w]) (simp_all add: fun_upd_idem)
  qed
  obtain active s2 sent where wr:
      "(if active1 \<and> ev_events ev AND EPOLLOUT \<noteq> 0 then
          (case on_writable (ev_errno ev) s1 (ev_output ev) of
             (ok, s2, sent, out) \<Rightarrow> (ok, s2, [(?fd, sent)]))
        else (active1, s1, [])) = (active, s2, sent)"
    and s2: "session_inv s2" "client_fd s2 = client_fd s1" "session_id s2 = session_id s1"
      "\<forall>e\<in>set sent. snd e = []"
  proof (cases "active1 \<and> ev_events ev AND EPOLLOUT \<noteq> 0")
    case True
    with inv1(2) show thesis
      by (intro that [of True "s1\<lparr>ss_state := Active\<rparr>" "[(?fd, [])]"]) (simp_all add: session_inv_writable)
  next
    case False
    with inv1(2) show thesis by (intro that [of active1 s1 "[]"]) auto
  qed
  let ?upd = "srv1\<lparr>objects := (objects srv1)(p := Some s2), wire := wire srv1 @ sent\<rparr>"
  have inv2: "server_inv ?upd"
    using server_inv_wire [OF server_inv_object [OF inv1(1), of p s1 s2]] s2 by simp
  have p2: "get_session_by_fd ?fd (connection_manager ?upd) = Some p" using p cm by simp
  have "client_event J ch ev p s srv w = Some (if \<not> active \<or> is_closed s2 then ended ?fd p ?upd else ?upd, w1)"
    unfolding client_event_def Let_def read bind.simps prod.case wr
    using release_ended [OF inv2 p2] by simp
  then show thesis
    using inv2 cm world_handler.I_frame [OF I(1) I1 s2(2,3)]
    by (intro that [of ?upd srv1 sent s2 w1]) auto
qed

lemma client_event_inv:
  assumes inv: "server_inv srv" and s: "objects srv p = Some s"
    and p: "get_session_by_fd (ptr_to_fd (ev_ptr ev)) (connection_manager srv) = Some p"
  shows "\<exists>srv' w'. client_event J ch ev p s srv w = Some (srv', w') \<and> server_inv srv'"
proof -
  have start: "callback_inv (connection_manager srv) p s (srv, w)" by (rule callback_inv_start [OF inv s])
  show ?thesis
  proof (rule client_event_cases [OF inv s p cb.world_handler_axioms start])
    fix upd w1
    assume upd: "server_inv upd" "connection_manager upd = connection_manager srv"
      and r: "client_event J ch ev p s srv w = Some (upd, w1) \<or>
        client_event J ch ev p s srv w = Some (ended (ptr_to_fd (ev_ptr ev)) p upd, w1)"
    have "server_inv (ended (ptr_to_fd (ev_ptr ev)) p upd)"
      using upd p by (intro server_inv_ended) simp_all
    with r upd(1) show ?thesis by auto
  qed
qed

text \<open>
  epoll hands back the data words that were stored: 0 for the listening socket and
  \<open>fd_to_ptr fd\<close> for a client, possibly one that an earlier event of the batch removed.
\<close>

definition kernel_event :: "UnixSocketServer \<Rightarrow> event \<Rightarrow> bool" where
  "kernel_event srv ev \<longleftrightarrow> ev_ptr ev = 0 \<or> ptr_to_fd (ev_ptr ev) \<noteq> server_fd srv"

lemma handle_epoll_event_inv:
  assumes inv: "server_inv srv" and ev: "kernel_event srv ev"
    and "unat (next_session_id srv) + length (ev_conns ev) < 2 ^ 64"
  shows "\<exists>srv' w'. handle_epoll_event J ch ev srv w = Some (srv', w') \<and> server_inv srv'"
proof -
  let ?fd = "ptr_to_fd (ev_ptr ev)"
  note d = server_invD [OF inv]
  show ?thesis
  proof (cases "ev_ptr ev = 0")
    case True
    with assms server_inv_accept_loop show ?thesis by (simp add: handle_epoll_event_def)
  next
    case ptr: False
    show ?thesis
    proof (cases "get_session_by_fd ?fd (connection_manager srv)")
      case None
      then have "\<not> registered_fd (connection_manager srv) ?fd"
        using get_by_fd_registered [OF d(1), of ?fd] by auto
      then have "remove_from_epoll ?fd srv = (False, srv)"
        using d(9) ev ptr by (simp add: remove_from_epoll_def watched_def kernel_event_def)
      with ptr None inv show ?thesis by (simp add: handle_epoll_event_def Let_def)
    next
      case (Some p)
      from get_by_fd_sound [OF d(1) Some] obtain s where "objects srv p = Some s" by blast
      with client_event_inv [OF inv this Some] ptr Some show ?thesis
        by (simp add: handle_epoll_event_def Let_def)
    qed
  qed
qed

section \<open>Stopping\<close>

text \<open>With empty tables every released object dies.\<close>

lemma release_unregistered:
  assumes "sessions_by_id (connection_manager srv) = []"
  shows "release_session p srv =
    (case objects srv p of
       None \<Rightarrow> srv
     | Some s \<Rightarrow>
         if 0 \<le> sint (client_fd s)
         then sys_close (client_fd s) (srv\<lparr>objects := (objects srv)(p := None)\<rparr>)
         else srv\<lparr>objects := (objects srv)(p := None)\<rparr>)"
  using assms
  by (simp add: release_session_def destroy_session_def close_session_def Let_def split: option.split)

definition closed_by :: "UnixSocketServer \<Rightarrow> session_ptr list \<Rightarrow> int32 \<Rightarrow> bool" where
  "closed_by srv ps fd \<longleftrightarrow>
     (\<exists>p s. p \<in> set ps \<and> objects srv p = Some s \<and> client_fd s = fd \<and> 0 \<le> sint fd)"

lemma release_frame:
  assumes "sessions_by_id (connection_manager srv) = []"
  shows "config (release_session p srv) = config srv \<and>
    server_fd (release_session p srv) = server_fd srv \<and>
    epoll_fd (release_session p srv) = epoll_fd srv \<and>
    connection_manager (release_session p srv) = connection_manager srv \<and>
    wire (release_session p srv) = wire srv \<and>
    stop_requested (release_session p srv) = stop_requested srv"
  using assms by (simp add: release_unregistered sys_close_def split: option.split)

lemma release_all_frame:
  fixes ps :: "session_ptr list"
  assumes "sessions_by_id (connection_manager srv) = []"
  defines "srv' \<equiv> fold release_session ps srv"
  shows "config srv' = config srv \<and> server_fd srv' = server_fd srv \<and> epoll_fd srv' = epoll_fd srv \<and>
    connection_manager srv' = connection_manager srv \<and> wire srv' = wire srv \<and>
    stop_requested srv' = stop_requested srv"
  using assms(1) unfolding srv'_def
  by (induction ps arbitrary: srv) (simp_all add: release_frame)

lemma closed_by_Cons:
  assumes "sessions_by_id (connection_manager srv) = []"
  shows "closed_by srv (p # ps) fd \<longleftrightarrow>
    closed_by (release_session p srv) ps fd \<or>
      (\<exists>s. objects srv p = Some s \<and> client_fd s = fd \<and> 0 \<le> sint fd)"
proof (cases "objects srv p")
  case None
  then show ?thesis using assms by (auto simp: closed_by_def release_unregistered)
next
  case (Some s)
  have "objects (release_session p srv) = (objects srv)(p := None)"
    using assms Some by (simp add: release_unregistered sys_close_def)
  then show ?thesis using Some by (auto simp: closed_by_def) (metis option.inject)
qed

lemma release_all:
  assumes "sessions_by_id (connection_manager srv) = []"
  shows "objects (fold release_session ps srv) = (\<lambda>p. if p \<in> set ps then None else objects srv p)"
    and "map_of (interest (fold release_session ps srv)) fd =
      (if closed_by srv ps fd then None else map_of (interest srv) fd)"
    and "fd \<in> set (open_fds (fold release_session ps srv)) \<longleftrightarrow>
      fd \<in> set (open_fds srv) \<and> \<not> closed_by srv ps fd"
  using assms
proof (induction ps arbitrary: srv)
  case Nil
  {
    case 1 show ?case by simp
  next
    case 2 show ?case by (simp add: closed_by_def)
  next
    case 3 show ?case by (simp add: closed_by_def)
  }
next
  case (Cons p ps)
  have r: "sessions_by_id (connection_manager srv) = [] \<Longrightarrow>
      sessions_by_id (connection_manager (release_session p srv)) = []" for srv
    by (simp add: release_frame)
  note step = release_unregistered sys_close_def
  {
    case 1
    with Cons.IH(1) [OF r [OF 1]] show ?case
      by (auto simp: step fun_eq_iff split: option.split)
  next
    case 2
    with Cons.IH(2) [OF r [OF 2]] show ?case
      unfolding closed_by_Cons [OF 2]
      by (auto simp: step split: option.splits if_splits)
  next
    case 3
    with Cons.IH(3) [OF r [OF 3]] show ?case
      unfolding closed_by_Cons [OF 3]
      by (auto simp: step split: option.splits if_splits)
  }
qed

text \<open>After \<open>stop()\<close> no session is left: no object, no open client descriptor, no entry.\<close>

text \<open>The descriptors that the end of all registered sessions closes.\<close>

lemma stop_closes:
  fixes srv :: UnixSocketServer
  defines "cm \<equiv> connection_manager srv"
  defines "srv1 \<equiv> srv\<lparr>stop_requested := True, objects := fst (close_all (objects srv) cm),
      connection_manager := new_manager\<rparr>"
  assumes inv: "server_inv srv"
  shows "closed_by srv1 (get_all_sessions cm) f \<longleftrightarrow> registered_fd cm f"
proof -
  note d = server_invD [OF inv, folded cm_def]
  let ?ps = "get_all_sessions cm"
  have ps: "set ?ps = registered_ptrs cm" by (simp add: get_all_sessions_def registered_ptrs_def)
  have fd: "client_fd (close_session s) = client_fd s" for s by (simp add: close_session_def)
  have obj: "objects srv1 p = map_option close_session (objects srv p)" if "p \<in> registered_ptrs cm" for p
    using that by (simp add: srv1_def close_all_result)
  have "closed_by srv1 ?ps f \<longleftrightarrow>
      (\<exists>p s. p \<in> registered_ptrs cm \<and> objects srv p = Some s \<and> client_fd s = f \<and> 0 \<le> sint f)"
    (is "_ \<longleftrightarrow> ?r")
  proof
    assume "closed_by srv1 ?ps f"
    then obtain p s where p: "p \<in> registered_ptrs cm" "objects srv1 p = Some s" "client_fd s = f" "0 \<le> sint f"
      unfolding closed_by_def ps by blast
    from obj [OF p(1)] p(2) obtain z where "objects srv p = Some z" "s = close_session z"
      by (cases "objects srv p") auto
    with p fd show ?r by auto
  next
    assume ?r
    then obtain p s where p: "p \<in> registered_ptrs cm" "objects srv p = Some s" "client_fd s = f" "0 \<le> sint f"
      by blast
    from obj [OF p(1)] p(2) have "objects srv1 p = Some (close_session s)" by simp
    with p fd show "closed_by srv1 ?ps f" unfolding closed_by_def ps by blast
  qed
  then show ?thesis
    using d(7) [of f] registered_fd_iff [OF d(1), of f] unfolding registered_ptrs_def by blast
qed

lemma stop_result:
  assumes inv: "server_inv srv"
  shows "connection_manager (stop srv) = new_manager" "objects (stop srv) = (\<lambda>_. None)"
    "stop_requested (stop srv)" "config (stop srv) = config srv"
    "server_fd (stop srv) = server_fd srv" "epoll_fd (stop srv) = epoll_fd srv"
    "wire (stop srv) = wire srv"
    "fd \<in> set (open_fds (stop srv)) \<longleftrightarrow>
       fd \<in> set (open_fds srv) \<and> \<not> registered_fd (connection_manager srv) fd"
    "map_of (interest (stop srv)) fd =
       (if registered_fd (connection_manager srv) fd then None else map_of (interest srv) fd)"
proof -
  note d = server_invD [OF inv]
  let ?cm = "connection_manager srv"
  let ?srv1 = "srv\<lparr>stop_requested := True, objects := fst (close_all (objects srv) ?cm),
      connection_manager := new_manager\<rparr>"
  let ?ps = "get_all_sessions ?cm"
  have eq: "stop srv = fold release_session ?ps ?srv1"
    by (simp add: stop_def close_all_result(2) [of "objects srv" ?cm, symmetric] case_prod_beta)
  have e: "sessions_by_id (connection_manager ?srv1) = []" by (simp add: new_manager_def)
  have ps: "set ?ps = registered_ptrs ?cm" by (simp add: get_all_sessions_def registered_ptrs_def)
  note closed = stop_closes [OF inv]
  note frame = release_all_frame [OF e, of ?ps] and all = release_all [OF e, where ps = ?ps]
  show "connection_manager (stop srv) = new_manager" "stop_requested (stop srv)"
    "config (stop srv) = config srv" "server_fd (stop srv) = server_fd srv"
    "epoll_fd (stop srv) = epoll_fd srv" "wire (stop srv) = wire srv"
    using frame by (simp_all add: eq)
  show "objects (stop srv) = (\<lambda>_. None)"
    using d(5) unfolding eq all(1) ps
    by (auto simp: fun_eq_iff close_all_result) (metis not_None_eq)
  show "fd \<in> set (open_fds (stop srv)) \<longleftrightarrow>
       fd \<in> set (open_fds srv) \<and> \<not> registered_fd (connection_manager srv) fd"
    "map_of (interest (stop srv)) fd =
       (if registered_fd (connection_manager srv) fd then None else map_of (interest srv) fd)"
    unfolding eq all closed by simp_all
qed

lemma server_inv_stop:
  assumes inv: "server_inv srv"
  shows "server_inv (stop srv)"
proof -
  note d = server_invD [OF inv] and r = stop_result [OF inv]
  have none: "\<not> registered_fd new_manager fd" "\<not> registered_id new_manager i" for fd i
    by (simp_all add: registered_fd_def registered_id_def new_manager_def)
  have "map_of (interest (stop srv)) = watched (stop srv)"
    using d(7,9) none by (auto simp: fun_eq_iff r watched_def)
  moreover have "session_count new_manager = 0" by (simp add: session_count_def new_manager_def)
  moreover have "server_fd srv \<in> set (open_fds (stop srv))" using d(7,8) by (auto simp: r)
  ultimately show ?thesis
    using none d(10) unfolding server_inv_def by (simp add: r)
qed

section \<open>Reachable servers\<close>

text \<open>
  \<open>socket\<close> and \<open>epoll_create1\<close> return descriptors that are not open.
\<close>

definition setup_ok :: "setup_env \<Rightarrow> UnixSocketServer \<Rightarrow> bool" where
  "setup_ok env srv \<longleftrightarrow>
     (\<forall>fd. env_socket env = Some fd \<longrightarrow> valid_fd srv fd \<and>
        (\<forall>ep. env_epoll_create env = Some ep \<longrightarrow> valid_fd srv ep \<and> ep \<noteq> fd))"

inductive server_reach :: "'j json_api \<Rightarrow> ('j, 'w) command_handler \<Rightarrow> UnixSocketServer \<Rightarrow> bool"
  for J ch where
  initialized: "setup_ok env (new_server c path fds) \<Longrightarrow>
    server_initialize env (new_server c path fds) = (True, srv) \<Longrightarrow> server_reach J ch srv"
| entered: "server_reach J ch srv \<Longrightarrow> server_reach J ch (srv\<lparr>running := True, stop_requested := False\<rparr>)"
| handled: "server_reach J ch srv \<Longrightarrow> kernel_event srv ev \<Longrightarrow>
    unat (next_session_id srv) + length (ev_conns ev) < 2 ^ 64 \<Longrightarrow>
    handle_epoll_event J ch ev srv w = Some (srv', w') \<Longrightarrow> server_reach J ch srv'"
| stopped: "server_reach J ch srv \<Longrightarrow> server_reach J ch (stop srv)"
| left: "server_reach J ch srv \<Longrightarrow> server_reach J ch (srv\<lparr>running := False\<rparr>)"

lemma cleanup_socket_frame:
  "snd (cleanup_socket env srv) = srv \<or> snd (cleanup_socket env srv) = srv\<lparr>at_path := Absent\<rparr>"
  by (simp add: cleanup_socket_def split: option.split path_entry.split)

text \<open>The state after a successful \<open>initialize()\<close>.\<close>

lemma server_initialize_True:
  assumes "setup_ok env (new_server c path fds)"
    and "server_initialize env (new_server c path fds) = (True, srv)"
  obtains fd ep where "env_socket env = Some fd" "env_epoll_create env = Some ep"
    "0 \<le> sint fd" "0 \<le> sint ep" "fd \<notin> set fds" "ep \<notin> set fds" "ep \<noteq> fd"
    "length (socket_path c) < SUN_PATH_SIZE"
    "srv = (new_server c path fds)\<lparr>at_path := Socket_file, at_mode := (if env_chmod env then Some (socket_permissions c) else None),
        server_fd := fd, epoll_fd := ep,
        open_fds := ep # fd # fds, interest := [(fd, (EPOLLIN OR EPOLLET, 0))]\<rparr>"
proof -
  let ?new = "new_server c path fds"
  from assms(2) obtain fd where fd: "env_socket env = Some fd"
    by (auto simp: server_initialize_def create_server_socket_def split: option.splits)
  with assms(2) obtain ep where ep: "env_epoll_create env = Some ep"
    by (auto simp: server_initialize_def Let_def split: option.splits prod.splits if_splits)
  have valid: "valid_fd ?new fd" "valid_fd ?new ep" "ep \<noteq> fd"
    using assms(1) fd ep by (auto simp: setup_ok_def)
  show thesis
  proof (rule that [OF fd ep])
    show "srv = ?new\<lparr>at_path := Socket_file, at_mode := (if env_chmod env then Some (socket_permissions c) else None),
        server_fd := fd, epoll_fd := ep,
        open_fds := ep # fd # fds, interest := [(fd, (EPOLLIN OR EPOLLET, 0))]\<rparr>"
      "length (socket_path c) < SUN_PATH_SIZE"
      using assms(2) fd ep cleanup_socket_frame [of env ?new]
      by (auto simp: server_initialize_def create_server_socket_def add_to_epoll_def sys_open_def
          new_server_def Let_def split: if_splits)
  qed (use valid in \<open>simp_all add: valid_fd_def new_server_def\<close>)
qed

text \<open>A failing \<open>initialize()\<close> gives every descriptor back.\<close>

lemma create_server_socket_cases:
  assumes "create_server_socket env srv = (r, srv1)"
  obtains (failed) "r = - 1" "set (open_fds srv1) = set (open_fds srv) - set_option (env_socket env)"
      "interest srv1 = (case env_socket env of None \<Rightarrow> interest srv | Some fd \<Rightarrow> AList.delete fd (interest srv))"
      "epoll_fd srv1 = epoll_fd srv"
  | (created) "env_socket env = Some r" "open_fds srv1 = r # open_fds srv"
      "interest srv1 = interest srv" "epoll_fd srv1 = epoll_fd srv"
  using assms
  by (auto simp: create_server_socket_def sys_open_def sys_close_def Let_def split: option.splits if_splits)

lemma server_initialize_False:
  assumes ok: "setup_ok env (new_server c path fds)"
    and init: "server_initialize env (new_server c path fds) = (False, srv)"
  shows "set (open_fds srv) = set fds" "server_fd srv = - 1" "epoll_fd srv = - 1" "interest srv = []"
proof -
  let ?new = "new_server c path fds"
  define s0 where "s0 = snd (cleanup_socket env ?new)"
  have f: "epoll_fd s0 = - 1" "interest s0 = []" "open_fds s0 = fds"
    using cleanup_socket_frame [of env ?new] unfolding s0_def by (auto simp: new_server_def)
  obtain r s1 where c: "create_server_socket env s0 = (r, s1)" by fastforce
  have sock: "env_socket env = Some fd \<Longrightarrow> 0 \<le> sint fd \<and> fd \<notin> set fds" for fd
    using ok by (simp add: setup_ok_def valid_fd_def new_server_def)
  have ep: "env_socket env = Some fd \<Longrightarrow> env_epoll_create env = Some e \<Longrightarrow> e \<notin> set fds \<and> e \<noteq> fd" for fd e
    using ok by (simp add: setup_ok_def valid_fd_def new_server_def)
  have "set (open_fds srv) = set fds \<and> server_fd srv = - 1 \<and> epoll_fd srv = - 1 \<and> interest srv = []"
    using c
  proof (cases rule: create_server_socket_cases)
    case failed
    then have "srv = s1\<lparr>server_fd := - 1\<rparr>"
      using init c by (simp add: server_initialize_def s0_def [symmetric] Let_def)
    with failed f sock show ?thesis
      by (auto split: option.splits)
  next
    case created
    with sock have pos: "\<not> sint r < 0" "r \<notin> set fds" by auto
    show ?thesis
    proof (cases "env_epoll_create env")
      case None
      then show ?thesis
        using init c pos created f
        by (auto simp: server_initialize_def s0_def [symmetric] Let_def sys_close_def)
    next
      case (Some e)
      with ep [OF created(1)] show ?thesis
        using init c pos created f
        by (auto simp: server_initialize_def s0_def [symmetric] Let_def sys_close_def sys_open_def
            add_to_epoll_def split: if_splits)
    qed
  qed
  then show "set (open_fds srv) = set fds" "server_fd srv = - 1" "epoll_fd srv = - 1" "interest srv = []"
    by blast+
qed

lemma server_inv_initialized:
  assumes "setup_ok env (new_server c path fds)"
    and "server_initialize env (new_server c path fds) = (True, srv)"
  shows "server_inv srv"
  using assms
proof (rule server_initialize_True)
  fix fd ep
  assume "srv = (new_server c path fds)\<lparr>at_path := Socket_file, at_mode := (if env_chmod env then Some (socket_permissions c) else None),
        server_fd := fd, epoll_fd := ep,
        open_fds := ep # fd # fds, interest := [(fd, (EPOLLIN OR EPOLLET, 0))]\<rparr>"
  then show ?thesis
    by (auto simp: server_inv_def watched_def fun_eq_iff new_server_def session_count_def
        registered_fd_def registered_id_def) (simp_all add: new_manager_def)
qed

lemma server_reach_inv: "server_reach J ch srv \<Longrightarrow> server_inv srv"
proof (induction rule: server_reach.induct)
  case (handled srv ev w srv' w')
  then show ?case using handle_epoll_event_inv [of srv ev J ch w] by auto
qed (simp_all add: server_inv_initialized server_inv_flags server_inv_stop)

section \<open>Descriptors as data words\<close>

lemma ptr_to_fd_inverse: "ptr_to_fd (fd_to_ptr fd) = fd"
proof (rule bit_word_eqI)
  fix n
  assume "n < LENGTH(32)"
  then have "n = 31 \<or> n < 31" by auto
  then show "bit (ptr_to_fd (fd_to_ptr fd)) n = bit fd n"
    unfolding ptr_to_fd_def fd_to_ptr_def
    by (elim disjE) (simp_all add: bit_unsigned_iff bit_signed_iff)
qed

lemma fd_to_ptr_zero: "fd_to_ptr fd = 0 \<longleftrightarrow> fd = 0"
  by (metis ptr_to_fd_inverse fd_to_ptr_def ptr_to_fd_def scast_0 unsigned_0)

section \<open>Routing\<close>

text \<open>The session a request is answered on, and what is queued there.\<close>

lemma callback_unrouted:
  assumes "get_session_by_fd (request_fd msg) (connection_manager srv) = None"
  shows "session_callback J ch p msg s (srv, w) =
    (s, (srv\<lparr>objects := (objects srv)(p := Some s)\<rparr>, w), None)"
  using assms by (simp add: session_callback_def Let_def)

section \<open>The result of \<open>run\<close>\<close>

lemma wait_loop_result:
  "wait_loop J ch rs srv w = Some (Some b, srv', w') \<Longrightarrow> b = (\<not> stop_requested srv') \<and> \<not> running srv'"
proof (induction rs arbitrary: srv w)
  case Nil
  then show ?case by simp
next
  case (Cons r rs)
  then show ?case
    by (cases r) (fastforce split: if_splits Option.bind_splits)+
qed

end
