(* ===== verification/Daemon.thy ===== *)
theory Daemon
  imports Commands Logger Socket_Server
begin

text \<open>
  The daemon's \<open>main\<close> (\<open>src/daemon/main.cpp\<close>): command-line arguments, the table of
  built-in commands, the command handler given to the server, the signal loop and the
  shutdown sequence.
\<close>

section \<open>Arguments\<close>

text \<open>An early exit: whether the status is \<open>EXIT_SUCCESS\<close>, standard output, standard error.\<close>

datatype start_mode = Exit bool string string | Start string LogLevel

definition daemon_usage :: "string \<Rightarrow> string" where
  "daemon_usage programName =
     ''Usage: '' @ programName @ '' [options]'' @ [newline] @
     ''Options:'' @ [newline] @
     ''  --socket-path PATH   Unix socket path (default: /tmp/demo_daemon.sock)'' @ [newline] @
     ''  --log-level LEVEL    Log level: trace, debug, info, warn, error (default: info)'' @ [newline] @
     ''  --help               Show this help message'' @ [newline] @
     ''  --version            Show version information'' @ [newline]"

definition daemon_version :: string where
  "daemon_version =
     ''Demo Daemon v'' @ int_string (sint VERSION_MAJOR) @ ''.'' @ int_string (sint VERSION_MINOR) @
     ''.'' @ int_string (sint VERSION_PATCH) @ [newline]"

definition daemon_level :: "string \<Rightarrow> LogLevel option" where
  "daemon_level s =
     (if s = ''trace'' then Some Trace
      else if s = ''debug'' then Some Debug
      else if s = ''info'' then Some Info
      else if s = ''warn'' then Some Warn
      else if s = ''error'' then Some Error_level
      else None)"

text \<open>The loop over \<open>argv[1..]\<close>; an option that needs a value and is the last is unknown.\<close>

definition unknown_option :: "string \<Rightarrow> string \<Rightarrow> start_mode" where
  "unknown_option prog arg = Exit False (daemon_usage prog) (''Unknown option: '' @ arg @ [newline])"

fun parse_args :: "string \<Rightarrow> string list \<Rightarrow> string \<Rightarrow> LogLevel \<Rightarrow> start_mode" where
  "parse_args prog [] path level = Start path level"
| "parse_args prog [arg] path level =
     (if arg = ''--help'' then Exit True (daemon_usage prog) []
      else if arg = ''--version'' then Exit True daemon_version []
      else unknown_option prog arg)"
| "parse_args prog (arg # v # args) path level =
     (if arg = ''--help'' then Exit True (daemon_usage prog) []
      else if arg = ''--version'' then Exit True daemon_version []
      else if arg = ''--socket-path'' then parse_args prog args v level
      else if arg = ''--log-level'' then
        (case daemon_level v of
           Some l \<Rightarrow> parse_args prog args path l
         | None \<Rightarrow> Exit False [] (''Unknown log level: '' @ v @ [newline]))
      else unknown_option prog arg)"

definition daemon_args :: "string \<Rightarrow> string list \<Rightarrow> start_mode" where
  "daemon_args prog args = parse_args prog args ''/tmp/demo_daemon.sock'' Info"

section \<open>Commands\<close>

definition builtin_commands :: "ICommand list" where
  "builtin_commands =
     [PingCommand, StatusCommand, ShutdownCommand, CommandsListCommand,
      TasksListCommand, TasksAddCommand, TasksStopCommand]"

definition register_builtin :: "CommandRegistry res" where
  "register_builtin =
     fold (\<lambda>c r. res_bind r (register_command (Some c))) builtin_commands (Inr new_command_registry)"

text \<open>Failures are reported in the \<open>result\<close> field.\<close>

definition error_data :: "'j json_api \<Rightarrow> int32 \<Rightarrow> string \<Rightarrow> 'j" where
  "error_data J code msg =
     j_object J [(''code'', j_int J (sint code)), (''message'', j_string J msg)]"

definition commandHandler :: "'j json_api \<Rightarrow> call_env \<Rightarrow> CommandRegistry \<Rightarrow> 'j RequestMessage \<Rightarrow>
    'j TaskManager \<Rightarrow> ('j ResponseMessage \<times> 'j TaskManager) outcome" where
  "commandHandler J env registry request m =
     (let respond = (\<lambda>data. \<lparr>rs_id = rq_id request, rs_result = data\<rparr>) in
      case get_command (rq_method request) registry of
        None \<Rightarrow>
          Done (respond (error_data J (- 32601) (''Method not found: '' @ rq_method request)), m)
      | Some cmd \<Rightarrow>
          out_bind (execute J env cmd (rq_params request) m) (\<lambda>r.
            case r of
              (Inl e, m1) \<Rightarrow> Done (respond (error_data J (- 32603) (''Internal error: '' @ what e)), m1)
            | (Inr result, m1) \<Rightarrow>
                if \<not> cr_success result then
                  Done (respond (error_data J (cr_error_code result) (cr_message result)), m1)
                else Done (respond (cr_data result), m1)))"

section \<open>The signal loop\<close>

text \<open>
  One round: signals that arrive before the test of \<open>isShutdownRequested()\<close> and signals
  that arrive between the test and \<open>checkSignal()\<close>. \<^const>\<open>None\<close>: the loop has not ended
  (or a handler hangs on a full pipe).
\<close>

fun deliver :: "nat \<Rightarrow> signum list \<Rightarrow> SignalHandler \<Rightarrow> SignalHandler option" where
  "deliver cap [] h = Some h"
| "deliver cap (n # ns) h = Option.bind (handleSignal cap n h) (deliver cap ns)"

fun signal_loop :: "nat \<Rightarrow> (signum list \<times> signum list) list \<Rightarrow> SignalHandler \<Rightarrow> SignalHandler option" where
  "signal_loop cap [] h = None"
| "signal_loop cap (r # rs) h =
     Option.bind (deliver cap (fst r) h) (\<lambda>h1.
       if isShutdownRequested h1 then Some h1
       else
         Option.bind (deliver cap (snd r) h1) (\<lambda>h2.
           case checkSignal h2 of
             (No_signal, h3) \<Rightarrow> signal_loop cap rs h3
           | (Hangup, h3) \<Rightarrow> signal_loop cap rs (signal_reset h3)
           | (Pipe, h3) \<Rightarrow> signal_loop cap rs (signal_reset h3)
           | (Interrupt, h3) \<Rightarrow> Some h3
           | (Terminate, h3) \<Rightarrow> Some h3))"

text \<open>
  After the loop: \<open>stop()\<close> is called while the server thread waits in \<open>epoll_wait\<close>, then the
  thread is joined and the tasks are stopped. \<open>rs\<close> is what the server thread sees after the
  call; as long as it has not left \<open>run\<close>, \<open>join\<close> has not returned (\<^const>\<open>None\<close>).
\<close>

definition daemon_shutdown :: "'j json_api \<Rightarrow> ('j, 'w) command_handler \<Rightarrow> wait_result list \<Rightarrow> UnixSocketServer \<Rightarrow>
    'w \<Rightarrow> int \<Rightarrow> polls \<Rightarrow> 'j TaskManager \<Rightarrow> (UnixSocketServer \<times> 'w \<times> 'j TaskManager) outcome option" where
  "daemon_shutdown J ch rs srv w now ps m =
     (case wait_loop J ch (Stop_called # rs) srv w of
        Some (Some _, srv1, w1) \<Rightarrow>
          map_option (\<lambda>r. out_bind r (\<lambda>(_, m1). Done (srv1, w1, m1))) (stop_all_tasks now ps m)
      | _ \<Rightarrow> None)"

text \<open>
  \<open>--log-level\<close> sets the level of \<open>Logger::instance()\<close>; the server gets a logger of its own
  with the default level.
\<close>

definition daemon_loggers :: "LogLevel \<Rightarrow> Logger \<times> Logger" where
  "daemon_loggers logLevel = (setMinLevel logLevel logger_instance, new_logger Info)"

section \<open>Start-up\<close>

text \<open>
  \<open>main\<close> up to the start of the server thread: an exit with its status, an exception, or the
  parts of the running daemon. The registry of task types is an argument.
\<close>

record 'j daemon =
  dm_signals :: SignalHandler
  dm_commands :: CommandRegistry
  dm_tasks :: "'j TaskManager"
  dm_server :: UnixSocketServer
  dm_log :: Logger
  dm_server_log :: Logger

datatype 'j start_result = Ended bool string string | Threw exn | Running_daemon "'j daemon"

record 'j start_env =
  se_pipe :: bool
  se_nonblock :: bool
  se_sigactions :: "bool list"
  se_task_types :: "'j TaskRegistry"
  se_counters :: id_counters
  se_setup :: setup_env
  se_at_path :: "string \<Rightarrow> path_entry"
  se_open_fds :: "int32 list"

definition daemon_config :: "string \<Rightarrow> UnixSocketConfig" where
  "daemon_config path = default_config\<lparr>socket_path := path\<rparr>"

definition daemon_start :: "'j start_env \<Rightarrow> string \<Rightarrow> string list \<Rightarrow> 'j start_result" where
  "daemon_start env prog args =
     (case daemon_args prog args of
        Exit ok out err \<Rightarrow> Ended ok out err
      | Start path level \<Rightarrow>
          (case signal_initialize (se_pipe env) (se_nonblock env) (se_sigactions env) signal_instance of
             (False, h) \<Rightarrow> Ended False [] []
           | (True, h) \<Rightarrow>
               (case register_builtin of
                  Inl e \<Rightarrow> Threw e
                | Inr registry \<Rightarrow>
                    (case new_task_manager (Some (se_task_types env)) (se_counters env) of
                       Inl e \<Rightarrow> Threw e
                     | Inr tasks \<Rightarrow>
                         (case server_initialize (se_setup env)
                                 (new_server (daemon_config path) (se_at_path env path) (se_open_fds env)) of
                            (False, srv) \<Rightarrow> Ended False [] []
                          | (True, srv) \<Rightarrow>
                              Running_daemon \<lparr>dm_signals = h, dm_commands = registry, dm_tasks = tasks,
                                dm_server = srv, dm_log = fst (daemon_loggers level),
                                dm_server_log = snd (daemon_loggers level)\<rparr>)))))"

section \<open>The built-in table\<close>

lemma register_builtin_put_all:
  "register_builtin = Inr (cr.put_all (map (\<lambda>c. (command_name c, c)) builtin_commands) new_command_registry)"
  by (simp add: register_builtin_def builtin_commands_def register_command_put cr.put_all_def)

lemma builtin_lookup:
  assumes "register_builtin = Inr r"
  shows "get_command name r = Some c \<longleftrightarrow> command_name c = name"
    and "set (list_commands r) = range command_name"
proof -
  let ?ps = "map (\<lambda>c. (command_name c, c)) builtin_commands"
  have r: "r = cr.put_all ?ps new_command_registry" using assms by (simp add: register_builtin_put_all)
  have all: "c \<in> set builtin_commands" for c by (cases c) (simp_all add: builtin_commands_def)
  have d: "distinct (map fst (rev ?ps))" by (simp add: builtin_commands_def)
  have "get_command name r = map_of (rev ?ps) name"
    unfolding r cr.find_put_all by (simp add: cr.find_empty split: option.split)
  then show "get_command name r = Some c \<longleftrightarrow> command_name c = name"
    using d all by (auto simp: map_of_eq_Some_iff command_name_inject)
  show "set (list_commands r) = range command_name"
    using all unfolding r cr.names_put_all by (force simp: image_image)
qed

section \<open>The handler\<close>

definition answer_data :: "'j json_api \<Rightarrow> 'j CommandResult res \<Rightarrow> 'j" where
  "answer_data J r =
     (case r of
        Inl e \<Rightarrow> error_data J (- 32603) (''Internal error: '' @ what e)
      | Inr cr \<Rightarrow> if cr_success cr then cr_data cr else error_data J (cr_error_code cr) (cr_message cr))"

lemma commandHandler_unknown:
  "get_command (rq_method request) reg = None \<Longrightarrow> commandHandler J env reg request m =
     Done (\<lparr>rs_id = rq_id request,
            rs_result = error_data J (- 32601) (''Method not found: '' @ rq_method request)\<rparr>, m)"
  by (simp add: commandHandler_def)

lemma commandHandler_known:
  assumes "get_command (rq_method request) reg = Some cmd"
  shows "commandHandler J env reg request m =
    out_bind (execute J env cmd (rq_params request) m)
      (\<lambda>(r, m'). Done (\<lparr>rs_id = rq_id request, rs_result = answer_data J r\<rparr>, m'))"
  using assms
  by (cases "execute J env cmd (rq_params request) m")
    (auto simp: commandHandler_def Let_def answer_data_def split: sum.split prod.split)

lemma commandHandler_id:
  assumes "commandHandler J env reg request m = Done (resp, m')"
  shows "rs_id resp = rq_id request"
  using assms
  by (cases "get_command (rq_method request) reg")
    (auto simp: commandHandler_unknown commandHandler_known out_bind_Done_iff)

section \<open>Signals\<close>

lemma deliver_shutdown:
  "deliver cap ns h = Some h' \<Longrightarrow>
     shutdownRequested h' \<longleftrightarrow> shutdownRequested h \<or> SIGINT \<in> set ns \<or> SIGTERM \<in> set ns"
proof (induction ns arbitrary: h)
  case (Cons n ns)
  then obtain h1 where h1: "handleSignal cap n h = Some h1" "deliver cap ns h1 = Some h'"
    by (auto simp: bind_eq_Some_conv)
  have "shutdownRequested h1 \<longleftrightarrow> shutdownRequested h \<or> n = SIGINT \<or> n = SIGTERM"
    using h1(1)
    by (auto simp: handleSignal_def writeSignalToPipe_def Let_def split: signum.splits if_splits)
  with Cons.IH [OF h1(2)] show ?case by auto
qed simp

text \<open>
  The pending signal is \<open>Interrupt\<close> or \<open>Terminate\<close> only when the shutdown flag is set.
\<close>

definition sig_inv :: "SignalHandler \<Rightarrow> bool" where
  "sig_inv h \<longleftrightarrow> (pendingSignal h \<in> {Interrupt, Terminate} \<longrightarrow> shutdownRequested h)"

lemma sig_inv_deliver: "deliver cap ns h = Some h' \<Longrightarrow> sig_inv h \<Longrightarrow> sig_inv h'"
proof (induction ns arbitrary: h)
  case (Cons n ns)
  then obtain h1 where h1: "handleSignal cap n h = Some h1" "deliver cap ns h1 = Some h'"
    by (auto simp: bind_eq_Some_conv)
  have "sig_inv h1"
    using h1(1) Cons.prems(2)
    by (auto simp: sig_inv_def handleSignal_def writeSignalToPipe_def Let_def
        split: signum.splits if_splits)
  then show ?case by (rule Cons.IH [OF h1(2)])
qed simp

lemma sig_inv_check: "sig_inv (snd (checkSignal h))" if "sig_inv h"
  using that by (auto simp: sig_inv_def checkSignal_def)

lemma signal_loop_flag:
  "signal_loop cap rs h = Some h' \<Longrightarrow> sig_inv h \<Longrightarrow> shutdownRequested h'"
proof (induction rs arbitrary: h)
  case (Cons r rs)
  then obtain h1 where h1: "deliver cap (fst r) h = Some h1" by (auto simp: bind_eq_Some_conv)
  have i1: "sig_inv h1" by (rule sig_inv_deliver [OF h1 Cons.prems(2)])
  show ?case
  proof (cases "shutdownRequested h1")
    case True
    with h1 Cons.prems(1) show ?thesis by simp
  next
    case False
    then obtain h2 where h2: "deliver cap (snd r) h1 = Some h2"
      using h1 Cons.prems(1) by (auto simp: bind_eq_Some_conv)
    have i2: "sig_inv h2" by (rule sig_inv_deliver [OF h2 i1])
    obtain sg h3 where c: "checkSignal h2 = (sg, h3)" by fastforce
    have i3: "sig_inv h3" "sig_inv (signal_reset h3)"
      using sig_inv_check [OF i2] c by (simp_all add: sig_inv_def signal_reset_def)
    have flag: "sg \<in> {Interrupt, Terminate} \<Longrightarrow> shutdownRequested h3"
      using c i2 by (auto simp: checkSignal_def sig_inv_def split: if_splits)
    show ?thesis
      using Cons.prems(1) h1 False h2 c i3 flag Cons.IH by (cases sg) auto
  qed
qed simp

text \<open>The pipe takes the signals of a round when it has room for them.\<close>

lemma deliver_total:
  assumes "pipe_bytes h + length ns \<le> cap"
  shows "\<exists>h'. deliver cap ns h = Some h' \<and> pipe_bytes h' \<le> pipe_bytes h + length ns \<and>
    sig_initialized h' = sig_initialized h"
  using assms
proof (induction ns arbitrary: h)
  case (Cons n ns)
  obtain h1 where h1: "handleSignal cap n h = Some h1" "pipe_bytes h1 \<le> pipe_bytes h + 1"
      "sig_initialized h1 = sig_initialized h"
    using Cons.prems
    by (cases n) (auto simp: handleSignal_def writeSignalToPipe_def Let_def)
  with Cons.IH [of h1] Cons.prems show ?case by fastforce
qed simp

lemma signal_loop_ends:
  assumes "sig_initialized h" and "pipe_bytes h = 0"
    and "\<forall>r \<in> set rs. length (fst r) + length (snd r) \<le> cap"
    and "\<exists>r \<in> set (butlast rs). {SIGINT, SIGTERM} \<inter> (set (fst r) \<union> set (snd r)) \<noteq> {}"
  shows "\<exists>h'. signal_loop cap rs h = Some h'"
  using assms
proof (induction rs arbitrary: h)
  case (Cons r rs)
  obtain h1 where h1: "deliver cap (fst r) h = Some h1" "pipe_bytes h1 \<le> length (fst r)" "sig_initialized h1"
    using deliver_total [of h "fst r" cap] Cons.prems by fastforce
  show ?case
  proof (cases "shutdownRequested h1")
    case True
    with h1 show ?thesis by simp
  next
    case False
    obtain h2 where h2: "deliver cap (snd r) h1 = Some h2" "sig_initialized h2"
      using deliver_total [of h1 "snd r" cap] Cons.prems(3) h1 by fastforce
    obtain sg h3 where c: "checkSignal h2 = (sg, h3)" by fastforce
    have h3: "sig_initialized h3" "pipe_bytes h3 = 0" "shutdownRequested h3 = shutdownRequested h2"
      using c h2(2) by (auto simp: checkSignal_def)
    have rs: "rs \<noteq> []" using Cons.prems(4) by auto
    have cont: "\<exists>h'. signal_loop cap rs g = Some h'"
      if g: "sig_initialized g" "pipe_bytes g = 0" "shutdownRequested g = shutdownRequested h2" for g
    proof (cases "shutdownRequested h2")
      case True
      obtain r' rs' where rs': "rs = r' # rs'" using rs by (cases rs) auto
      obtain g1 where "deliver cap (fst r') g = Some g1"
        using deliver_total [of g "fst r'" cap] Cons.prems(3) g rs' by fastforce
      with True g(3) rs' show ?thesis using deliver_shutdown by fastforce
    next
      case False
      then have "{SIGINT, SIGTERM} \<inter> (set (fst r) \<union> set (snd r)) = {}"
        using deliver_shutdown [OF h1(1)] deliver_shutdown [OF h2(1)] by auto
      then have "\<exists>r \<in> set (butlast rs). {SIGINT, SIGTERM} \<inter> (set (fst r) \<union> set (snd r)) \<noteq> {}"
        using Cons.prems(4) rs by (auto split: if_splits)
      with Cons.IH [OF g(1,2)] Cons.prems(3) show ?thesis by simp
    qed
    show ?thesis
      using h1(1) False h2(1) c cont [of h3] cont [of "signal_reset h3"] h3
      by (cases sg) (auto simp: signal_reset_def)
  qed
qed simp

section \<open>The started daemon\<close>

lemma daemon_start_result:
  assumes "daemon_start env prog args = Running_daemon d"
  obtains path level where "daemon_args prog args = Start path level"
    "signal_initialize (se_pipe env) (se_nonblock env) (se_sigactions env) signal_instance = (True, dm_signals d)"
    "register_builtin = Inr (dm_commands d)"
    "new_task_manager (Some (se_task_types env)) (se_counters env) = Inr (dm_tasks d)"
    "server_initialize (se_setup env)
       (new_server (daemon_config path) (se_at_path env path) (se_open_fds env)) = (True, dm_server d)"
    "min_level (dm_log d) = level" "min_level (dm_server_log d) = Info"
proof (cases "daemon_args prog args")
  case (Exit ok out err)
  with assms show thesis by (simp add: daemon_start_def)
next
  case (Start path level)
  with assms show thesis
    by (intro that [of path level])
      (auto simp: daemon_start_def daemon_loggers_def setMinLevel_def new_logger_def
        split: prod.splits bool.splits sum.splits)
qed

lemma daemon_start_not_threw: "daemon_start env prog args \<noteq> Threw e"
  by (simp add: daemon_start_def register_builtin_put_all new_task_manager_def
      split: start_mode.split prod.split bool.split)

lemma signal_initialize_ready:
  assumes "signal_initialize p n a signal_instance = (True, h)"
  shows "sig_initialized h \<and> sig_inv h \<and> pipe_bytes h = 0 \<and> \<not> shutdownRequested h"
  using assms
  by (auto simp: signal_initialize_def signal_instance_def new_signal_handler_def sig_inv_def Let_def split: if_splits)

lemma new_task_manager_empty:
  "new_task_manager r c = Inr m \<Longrightarrow> tm_keys m \<and> tm_safe m \<and> total_count m = 0"
  using new_task_manager_ok [of r c m]
  by (auto simp: new_task_manager_def total_count_def tm_safe_def tm_keys_def split: option.splits)

end
