(* ===== verification/Server_Steps.thy ===== *)
theory Server_Steps
  imports Socket_Server
begin

text \<open>
  Runs of the server: the steps that lead from one state to the next, the descriptors that
  the process inherited and what the command handler keeps of its world.
\<close>

section \<open>Steps\<close>

inductive server_step :: "'j json_api \<Rightarrow> ('j, 'w) command_handler \<Rightarrow> UnixSocketServer \<Rightarrow> UnixSocketServer \<Rightarrow> bool"
  for J ch where
  enter: "server_step J ch srv (srv\<lparr>running := True, stop_requested := False\<rparr>)"
| handle: "kernel_event srv ev \<Longrightarrow> unat (next_session_id srv) + length (ev_conns ev) < 2 ^ 64 \<Longrightarrow>
    handle_epoll_event J ch ev srv w = Some (srv', w') \<Longrightarrow> server_step J ch srv srv'"
| halt: "server_step J ch srv (stop srv)"
| leave: "server_step J ch srv (srv\<lparr>running := False\<rparr>)"

inductive_cases server_stepE: "server_step J ch srv srv'"

lemma server_step_reach: "server_reach J ch srv \<Longrightarrow> server_step J ch srv srv' \<Longrightarrow> server_reach J ch srv'"
  by (auto elim!: server_stepE intro: server_reach.intros)

lemma server_steps_reach:
  assumes "(server_step J ch)\<^sup>*\<^sup>* srv srv'" and "server_reach J ch srv"
  shows "server_reach J ch srv'"
  using assms by (induction rule: rtranclp_induct) (auto intro: server_step_reach)

section \<open>Descriptors\<close>

text \<open>
  The open descriptors are exactly those the process inherited, the two of the server and
  those of the registered clients, and these are all different.
\<close>

definition owns :: "int32 set \<Rightarrow> UnixSocketServer \<Rightarrow> bool" where
  "owns F srv \<longleftrightarrow>
     (let G = F \<union> {server_fd srv, epoll_fd srv} in
      set (open_fds srv) = G \<union> {fd. registered_fd (connection_manager srv) fd} \<and>
      (\<forall>fd \<in> G. \<not> registered_fd (connection_manager srv) fd) \<and>
      server_fd srv \<notin> F \<and> epoll_fd srv \<notin> F \<and> 0 \<le> sint (server_fd srv) \<and> 0 \<le> sint (epoll_fd srv))"

lemma owns_unrouted:
  assumes "server_inv srv" and "owns F srv" and "fd \<in> F"
  shows "get_session_by_fd fd (connection_manager srv) = None"
  using get_by_fd_registered [OF server_invD(1) [OF assms(1)], of fd] assms(2,3)
  by (auto simp: owns_def Let_def)

text \<open>What \<open>owns\<close> depends on.\<close>

lemma owns_cong:
  "owns F srv \<Longrightarrow> set (open_fds srv') = set (open_fds srv) \<Longrightarrow> server_fd srv' = server_fd srv \<Longrightarrow>
     epoll_fd srv' = epoll_fd srv \<Longrightarrow> connection_manager srv' = connection_manager srv \<Longrightarrow> owns F srv'"
  by (simp add: owns_def)

lemma accept_connection_fds:
  assumes "accept_connection srv cs = (r, srv', cs')"
  shows "connection_manager srv' = connection_manager srv \<and> server_fd srv' = server_fd srv \<and>
    epoll_fd srv' = epoll_fd srv \<and> stop_requested srv' = stop_requested srv \<and>
    set (open_fds srv') = set (open_fds srv) \<union> conn_fd ` set_option r \<and>
    (\<forall>c. r = Some c \<longrightarrow> conn_fd c \<notin> set (open_fds srv))"
  using assms
  by (cases "(srv, cs)" rule: sys_accept.cases)
    (auto simp: accept_connection_def sys_open_def sys_close_def valid_fd_def split: if_splits)

lemma open_session_owns:
  assumes F: "owns F srv" and a: "accept_connection srv cs = (Some c, srv', cs')"
    and inv: "server_inv srv'" and c: "fresh_conn c srv'"
  shows "owns F (open_session c srv')"
proof (cases "getfl_ok c \<and> setfl_ok c \<and> epoll_add_ok c")
  case False
  show ?thesis
    unfolding open_session_failed [OF inv c False]
    by (rule owns_cong [OF F]) (use accept_connection_fds [OF a] in \<open>auto simp: dropped_def\<close>)
next
  case True
  let ?s = "fst (new_session (next_session_id srv') (conn_fd c))"
  let ?st = "(objects srv')(next_object srv' := Some ?s)"
  have "registered_fd (add_session ?st (Some (next_object srv')) (connection_manager srv')) fd \<longleftrightarrow>
      fd = conn_fd c \<or> registered_fd (connection_manager srv') fd" for fd
    using registered_add(1) [of ?st "next_object srv'" ?s] by (simp add: new_session_def)
  moreover have ok: "getfl_ok c" "setfl_ok c" "epoll_add_ok c" using True by simp_all
  ultimately show ?thesis
    using F accept_connection_fds [OF a] unfolding open_session_accepted [OF inv c ok] owns_def Let_def
    by auto
qed

lemma callback_fds:
  "session_callback J ch p msg s sw = (s', sw', e) \<Longrightarrow> open_fds (fst sw') = open_fds (fst sw) \<and>
     server_fd (fst sw') = server_fd (fst sw) \<and> epoll_fd (fst sw') = epoll_fd (fst sw) \<and>
     stop_requested (fst sw') = stop_requested (fst sw)"
  by (auto simp: session_callback_def on_message_def on_object_def modify_epoll_def Let_def
      split: option.splits prod.splits sum.splits if_splits)

interpretation fds: world_handler "session_callback J ch p"
  "\<lambda>s sw. (open_fds (fst sw), server_fd (fst sw), epoll_fd (fst sw), stop_requested (fst sw)) = X"
  for J :: "'j json_api" and ch :: "('j, 'w) command_handler" and p X
  by unfold_locales (auto simp: callback_fds cb.keeps cb.keeps_wb)

lemma client_event_owns:
  assumes inv: "server_inv srv" and s: "objects srv p = Some s"
    and p: "get_session_by_fd (ptr_to_fd (ev_ptr ev)) (connection_manager srv) = Some p"
    and F: "owns F srv" and r: "client_event J ch ev p s srv w = Some (srv', w')"
  shows "owns F srv' \<and> stop_requested srv' = stop_requested srv"
proof (rule client_event_cases [OF inv s p fds.world_handler_axioms refl])
  fix upd srv1 w1 s2 sent
  let ?fd = "ptr_to_fd (ev_ptr ev)"
  assume upd: "upd = srv1\<lparr>objects := (objects srv1)(p := Some s2), wire := wire srv1 @ sent\<rparr>"
      "connection_manager upd = connection_manager srv"
      "(open_fds (fst (srv1, w1)), server_fd (fst (srv1, w1)), epoll_fd (fst (srv1, w1)), stop_requested (fst (srv1, w1))) =
        (open_fds (fst (srv, w)), server_fd (fst (srv, w)), epoll_fd (fst (srv, w)), stop_requested (fst (srv, w)))"
    and e: "client_event J ch ev p s srv w = Some (upd, w1) \<or>
      client_event J ch ev p s srv w = Some (ended ?fd p upd, w1)"
  have "registered_fd (connection_manager srv) ?fd"
    using get_by_fd_registered [OF server_invD(1) [OF inv], of ?fd] p by simp
  moreover have u: "owns F upd" by (rule owns_cong [OF F]) (use upd in auto)
  ultimately have "owns F (ended ?fd p upd)"
    using upd(2) by (auto simp: owns_def ended_def registered_remove_by_fd Let_def)
  with u e r upd(1,3) show ?thesis by (auto simp: ended_def)
qed

lemma open_session_flag:
  assumes "server_inv srv" and "fresh_conn c srv"
  shows "stop_requested (open_session c srv) = stop_requested srv"
  using open_session_accepted [OF assms] open_session_failed [OF assms]
  by (cases "getfl_ok c \<and> setfl_ok c \<and> epoll_add_ok c") (auto simp: dropped_def Let_def)

lemma handle_event_owns:
  assumes inv: "server_inv srv" and "kernel_event srv ev"
    and "unat (next_session_id srv) + length (ev_conns ev) < 2 ^ 64"
    and F: "owns F srv" and r: "handle_epoll_event J ch ev srv w = Some (srv', w')"
  shows "owns F srv' \<and> stop_requested srv' = stop_requested srv"
proof (cases "ev_ptr ev = 0")
  case True
  let ?Q = "\<lambda>srv'. owns F srv' \<and> stop_requested srv' = stop_requested srv"
  have "server_inv (fst (accept_loop srv (ev_conns ev))) \<and> ?Q (fst (accept_loop srv (ev_conns ev)))"
  proof (rule accept_loop_keeps [where Q = ?Q, OF assms(1,3)])
    show "?Q srv2" if "?Q srv1" "accept_connection srv1 cs = (None, srv2, cs')" for srv1 srv2 cs cs'
      using accept_connection_fds [OF that(2)] that(1) by (auto intro: owns_cong)
  qed (use F in \<open>auto simp: open_session_flag accept_connection_fds intro: open_session_owns\<close>)
  with True r show ?thesis by (simp add: handle_epoll_event_def)
next
  case False
  let ?fd = "ptr_to_fd (ev_ptr ev)"
  show ?thesis
  proof (cases "get_session_by_fd ?fd (connection_manager srv)")
    case None
    with False F r show ?thesis
      by (auto simp: handle_epoll_event_def Let_def remove_from_epoll_def intro!: owns_cong [OF F] split: if_splits)
  next
    case (Some p)
    from get_by_fd_sound [OF server_invD(1) [OF inv] Some] obtain s where s: "objects srv p = Some s" by blast
    with False Some r have "client_event J ch ev p s srv w = Some (srv', w')"
      by (simp add: handle_epoll_event_def Let_def)
    then show ?thesis by (rule client_event_owns [OF inv s Some F])
  qed
qed

lemma stop_owns:
  assumes "server_inv srv" and "owns F srv"
  shows "owns F (stop srv)" and "set (open_fds (stop srv)) = F \<union> {server_fd srv, epoll_fd srv}"
  using assms(2) stop_result(1,5,6,8) [OF assms(1)]
  by (auto simp: owns_def Let_def registered_fd_def new_manager_def)

lemma step_owns:
  assumes "server_step J ch srv srv'" and "server_inv srv" and "owns F srv"
  shows "owns F srv'"
  using assms by (cases rule: server_step.cases)
    (auto dest: handle_event_owns intro: stop_owns owns_cong)

lemma initialized_owns:
  assumes "setup_ok env (new_server c path fds)"
    and "server_initialize env (new_server c path fds) = (True, srv)"
  shows "owns (set fds) srv"
  using assms by (rule server_initialize_True) (auto simp: owns_def new_server_def registered_fd_def new_manager_def Let_def)

lemma steps_owns:
  assumes "setup_ok env (new_server c path fds)"
    and "server_initialize env (new_server c path fds) = (True, srv0)"
    and "(server_step J ch)\<^sup>*\<^sup>* srv0 srv"
  shows "server_reach J ch srv \<and> owns (set fds) srv"
  using assms(3)
proof (induction rule: rtranclp_induct)
  case base
  show ?case using server_reach.initialized [OF assms(1,2)] initialized_owns [OF assms(1,2)] by blast
next
  case (step srv srv')
  then show ?case using server_step_reach step_owns server_reach_inv by blast
qed

text \<open>The destructor gives back everything but the inherited descriptors.\<close>

lemma destroy_server_fds:
  assumes "server_inv srv" and "owns F srv"
  shows "set (open_fds (destroy_server srv)) = F"
    "server_fd (destroy_server srv) = - 1" "epoll_fd (destroy_server srv) = - 1"
  using assms(2) stop_owns [OF assms] stop_result(5,6) [OF assms(1)]
  by (auto simp: owns_def destroy_server_def sys_close_def Let_def)

section \<open>What the command handler keeps\<close>

text \<open>
  A property of the world that every call of the command handler keeps: then every event
  and the whole event loop keep it.
\<close>

locale command_service =
  fixes ch :: "('j, 'w) command_handler" and W :: "'w \<Rightarrow> bool"
  assumes call_keeps: "W w \<Longrightarrow> ch msg w = (r, w') \<Longrightarrow> W w'"
begin

lemma on_message_keeps: "on_message J ch msg p srv w = (srv', w', x) \<Longrightarrow> W w \<Longrightarrow> W w'"
  using call_keeps [of w msg]
  by (cases "ch msg w") (auto simp: on_message_def split: sum.splits prod.splits option.splits)

lemma callback_keeps: "session_callback J ch p msg s sw = (s', sw', e) \<Longrightarrow> W (snd sw) \<Longrightarrow> W (snd sw')"
  by (auto simp: session_callback_def Let_def split: option.splits prod.splits dest: on_message_keeps)

end

sublocale command_service \<subseteq> world: world_handler "session_callback J ch p" "\<lambda>s sw. W (snd sw)" for J p
  by unfold_locales (auto simp: cb.keeps cb.keeps_wb dest: callback_keeps)

context command_service
begin

lemma client_event_keeps:
  assumes "server_inv srv" and "objects srv p = Some s"
    and "get_session_by_fd (ptr_to_fd (ev_ptr ev)) (connection_manager srv) = Some p"
    and "W w" and "client_event J ch ev p s srv w = Some (srv', w')"
  shows "W w'"
proof -
  have start: "(\<lambda>s sw. W (snd sw)) s (srv, w)" using assms(4) by simp
  show ?thesis
  proof (rule client_event_cases [OF assms(1-3) world.world_handler_axioms start])
    fix upd srv1 and w1 :: 'w and s2 :: Session
    assume "W (snd (srv1 :: UnixSocketServer, w1))"
      and "client_event J ch ev p s srv w = Some (upd, w1) \<or>
        client_event J ch ev p s srv w = Some (ended (ptr_to_fd (ev_ptr ev)) p upd, w1)"
    with assms(5) show ?thesis by auto
  qed
qed

lemma handle_event_keeps:
  assumes "server_inv srv" and "W w" and r: "handle_epoll_event J ch ev srv w = Some (srv', w')"
  shows "W w'"
proof (cases "ev_ptr ev = 0 \<or> get_session_by_fd (ptr_to_fd (ev_ptr ev)) (connection_manager srv) = None")
  case True
  with r assms(2) show ?thesis by (auto simp: handle_epoll_event_def Let_def split: if_splits)
next
  case False
  then obtain p where p: "get_session_by_fd (ptr_to_fd (ev_ptr ev)) (connection_manager srv) = Some p" by blast
  from get_by_fd_sound [OF server_invD(1) [OF assms(1)] p] obtain s where s: "objects srv p = Some s" by blast
  with False p r have "client_event J ch ev p s srv w = Some (srv', w')"
    by (simp add: handle_epoll_event_def Let_def)
  with client_event_keeps [OF assms(1) s p assms(2)] show ?thesis by blast
qed

end

end
