(* ===== verification/Request_Flow.thy ===== *)
theory Request_Flow
  imports Server_Steps
begin

text \<open>
  The way of a request through the server, from the epoll event with its bytes to the session
  that its id names: requests that no session is found for, and requests whose id is the
  descriptor of the connection they came over.
\<close>

unbundle bit_operations_syntax

section \<open>Requests without a session\<close>

text \<open>
  As long as every request that was dispatched names a descriptor without a session, neither
  the world of the command handler nor another session has changed.
\<close>

definition unrouted :: "UnixSocketServer \<Rightarrow> 'j RequestMessage \<Rightarrow> bool" where
  "unrouted srv msg \<longleftrightarrow> get_session_by_fd (request_fd msg) (connection_manager srv) = None"

definition unrouted_inv :: "UnixSocketServer \<Rightarrow> 'w \<Rightarrow> session_ptr \<Rightarrow> Session \<Rightarrow>
    (UnixSocketServer \<times> 'w) \<times> 'j RequestMessage list \<Rightarrow> bool" where
  "unrouted_inv srv0 w0 p s wl \<longleftrightarrow>
     ((\<forall>m \<in> set (snd wl). unrouted srv0 m) \<longrightarrow>
       snd (fst wl) = w0 \<and>
       (\<exists>st. fst (fst wl) = srv0\<lparr>objects := st\<rparr> \<and> (\<forall>q. q \<noteq> p \<longrightarrow> st q = objects srv0 q)))"

lemma unrouted_step:
  assumes "unrouted_inv srv0 w0 p s wl" and "logged (session_callback J ch p) m s wl = (s', wl', e)"
  shows "unrouted_inv srv0 w0 p s' wl'"
  unfolding unrouted_inv_def
proof (intro impI)
  assume all: "\<forall>m \<in> set (snd wl'). unrouted srv0 m"
  obtain srv1 w1 l where wl: "wl = ((srv1, w1), l)" by (metis prod.exhaust)
  obtain sw' where cb: "session_callback J ch p m s (srv1, w1) = (s', sw', e)" "wl' = (sw', l @ [m])"
    using assms(2) wl by (auto simp: logged_def split: prod.splits)
  with all assms(1) wl obtain st where st: "srv1 = srv0\<lparr>objects := st\<rparr>" "w1 = w0"
      "\<forall>q. q \<noteq> p \<longrightarrow> st q = objects srv0 q" and m: "unrouted srv0 m"
    by (auto simp: unrouted_inv_def)
  have "session_callback J ch p m s (srv1, w1) = (s, (srv1\<lparr>objects := (objects srv1)(p := Some s)\<rparr>, w1), None)"
    by (rule callback_unrouted) (use m st(1) in \<open>simp add: unrouted_def\<close>)
  with cb st show "snd (fst wl') = w0 \<and>
      (\<exists>st. fst (fst wl') = srv0\<lparr>objects := st\<rparr> \<and> (\<forall>q. q \<noteq> p \<longrightarrow> st q = objects srv0 q))"
    by auto
qed

interpretation un: world_handler "logged (session_callback J ch p)" "unrouted_inv srv0 w0 p"
  for J :: "'j json_api" and ch :: "('j, 'w) command_handler" and srv0 w0 p
proof (intro world_handler.intro world_handler_axioms.intro)
  show "message_handler (logged (session_callback J ch p))" by (rule cb.message_handler_logged)
  show "unrouted_inv srv0 w0 p t w" if "unrouted_inv srv0 w0 p s w" for s t and w :: "(UnixSocketServer \<times> 'w) \<times> 'j RequestMessage list"
    using that by (simp add: unrouted_inv_def)
qed (rule unrouted_step)

lemma unrouted_stream:
  assumes "session_inv s" and "takes J s cs"
    and "\<forall>m \<in> set (requests J (fst (drain (try_parse J default_parser)
      (get_read_view (read_buffer s) @ concat cs)))). unrouted srv m"
  obtains s' st where "on_readable J (Some (session_callback J ch p)) err0 s (srv, w) (map RData cs) =
      Some (True, s', (srv\<lparr>objects := st\<rparr>, w), [])" "\<forall>q. q \<noteq> p \<longrightarrow> st q = objects srv q"
    "get_read_view (read_buffer s') =
      snd (drain (try_parse J default_parser) (get_read_view (read_buffer s) @ concat cs))"
    "ss_state s' = Active" "session_inv s'"
proof -
  let ?h = "session_callback J ch p"
  let ?l = "requests J (fst (drain (try_parse J default_parser) (get_read_view (read_buffer s) @ concat cs)))"
  obtain s' sw' where r: "on_readable J (Some (logged ?h)) err0 s ((srv, w), []) (map RData cs) =
        Some (True, s', (sw', ?l), [])"
      "on_readable J (Some ?h) err0 s (srv, w) (map RData cs) = Some (True, s', sw', [])"
      "get_read_view (read_buffer s') =
        snd (drain (try_parse J default_parser) (get_read_view (read_buffer s) @ concat cs))"
      "ss_state s' = Active"
    using message_handler.on_readable_dispatch [OF cb.message_handler_axioms assms(1,2), of J ch p err0 "(srv, w)" "[]"] by auto
  have "unrouted_inv srv w p s ((srv, w), [])"
    by (auto simp: unrouted_inv_def intro!: exI [of _ "objects srv"])
  from un.on_readable_I [OF r(1) this] assms(3) obtain st where
      "sw' = (srv\<lparr>objects := st\<rparr>, w)" "\<forall>q. q \<noteq> p \<longrightarrow> st q = objects srv q"
    by (cases sw') (auto simp: unrouted_inv_def)
  moreover have "\<exists>ok t w' inp'. on_readable J (Some ?h) err0 s (srv, w) (map RData cs) = Some (ok, t, w', inp') \<and>
      session_inv t \<and> (ok \<longrightarrow> ss_state t = Active) \<and> (\<not> ok \<longrightarrow> ss_state t = Closed)"
    by (rule message_handler.on_readable_total [OF cb.message_handler_axioms assms(1)])
  then have "session_inv s'" using r(2) by auto
  ultimately show thesis using r by (intro that) simp_all
qed

section \<open>Events\<close>

text \<open>The event of a client whose bytes are read without an error.\<close>

lemma readable_event:
  assumes p: "get_session_by_fd (ptr_to_fd (ev_ptr ev)) (connection_manager srv) = Some p"
    and s: "objects srv p = Some s" and ev: "ev_ptr ev \<noteq> 0" "ev_events ev AND EPOLLIN \<noteq> 0"
    and r: "on_readable J (Some (session_callback J ch p)) (ev_errno ev) s (srv, w) (ev_input ev) =
      Some (True, s', (srv1, w1), [])" "ss_state s' = Active" "session_inv s'"
  obtains sent where "handle_epoll_event J ch ev srv w =
    Some (srv1\<lparr>objects := (objects srv1)(p := Some s'), wire := wire srv1 @ sent\<rparr>, w1)"
proof -
  have mask: "ev_events ev AND (EPOLLIN OR EPOLLERR OR EPOLLHUP) \<noteq> 0"
    using ev(2) by (simp add: bit.conj_disj_distrib or_eq_0_iff)
  let ?sent = "if ev_events ev AND EPOLLOUT \<noteq> 0 then [(ptr_to_fd (ev_ptr ev), [])] else []"
  have same: "s'\<lparr>ss_state := Active\<rparr> = s'" using r(2) by simp
  have "handle_epoll_event J ch ev srv w =
      Some (srv1\<lparr>objects := (objects srv1)(p := Some s'), wire := wire srv1 @ ?sent\<rparr>, w1)"
    using p s ev r mask
    by (simp add: handle_epoll_event_def client_event_def Let_def is_closed_def session_inv_writable same)
  then show thesis by (rule that)
qed

text \<open>
  The event of a client whose requests find no session: the bytes are consumed, and the server
  is left as it was apart from the session that read them.
\<close>

lemma unrouted_event:
  assumes inv: "server_inv srv" and p: "get_session_by_fd (ptr_to_fd (ev_ptr ev)) (connection_manager srv) = Some p"
    and s: "objects srv p = Some s" and ev: "ev_ptr ev \<noteq> 0" "ev_events ev AND EPOLLIN \<noteq> 0"
      "ev_input ev = map RData cs" and cs: "takes J s cs"
    and un: "\<forall>m \<in> set (requests J (fst (drain (try_parse J default_parser)
      (get_read_view (read_buffer s) @ concat cs)))). unrouted srv m"
  obtains srv' s' where "handle_epoll_event J ch ev srv w = Some (srv', w)"
    "connection_manager srv' = connection_manager srv" "\<forall>q. q \<noteq> p \<longrightarrow> objects srv' q = objects srv q"
    "objects srv' p = Some s'" "ss_state s' = Active"
    "get_read_view (read_buffer s') =
      snd (drain (try_parse J default_parser) (get_read_view (read_buffer s) @ concat cs))"
proof -
  from unrouted_stream [OF server_invD(3) [OF inv s] cs un, of ch p "ev_errno ev" w] obtain s' st where
    r: "on_readable J (Some (session_callback J ch p)) (ev_errno ev) s (srv, w) (ev_input ev) =
        Some (True, s', (srv\<lparr>objects := st\<rparr>, w), [])" "\<forall>q. q \<noteq> p \<longrightarrow> st q = objects srv q"
      "get_read_view (read_buffer s') =
        snd (drain (try_parse J default_parser) (get_read_view (read_buffer s) @ concat cs))"
      "ss_state s' = Active" "session_inv s'"
    unfolding ev(3) by blast
  obtain sent where "handle_epoll_event J ch ev srv w =
      Some ((srv\<lparr>objects := st\<rparr>)\<lparr>objects := (objects (srv\<lparr>objects := st\<rparr>))(p := Some s'),
        wire := wire (srv\<lparr>objects := st\<rparr>) @ sent\<rparr>, w)"
    by (rule readable_event [OF p s ev(1,2) r(1,4,5)])
  then show thesis by (rule that) (use r in simp_all)
qed

section \<open>Requests over their own connection\<close>

text \<open>
  The message that \<open>on_message\<close> queues for a request: the response with the id of the request,
  or the internal error when the command handler throws.
\<close>

definition reply :: "('j, 'w) command_handler \<Rightarrow> 'j RequestMessage \<Rightarrow> 'w \<Rightarrow> 'j JsonMessage" where
  "reply ch msg w =
     (case fst (ch msg w) of
        Inr response \<Rightarrow> empty_message\<lparr>jm_id := rq_id msg, jm_result := Some (rs_result response)\<rparr>
      | Inl e \<Rightarrow> empty_message\<lparr>jm_id := rq_id msg, jm_error := Some (er_error (internal_error_response msg e))\<rparr>)"

definition elsewhere :: "session_ptr \<Rightarrow> UnixSocketServer \<Rightarrow> UnixSocketServer \<Rightarrow> bool" where
  "elsewhere p srv srv' \<longleftrightarrow> connection_manager srv' = connection_manager srv \<and>
     (\<forall>q. q \<noteq> p \<longrightarrow> objects srv' q = objects srv q)"

lemma schedule_text:
  assumes "serialize J msg = Inr bytes"
  shows "schedule_message J msg s = Inr (s\<lparr>write_buffer := queue_text bytes (write_buffer s)\<rparr>)"
  using assms by (auto simp: schedule_message_def serialize_def res_bind_Inr_iff)

lemma on_message_reply:
  assumes t: "objects srv q = Some t" and bytes: "serialize J (reply ch msg w) = Inr bytes"
  obtains srv' where "on_message J ch msg q srv w = (srv', snd (ch msg w), None)" "elsewhere q srv srv'"
    "objects srv' q = Some (t\<lparr>write_buffer := queue_text bytes (write_buffer t)\<rparr>)"
proof -
  let ?t = "t\<lparr>write_buffer := queue_text bytes (write_buffer t)\<rparr>"
  let ?srv = "srv\<lparr>objects := (objects srv)(q := Some ?t)\<rparr>"
  obtain r w1 where r: "ch msg w = (r, w1)" by fastforce
  show thesis
  proof (cases r)
    case (Inl e)
    with r bytes schedule_text [OF bytes, of t] have
      "on_object q (schedule_send_error J (internal_error_response msg e)) srv = (?srv, None)"
      by (simp add: on_object_def t schedule_send_error_def reply_def internal_error_response_def)
    with r Inl show thesis by (intro that [of ?srv]) (simp_all add: on_message_def elsewhere_def)
  next
    case (Inr response)
    with r schedule_text [OF bytes, of t] have
      "on_object q (schedule_send J (response\<lparr>rs_id := rq_id msg\<rparr>)) srv = (?srv, None)"
      by (simp add: on_object_def t schedule_send_def reply_def)
    with r Inr show thesis
      by (intro that [of "snd (modify_epoll (object_fd ?srv q) (EPOLLIN OR EPOLLET OR EPOLLOUT)
            (fd_to_ptr (object_fd ?srv q)) ?srv)"])
        (simp_all add: on_message_def elsewhere_def modify_epoll_def)
  qed
qed

text \<open>
  What holds while the session at \<open>p\<close> reads a stream whose only request is \<open>m\<close>: before \<open>m\<close>
  nothing has happened, after it the handler has been called once and the reply is queued.
\<close>

definition answering :: "UnixSocketServer \<Rightarrow> session_ptr \<Rightarrow> string \<Rightarrow> 'j RequestMessage \<Rightarrow> 'w \<Rightarrow> 'w \<Rightarrow> string \<Rightarrow>
    Session \<Rightarrow> (UnixSocketServer \<times> 'w) \<times> 'j RequestMessage list \<Rightarrow> bool" where
  "answering srv0 p v m w0 w1 bytes s wl \<longleftrightarrow>
     buf_ok (write_buffer s) \<and>
     (snd wl = [] \<longrightarrow> elsewhere p srv0 (fst (fst wl)) \<and> snd (fst wl) = w0 \<and> get_read_view (write_buffer s) = v) \<and>
     (snd wl = [m] \<longrightarrow> elsewhere p srv0 (fst (fst wl)) \<and> snd (fst wl) = w1 \<and>
        get_read_view (write_buffer s) = v @ bytes @ [newline])"

lemma answering_step:
  assumes p: "get_session_by_fd (request_fd m) (connection_manager srv0) = Some p"
    and bytes: "serialize J (reply ch m w0) = Inr bytes" and w1: "snd (ch m w0) = w1"
    and I: "answering srv0 p v m w0 w1 bytes s wl"
    and cb: "logged (session_callback J ch p) m' s wl = (s', wl', e)"
  shows "answering srv0 p v m w0 w1 bytes s' wl'"
proof -
  obtain srv w l where wl: "wl = ((srv, w), l)" by (metis prod.exhaust)
  obtain sw' where c: "session_callback J ch p m' s (srv, w) = (s', sw', e)" "wl' = (sw', l @ [m'])"
    using cb wl by (auto simp: logged_def split: prod.splits)
  have ok: "buf_ok (write_buffer s')" using cb.keeps_wb [OF c(1)] I by (simp add: answering_def)
  show ?thesis
  proof (cases "l = [] \<and> m' = m")
    case False
    with ok c(2) show ?thesis by (auto simp: answering_def)
  next
    case True
    with I wl have srv: "elsewhere p srv0 srv" "w = w0" and v: "get_read_view (write_buffer s) = v"
        "buf_ok (write_buffer s)"
      by (auto simp: answering_def)
    let ?srv = "srv\<lparr>objects := (objects srv)(p := Some s)\<rparr>"
    obtain srv2 where o: "on_message J ch m p ?srv w0 = (srv2, snd (ch m w0), None)" "elsewhere p ?srv srv2"
        "objects srv2 p = Some (s\<lparr>write_buffer := queue_text bytes (write_buffer s)\<rparr>)"
      by (rule on_message_reply [OF _ bytes, of ?srv p s]) simp
    with c(1) True srv p have "s' = s\<lparr>write_buffer := queue_text bytes (write_buffer s)\<rparr>" "sw' = (srv2, w1)"
      by (auto simp: session_callback_def elsewhere_def w1)
    with ok c(2) True srv(1) o(2) v queue_text_ok(1) [OF v(2), of bytes] show ?thesis
      by (auto simp: answering_def elsewhere_def)
  qed
qed

lemma answering_handler:
  assumes "get_session_by_fd (request_fd m) (connection_manager srv0) = Some p"
    and "serialize J (reply ch m w0) = Inr bytes" and "snd (ch m w0) = w1"
  shows "queue_handler (logged (session_callback J ch p)) (answering srv0 p v m w0 w1 bytes) (\<lambda>_ _. True)"
proof (intro queue_handler.intro queue_handler_axioms.intro)
  show "message_handler (logged (session_callback J ch p))" by (rule cb.message_handler_logged)
  show "answering srv0 p v m w0 w1 bytes t wl"
    if "answering srv0 p v m w0 w1 bytes s wl" "write_buffer t = write_buffer s" for s t wl
    using that by (simp add: answering_def)
qed (use answering_step [OF assms] in auto)

lemma own_request_event:
  assumes inv: "server_inv srv" and p: "get_session_by_fd (ptr_to_fd (ev_ptr ev)) (connection_manager srv) = Some p"
    and s: "objects srv p = Some s" and ev: "ev_ptr ev \<noteq> 0" "ev_events ev AND EPOLLIN \<noteq> 0"
      "ev_input ev = map RData cs" and cs: "takes J s cs"
    and m: "requests J (fst (drain (try_parse J default_parser) (get_read_view (read_buffer s) @ concat cs))) = [m]"
    and own: "request_fd m = ptr_to_fd (ev_ptr ev)" and bytes: "serialize J (reply ch m w) = Inr bytes"
  obtains srv' s' where "handle_epoll_event J ch ev srv w = Some (srv', snd (ch m w))" "elsewhere p srv srv'"
    "objects srv' p = Some s'" "ss_state s' = Active"
    "get_read_view (write_buffer s') = get_read_view (write_buffer s) @ bytes @ [newline]"
    "get_read_view (read_buffer s') =
      snd (drain (try_parse J default_parser) (get_read_view (read_buffer s) @ concat cs))"
proof -
  let ?h = "session_callback J ch p"
  note si = server_invD(3) [OF inv s]
  obtain s' srv1 w1 where r: "on_readable J (Some (logged ?h)) (ev_errno ev) s ((srv, w), []) (map RData cs) =
        Some (True, s', ((srv1, w1), [m]), [])"
      "on_readable J (Some ?h) (ev_errno ev) s (srv, w) (ev_input ev) = Some (True, s', (srv1, w1), [])"
      "get_read_view (read_buffer s') =
        snd (drain (try_parse J default_parser) (get_read_view (read_buffer s) @ concat cs))"
      "ss_state s' = Active"
    using message_handler.on_readable_dispatch [OF cb.message_handler_axioms si cs, of J ch p "ev_errno ev" "(srv, w)" "[]"]
    by (auto simp: ev(3) m)
  have "answering srv p (get_read_view (write_buffer s)) m w (snd (ch m w)) bytes s ((srv, w), [])"
    using si by (simp add: answering_def elsewhere_def session_inv_def)
  from queue_handler.on_readable_I [OF answering_handler [OF _ bytes refl] r(1) this] p own
  have "answering srv p (get_read_view (write_buffer s)) m w (snd (ch m w)) bytes s' ((srv1, w1), [m])" by simp
  then have a: "elsewhere p srv srv1" "w1 = snd (ch m w)"
      "get_read_view (write_buffer s') = get_read_view (write_buffer s) @ bytes @ [newline]"
    by (simp_all add: answering_def)
  have "session_inv s'" using cb.on_readable_total [OF si, of J J ch p "ev_errno ev" "(srv, w)" "ev_input ev"] r(2) by auto
  then obtain sent where "handle_epoll_event J ch ev srv w =
      Some (srv1\<lparr>objects := (objects srv1)(p := Some s'), wire := wire srv1 @ sent\<rparr>, w1)"
    by (rule readable_event [OF p s ev(1,2) r(2,4)])
  then have "handle_epoll_event J ch ev srv w =
      Some (srv1\<lparr>objects := (objects srv1)(p := Some s'), wire := wire srv1 @ sent\<rparr>, snd (ch m w))"
    using a(2) by simp
  then show thesis by (rule that) (use a r in \<open>simp_all add: elsewhere_def\<close>)
qed

end
