(* ===== verification/System.thy ===== *)
theory System
  imports Daemon Request_Flow
begin

text \<open>
  The running daemon of \<open>src/daemon/main.cpp\<close>: the main thread, the server thread and the
  signal handler as one step relation over the state they share, from the start of the
  server thread to the end of \<open>main\<close>.
\<close>

section \<open>The handler of the running daemon\<close>

text \<open>
  The lambda \<open>commandHandler\<close> with what it captures: the registry is fixed, the task manager
  is shared. Each call meets an environment of its own. After undefined behaviour the answer is
  arbitrary and the manager stays \<^const>\<open>Undefined\<close>.
\<close>

type_synonym 'j task_world = "(nat \<Rightarrow> call_env) \<times> 'j TaskManager outcome"

definition daemon_handler :: "'j json_api \<Rightarrow> CommandRegistry \<Rightarrow> ('j, 'j task_world) command_handler" where
  "daemon_handler J reg request w =
     (let envs = (\<lambda>n. fst w (Suc n)) in
      case out_bind (snd w) (commandHandler J (fst w 0) reg request) of
        Done (response, m) \<Rightarrow> (Inr response, (envs, Done m))
      | Undefined \<Rightarrow> (Inl (Runtime_error []), (envs, Undefined)))"

definition world_safe :: "'j task_world \<Rightarrow> bool" where
  "world_safe w \<longleftrightarrow> (\<forall>m. snd w = Done m \<longrightarrow> tm_safe m)"

lemma commandHandler_safe:
  assumes "tm_safe m" and "commandHandler J env reg request m = Done (resp, m')"
  shows "tm_safe m'"
  using assms tm_safe_execute [OF assms(1)]
  by (cases "get_command (rq_method request) reg")
    (auto simp: commandHandler_unknown commandHandler_known out_bind_Done_iff)

interpretation dh: command_service "daemon_handler J reg" world_safe
  for J :: "'j json_api" and reg
  by unfold_locales
    (auto simp: daemon_handler_def world_safe_def Let_def out_bind_Done_iff
      split: outcome.splits prod.splits dest: commandHandler_safe)

section \<open>Threads\<close>

text \<open>Where the main thread and the server thread are.\<close>

datatype main_phase = Test_flag | Check_signal | Stop_server | Join_thread | Stop_tasks | Leave | Finished

datatype thread_phase = Begin | Test_stop | Waiting | Handling "event list" | Returned

record 'j system =
  sy_signals :: SignalHandler
  sy_server :: UnixSocketServer
  sy_tasks :: "'j TaskManager outcome"
  sy_main :: main_phase
  sy_thread :: thread_phase

definition launched :: "'j daemon \<Rightarrow> 'j system" where
  "launched d =
     \<lparr>sy_signals = dm_signals d, sy_server = dm_server d, sy_tasks = Done (dm_tasks d),
      sy_main = Test_flag, sy_thread = Begin\<rparr>"

text \<open>The body of the signal loop after the test of the flag.\<close>

definition main_signal :: "SignalHandler \<Rightarrow> main_phase \<times> SignalHandler" where
  "main_signal h =
     (case checkSignal h of
        (No_signal, h1) \<Rightarrow> (Test_flag, h1)
      | (Hangup, h1) \<Rightarrow> (Test_flag, signal_reset h1)
      | (Pipe, h1) \<Rightarrow> (Test_flag, signal_reset h1)
      | (Interrupt, h1) \<Rightarrow> (Stop_server, h1)
      | (Terminate, h1) \<Rightarrow> (Stop_server, h1))"

text \<open>
  One step of a thread or the arrival of a signal. \<open>sigs\<close> are the signals that may arrive
  and \<open>errs\<close> the errors \<open>epoll_wait\<close> may return. The last step of the main thread runs the
  destructors of \<open>main\<close>'s objects. The thread of an added task may run \<open>run_task\<close> at any time.
\<close>

inductive system_step :: "'j json_api \<Rightarrow> nat \<Rightarrow> CommandRegistry \<Rightarrow> signum set \<Rightarrow> errno set \<Rightarrow>
    'j system \<Rightarrow> 'j system \<Rightarrow> bool"
  for J cap reg sigs errs where
  signal: "n \<in> sigs \<Longrightarrow> handleSignal cap n (sy_signals y) = Some h \<Longrightarrow>
    system_step J cap reg sigs errs y (y\<lparr>sy_signals := h\<rparr>)"
| main_test: "sy_main y = Test_flag \<Longrightarrow>
    ph = (if isShutdownRequested (sy_signals y) then Stop_server else Check_signal) \<Longrightarrow>
    system_step J cap reg sigs errs y (y\<lparr>sy_main := ph\<rparr>)"
| main_check: "sy_main y = Check_signal \<Longrightarrow> main_signal (sy_signals y) = (ph, h) \<Longrightarrow>
    system_step J cap reg sigs errs y (y\<lparr>sy_main := ph, sy_signals := h\<rparr>)"
| main_stop: "sy_main y = Stop_server \<Longrightarrow>
    system_step J cap reg sigs errs y (y\<lparr>sy_server := stop (sy_server y), sy_main := Join_thread\<rparr>)"
| main_join: "sy_main y = Join_thread \<Longrightarrow> sy_thread y = Returned \<Longrightarrow>
    system_step J cap reg sigs errs y (y\<lparr>sy_main := Stop_tasks\<rparr>)"
| main_tasks: "sy_main y = Stop_tasks \<Longrightarrow> sy_tasks y = Done m \<Longrightarrow> stop_all_tasks now ps m = Some r \<Longrightarrow>
    system_step J cap reg sigs errs y (y\<lparr>sy_tasks := out_bind r (\<lambda>(_, m'). Done m'), sy_main := Leave\<rparr>)"
| main_exit: "sy_main y = Leave \<Longrightarrow> sy_tasks y = Done m \<Longrightarrow> destroy_task_manager now ps m = Some r \<Longrightarrow>
    system_step J cap reg sigs errs y (y\<lparr>sy_server := destroy_server (sy_server y),
      sy_tasks := out_bind r (\<lambda>(_, m'). Done m'), sy_signals := destroy_signal_handler (sy_signals y),
      sy_main := Finished\<rparr>)"
| thread_refused: "sy_thread y = Begin \<Longrightarrow> sint (server_fd (sy_server y)) < 0 \<or> sint (epoll_fd (sy_server y)) < 0 \<Longrightarrow>
    system_step J cap reg sigs errs y (y\<lparr>sy_thread := Returned\<rparr>)"
| thread_begin: "sy_thread y = Begin \<Longrightarrow> \<not> (sint (server_fd (sy_server y)) < 0 \<or> sint (epoll_fd (sy_server y)) < 0) \<Longrightarrow>
    system_step J cap reg sigs errs y
      (y\<lparr>sy_server := (sy_server y)\<lparr>running := True, stop_requested := False\<rparr>, sy_thread := Test_stop\<rparr>)"
| thread_wait: "sy_thread y = Test_stop \<Longrightarrow> \<not> stop_requested (sy_server y) \<Longrightarrow>
    system_step J cap reg sigs errs y (y\<lparr>sy_thread := Waiting\<rparr>)"
| thread_stopped: "sy_thread y = Test_stop \<Longrightarrow> stop_requested (sy_server y) \<Longrightarrow>
    system_step J cap reg sigs errs y (y\<lparr>sy_server := (sy_server y)\<lparr>running := False\<rparr>, sy_thread := Returned\<rparr>)"
| thread_interrupted: "sy_thread y = Waiting \<Longrightarrow> EINTR \<in> errs \<Longrightarrow>
    system_step J cap reg sigs errs y (y\<lparr>sy_thread := Test_stop\<rparr>)"
| thread_failed: "sy_thread y = Waiting \<Longrightarrow> e \<in> errs \<Longrightarrow> e \<noteq> EINTR \<Longrightarrow>
    system_step J cap reg sigs errs y (y\<lparr>sy_server := (sy_server y)\<lparr>running := False\<rparr>, sy_thread := Returned\<rparr>)"
| thread_events: "sy_thread y = Waiting \<Longrightarrow> length evs \<le> 64 \<Longrightarrow>
    system_step J cap reg sigs errs y (y\<lparr>sy_thread := Handling evs\<rparr>)"
| thread_event: "sy_thread y = Handling (ev # evs) \<Longrightarrow> kernel_event (sy_server y) ev \<Longrightarrow>
    unat (next_session_id (sy_server y)) + length (ev_conns ev) < 2 ^ 64 \<Longrightarrow> sy_tasks y = Done m \<Longrightarrow>
    handle_epoll_event J (daemon_handler J reg) ev (sy_server y) (envs, Done m) = Some (srv, w) \<Longrightarrow>
    system_step J cap reg sigs errs y (y\<lparr>sy_server := srv, sy_tasks := snd w, sy_thread := Handling evs\<rparr>)"
| thread_next: "sy_thread y = Handling [] \<Longrightarrow>
    system_step J cap reg sigs errs y (y\<lparr>sy_thread := Test_stop\<rparr>)"
| task_thread: "sy_tasks y = Done m \<Longrightarrow> map_of (tm_tasks m) i = Some entry \<Longrightarrow>
    system_step J cap reg sigs errs y (y\<lparr>sy_tasks :=
      out_bind (run_task now1 x rounds now2 entry) (\<lambda>(_, e). Done (m\<lparr>tm_tasks := AList.update i e (tm_tasks m)\<rparr>))\<rparr>)"

inductive_cases system_stepE: "system_step J cap reg sigs errs y y'"

section \<open>The invariant\<close>

text \<open>
  Up to the end of \<open>main\<close> the server is in its invariant and owns its descriptors, afterwards
  only the inherited ones are open; no byte has been sent; the tables of tasks are safe; the
  main thread leaves its loop only after the flag was set and goes on only after the server
  thread has returned; and it gets past the tasks only when there are none.
\<close>

definition past_loop :: "main_phase \<Rightarrow> bool" where
  "past_loop ph \<longleftrightarrow> ph \<in> {Stop_server, Join_thread, Stop_tasks, Leave, Finished}"

definition past_join :: "main_phase \<Rightarrow> bool" where
  "past_join ph \<longleftrightarrow> ph \<in> {Stop_tasks, Leave, Finished}"

definition system_inv :: "int32 set \<Rightarrow> 'j system \<Rightarrow> bool" where
  "system_inv F y \<longleftrightarrow>
     (if sy_main y = Finished then set (open_fds (sy_server y)) = F
      else server_inv (sy_server y) \<and> owns F (sy_server y)) \<and>
     (\<forall>e \<in> set (wire (sy_server y)). snd e = []) \<and>
     sig_inv (sy_signals y) \<and>
     (\<forall>m. sy_tasks y = Done m \<longrightarrow> tm_safe m \<and> (sy_main y \<in> {Leave, Finished} \<longrightarrow> tm_tasks m = [])) \<and>
     (past_loop (sy_main y) \<longrightarrow> shutdownRequested (sy_signals y)) \<and>
     (past_join (sy_main y) \<longrightarrow> sy_thread y = Returned)"

lemmas phase_simps = past_loop_def past_join_def

lemma main_signal_inv:
  assumes "main_signal h = (ph, h')" and "sig_inv h"
  shows "sig_inv h' \<and> \<not> past_join ph \<and> shutdownRequested h' = shutdownRequested h \<and>
    (past_loop ph \<longrightarrow> shutdownRequested h)"
  using assms
  by (auto simp: main_signal_def checkSignal_def sig_inv_def signal_reset_def phase_simps
      split: SignalType.splits if_splits)

lemma handleSignal_inv:
  assumes "handleSignal cap n h = Some h'" and "sig_inv h"
  shows "sig_inv h'"
  using sig_inv_deliver [of cap "[n]" h h'] assms by simp

text \<open>Steps of the server thread and of \<open>stop()\<close>.\<close>

lemma server_part:
  assumes "server_inv srv" and "owns F srv"
  shows "server_inv (srv\<lparr>running := r\<rparr>) \<and> owns F (srv\<lparr>running := r\<rparr>)"
    and "server_inv (srv\<lparr>running := r, stop_requested := b\<rparr>) \<and> owns F (srv\<lparr>running := r, stop_requested := b\<rparr>)"
    and "server_inv (stop srv) \<and> owns F (stop srv)"
    and "\<forall>e \<in> set (wire (stop srv)). snd e = []"
  using assms stop_result(7) [OF assms(1)] server_invD(10) [OF assms(1)]
  by (auto simp: server_inv_flags server_inv_stop stop_owns intro: owns_cong)

lemma event_part:
  assumes "server_inv srv" and "owns F srv" and "tm_safe m" and "kernel_event srv ev"
    and "unat (next_session_id srv) + length (ev_conns ev) < 2 ^ 64"
    and r: "handle_epoll_event J (daemon_handler J reg) ev srv (envs, Done m) = Some (srv', w)"
  shows "server_inv srv' \<and> owns F srv' \<and> world_safe w"
proof -
  have "server_inv srv'"
    using handle_epoll_event_inv [OF assms(1,4,5), of J "daemon_handler J reg" "(envs, Done m)"] r by auto
  moreover have "owns F srv'" using handle_event_owns [OF assms(1,4,5,2) r] by blast
  moreover have "world_safe w"
    by (rule dh.handle_event_keeps [OF assms(1) _ r]) (simp add: world_safe_def assms(3))
  ultimately show ?thesis by blast
qed

text \<open>The tasks at the end.\<close>

lemma tasks_part:
  assumes "tm_safe m" and "stop_all_tasks now ps m = Some r" and "out_bind r (\<lambda>(_, m'). Done m') = Done m1"
  shows "tm_safe m1 \<and> tm_tasks m1 = []"
  using assms stop_all_tasks_null [of m now ps] by (auto simp: tm_safe_def tm_null_def split: if_splits)

lemma run_task_null: "te_task e = None \<Longrightarrow> run_task now1 x rounds now2 e = Undefined"
  by (simp add: run_task_def Let_def)

lemma tm_safe_entry: "tm_safe m \<Longrightarrow> map_of (tm_tasks m) i = Some e \<Longrightarrow> te_task e = None"
  by (auto simp: tm_safe_def tm_null_def dest: map_of_SomeD)

lemma system_step_inv:
  assumes "system_step J cap reg sigs errs y y'" and "system_inv F y"
  shows "system_inv F y'"
  using assms(1)
proof (cases rule: system_step.cases)
  case (signal n h)
  then have "shutdownRequested (sy_signals y) \<longrightarrow> shutdownRequested h" "sig_inv h"
    using shutdown_stays(1) handleSignal_inv assms(2) by (auto simp: system_inv_def)
  with signal assms(2) show ?thesis by (auto simp: system_inv_def)
next
  case (main_test ph)
  with assms(2) show ?thesis by (auto simp: system_inv_def phase_simps)
next
  case (main_check ph h)
  with assms(2) main_signal_inv [OF main_check(3)] show ?thesis
    by (auto simp: system_inv_def phase_simps)
next
  case main_stop
  with assms(2) server_part(3,4) [of "sy_server y" F] show ?thesis by (auto simp: system_inv_def phase_simps)
next
  case main_join
  with assms(2) show ?thesis by (auto simp: system_inv_def phase_simps)
next
  case (main_tasks m now ps r)
  with assms(2) tasks_part [OF _ main_tasks(4)] show ?thesis by (auto simp: system_inv_def phase_simps)
next
  case (main_exit m now ps r)
  have fds: "set (open_fds (destroy_server (sy_server y))) = F"
    "\<forall>e \<in> set (wire (destroy_server (sy_server y))). snd e = []"
    using main_exit assms(2) destroy_server_fds(1) [of "sy_server y" F] server_part(4) [of "sy_server y" F]
    by (auto simp: system_inv_def destroy_server_def sys_close_def Let_def)
  with main_exit assms(2) tasks_part [OF _ main_exit(4) [unfolded destroy_task_manager_def]] show ?thesis
    by (auto simp: system_inv_def phase_simps sig_inv_def destroy_signal_handler_def)
next
  case (thread_event ev evs m envs srv w)
  have main: "\<not> past_join (sy_main y)" using thread_event assms(2) by (auto simp: system_inv_def)
  then have "sy_main y \<noteq> Finished" by (auto simp: phase_simps)
  with assms(2) thread_event have "server_inv srv \<and> owns F srv \<and> world_safe w"
    by (intro event_part [where srv = "sy_server y" and m = m]) (auto simp: system_inv_def)
  with thread_event assms(2) main server_invD(10) [of srv] show ?thesis
    by (auto simp: system_inv_def phase_simps world_safe_def)
next
  case (task_thread m i entry now1 x rounds now2)
  with assms(2) run_task_null [OF tm_safe_entry [of m i entry]] show ?thesis by (auto simp: system_inv_def)
qed (use assms(2) server_part [of "sy_server y" F] in \<open>auto simp: system_inv_def phase_simps\<close>)

lemma system_inv_launched:
  assumes "server_inv (dm_server d)" and "owns F (dm_server d)" and "sig_inv (dm_signals d)"
    and "tm_safe (dm_tasks d)"
  shows "system_inv F (launched d)"
  using assms server_invD(10) [OF assms(1)] by (simp add: system_inv_def launched_def phase_simps)

lemma system_steps_inv:
  assumes "(system_step J cap reg sigs errs)\<^sup>*\<^sup>* y y'" and "system_inv F y"
  shows "system_inv F y'"
  using assms by (induction rule: rtranclp_induct) (auto intro: system_step_inv)

section \<open>The signal loop as a run\<close>

text \<open>
  The rounds of \<open>signal_loop\<close> are steps of the main thread and arrivals of signals: what the
  function computes is a run of the relation, from the test of the flag to the end of the loop.
\<close>

lemma deliver_steps:
  assumes "deliver cap ns (sy_signals y) = Some h" and "set ns \<subseteq> sigs"
  shows "(system_step J cap reg sigs errs)\<^sup>*\<^sup>* y (y\<lparr>sy_signals := h\<rparr>)"
  using assms
proof (induction ns arbitrary: y)
  case (Cons n ns)
  then obtain h1 where h1: "handleSignal cap n (sy_signals y) = Some h1" "deliver cap ns h1 = Some h"
    by (auto simp: bind_eq_Some_conv)
  have "system_step J cap reg sigs errs y (y\<lparr>sy_signals := h1\<rparr>)"
    using h1(1) Cons.prems(2) by (intro system_step.signal) simp_all
  moreover have "(system_step J cap reg sigs errs)\<^sup>*\<^sup>* (y\<lparr>sy_signals := h1\<rparr>) (y\<lparr>sy_signals := h\<rparr>)"
    using Cons.IH [of "y\<lparr>sy_signals := h1\<rparr>"] h1(2) Cons.prems(2) by simp
  ultimately show ?case by (rule converse_rtranclp_into_rtranclp)
next
  case Nil
  then have h: "h = sy_signals y" by simp
  show ?case unfolding h by simp
qed

lemma check_step:
  assumes "sy_main y = Check_signal" and "main_signal (sy_signals y) = (ph, h)"
    and "(system_step J cap reg sigs errs)\<^sup>*\<^sup>* (y\<lparr>sy_main := ph, sy_signals := h\<rparr>) y'"
  shows "(system_step J cap reg sigs errs)\<^sup>*\<^sup>* y y'"
  using system_step.main_check [OF assms(1,2)] assms(3) by (rule converse_rtranclp_into_rtranclp)

lemma signal_loop_steps:
  assumes "signal_loop cap rs (sy_signals y) = Some h" and "sy_main y = Test_flag"
    and "\<forall>r \<in> set rs. set (fst r) \<union> set (snd r) \<subseteq> sigs"
  shows "(system_step J cap reg sigs errs)\<^sup>*\<^sup>* y (y\<lparr>sy_signals := h, sy_main := Stop_server\<rparr>)"
  using assms
proof (induction rs arbitrary: y)
  case (Cons r rs)
  let ?steps = "(system_step J cap reg sigs errs)\<^sup>*\<^sup>*"
  have swap: "y\<lparr>sy_main := ph, sy_signals := g\<rparr> = y\<lparr>sy_signals := g, sy_main := ph\<rparr>" for ph g
    by (cases y) simp
  obtain h1 where h1: "deliver cap (fst r) (sy_signals y) = Some h1"
    using Cons.prems(1) by (auto simp: bind_eq_Some_conv)
  let ?y1 = "y\<lparr>sy_signals := h1\<rparr>"
  have s1: "?steps y ?y1" by (rule deliver_steps [OF h1]) (use Cons.prems(3) in auto)
  show ?case
  proof (cases "shutdownRequested h1")
    case True
    then have "h = h1" using Cons.prems(1) h1 by simp
    with True system_step.main_test [of ?y1, OF _ refl] Cons.prems(2) s1 show ?thesis
      by (auto intro: rtranclp.rtrancl_into_rtrancl)
  next
    case False
    then obtain h2 where h2: "deliver cap (snd r) h1 = Some h2"
      using h1 Cons.prems(1) by (auto simp: bind_eq_Some_conv)
    let ?y2 = "y\<lparr>sy_signals := h1, sy_main := Check_signal\<rparr>" and ?y3 = "y\<lparr>sy_signals := h2, sy_main := Check_signal\<rparr>"
    have s2: "?steps ?y1 ?y2"
      using False system_step.main_test [of ?y1, OF _ refl] Cons.prems(2) by (auto intro: r_into_rtranclp)
    have "?steps ?y2 (?y2\<lparr>sy_signals := h2\<rparr>)" by (rule deliver_steps) (use h2 Cons.prems(3) in auto)
    then have s3: "?steps ?y2 ?y3" by (simp add: swap)
    obtain ph h3 where c: "main_signal h2 = (ph, h3)" by fastforce
    have rest: "ph = Test_flag \<and> signal_loop cap rs h3 = Some h \<or> ph = Stop_server \<and> h3 = h"
      using Cons.prems(1) h1 h2 False c by (auto simp: main_signal_def split: prod.splits SignalType.splits)
    have "?steps (y\<lparr>sy_signals := h3, sy_main := ph\<rparr>) (y\<lparr>sy_signals := h, sy_main := Stop_server\<rparr>)"
      using rest Cons.IH [of "y\<lparr>sy_signals := h3, sy_main := Test_flag\<rparr>"] Cons.prems(3) by auto
    then have s4: "?steps ?y3 (y\<lparr>sy_signals := h, sy_main := Stop_server\<rparr>)"
      using c by (intro check_step [of ?y3 ph h3]) (simp_all add: swap)
    show ?thesis using s1 s2 s3 s4 by (meson rtranclp_trans)
  qed
qed simp

section \<open>Ending the daemon\<close>

text \<open>Without a termination signal the main thread never leaves its loop.\<close>

lemma no_signal_step:
  assumes "system_step J cap reg sigs errs y y'" and "SIGINT \<notin> sigs" "SIGTERM \<notin> sigs"
    and "sig_inv (sy_signals y) \<and> \<not> shutdownRequested (sy_signals y) \<and> \<not> past_loop (sy_main y)"
  shows "sig_inv (sy_signals y') \<and> \<not> shutdownRequested (sy_signals y') \<and> \<not> past_loop (sy_main y')"
  using assms(1)
proof (cases rule: system_step.cases)
  case (signal n h)
  moreover have "n \<noteq> SIGINT" "n \<noteq> SIGTERM" using signal assms(2,3) by auto
  ultimately show ?thesis
    using assms(4) deliver_shutdown [of cap "[n]" "sy_signals y" h] sig_inv_deliver [of cap "[n]" "sy_signals y" h]
    by simp
next
  case (main_check ph h)
  with assms(4) main_signal_inv [OF main_check(3)] show ?thesis by auto
qed (use assms(4) in \<open>auto simp: phase_simps\<close>)

lemma no_signal_steps:
  assumes "(system_step J cap reg sigs errs)\<^sup>*\<^sup>* y y'" and "SIGINT \<notin> sigs" "SIGTERM \<notin> sigs"
    and "sig_inv (sy_signals y) \<and> \<not> shutdownRequested (sy_signals y) \<and> \<not> past_loop (sy_main y)"
  shows "sig_inv (sy_signals y') \<and> \<not> shutdownRequested (sy_signals y') \<and> \<not> past_loop (sy_main y')"
  using assms by (induction rule: rtranclp_induct) (auto dest: no_signal_step)

text \<open>
  A server thread that is in its loop with the stop flag down stays there as long as
  \<open>epoll_wait\<close> does not fail, and the main thread with it in \<open>join\<close>.
\<close>

definition hung :: "'j system \<Rightarrow> bool" where
  "hung y \<longleftrightarrow> sy_main y = Join_thread \<and> sy_thread y \<noteq> Begin \<and> sy_thread y \<noteq> Returned \<and>
     \<not> stop_requested (sy_server y)"

lemma hung_step:
  assumes "system_step J cap reg sigs errs y y'" and "errs \<subseteq> {EINTR}" and "system_inv F y" and "hung y"
  shows "hung y'"
  using assms(1)
proof (cases rule: system_step.cases)
  case (thread_event ev evs m envs srv w)
  with assms(3,4) handle_event_owns [of "sy_server y" ev F J "daemon_handler J reg" "(envs, Done m)" srv w]
  show ?thesis by (auto simp: hung_def system_inv_def)
qed (use assms(2,4) in \<open>auto simp: hung_def\<close>)

lemma hung_steps:
  assumes "(system_step J cap reg sigs errs)\<^sup>*\<^sup>* y y'" and "errs \<subseteq> {EINTR}" and "system_inv F y" and "hung y"
  shows "hung y'"
proof -
  from assms(1) have "system_inv F y' \<and> hung y'"
    by (induction rule: rtranclp_induct)
      (use assms(2-4) system_step_inv hung_step in blast)+
  then show ?thesis ..
qed

text \<open>A signal that arrives before the server thread has entered \<open>run\<close> leads to such a state.\<close>

lemma early_signal_hangs:
  assumes "system_inv F (launched d)" and "n \<in> {SIGINT, SIGTERM}" "n \<in> sigs" and "pipe_bytes (dm_signals d) < cap"
  obtains y where "(system_step J cap reg sigs errs)\<^sup>*\<^sup>* (launched d) y" "hung y" "shutdownRequested (sy_signals y)"
proof -
  let ?step = "system_step J cap reg sigs errs" and ?y0 = "launched d"
  obtain h where h: "handleSignal cap n (dm_signals d) = Some h" "shutdownRequested h"
    using assms(2,4) by (auto simp: handleSignal_def writeSignalToPipe_def Let_def)
  define y1 y2 y3 where "y1 = ?y0\<lparr>sy_signals := h\<rparr>" and "y2 = y1\<lparr>sy_main := Stop_server\<rparr>"
    and "y3 = y2\<lparr>sy_server := stop (sy_server y2), sy_main := Join_thread\<rparr>"
  note defs = y1_def y2_def y3_def launched_def
  let ?y4 = "y3\<lparr>sy_server := (sy_server y3)\<lparr>running := True, stop_requested := False\<rparr>, sy_thread := Test_stop\<rparr>"
  have s1: "?step ?y0 y1" unfolding y1_def by (rule system_step.signal [OF assms(3)]) (simp add: launched_def h)
  have s2: "?step y1 y2" unfolding y2_def by (rule system_step.main_test) (simp_all add: y1_def launched_def h)
  have s3: "?step y2 y3" unfolding y3_def by (rule system_step.main_stop) (simp add: y2_def)
  have "system_inv F y3" using s1 s2 s3 assms(1) system_step_inv by blast
  then have "\<not> (sint (server_fd (sy_server y3)) < 0 \<or> sint (epoll_fd (sy_server y3)) < 0)"
    by (auto simp: system_inv_def owns_def Let_def y3_def)
  then have s4: "?step y3 ?y4" by (intro system_step.thread_begin) (simp_all add: defs)
  have "?step\<^sup>*\<^sup>* ?y0 ?y4" using s1 s2 s3 s4 by (meson rtranclp.rtrancl_into_rtrancl rtranclp.rtrancl_refl)
  then show thesis by (rule that) (simp_all add: hung_def defs h)
qed

text \<open>
  In the intended order the daemon comes to its end: the server thread is in its loop, the
  stop flag is up and \<open>epoll_wait\<close> is interrupted once more.
\<close>

lemma returned_completes:
  assumes "system_inv F y" and "sy_main y = Join_thread" "sy_thread y = Returned"
    and "sy_tasks y = Done m" "tm_tasks m = []"
  obtains y' where "(system_step J cap reg sigs errs)\<^sup>*\<^sup>* y y'" "sy_main y' = Finished"
proof -
  let ?step = "system_step J cap reg sigs errs" and ?m = "m\<lparr>shutdown_requested := True\<rparr>"
  let ?y1 = "y\<lparr>sy_main := Stop_tasks\<rparr>" and ?y2 = "y\<lparr>sy_tasks := Done ?m, sy_main := Leave\<rparr>"
  let ?y3 = "y\<lparr>sy_server := destroy_server (sy_server y), sy_tasks := Done ?m,
      sy_signals := destroy_signal_handler (sy_signals y), sy_main := Finished\<rparr>"
  have "tm_null m" "tm_null ?m" using assms(5) by (simp_all add: tm_null_def)
  then have r: "stop_all_tasks 0 [] m = Some (Done ([], ?m))" "destroy_task_manager 0 [] ?m = Some (Done ([], ?m))"
    using assms(5) by (simp_all add: stop_all_tasks_null destroy_task_manager_def)
  have "?step y ?y1" by (rule system_step.main_join [OF assms(2,3)])
  moreover have "?step ?y1 ?y2"
    using system_step.main_tasks [of ?y1 m 0 "[]", OF _ _ r(1), where J = J and cap = cap and reg = reg and sigs = sigs and errs = errs]
      assms(4) by simp
  moreover have "?step ?y2 ?y3"
    using system_step.main_exit [of ?y2 ?m 0 "[]", OF _ _ r(2), where J = J and cap = cap and reg = reg and sigs = sigs and errs = errs]
    by simp
  ultimately have "?step\<^sup>*\<^sup>* y ?y3" by (meson rtranclp.rtrancl_into_rtrancl rtranclp.rtrancl_refl)
  then show thesis by (rule that) simp
qed

lemma stopped_completes:
  assumes "system_inv F y" and "sy_main y = Join_thread" "sy_thread y \<in> {Test_stop, Waiting}"
    and "stop_requested (sy_server y)" and "sy_tasks y = Done m" "tm_tasks m = []" and "EINTR \<in> errs"
  obtains y' where "(system_step J cap reg sigs errs)\<^sup>*\<^sup>* y y'" "sy_main y' = Finished"
proof -
  let ?step = "system_step J cap reg sigs errs"
  let ?y1 = "y\<lparr>sy_thread := Test_stop\<rparr>"
  let ?y2 = "?y1\<lparr>sy_server := (sy_server ?y1)\<lparr>running := False\<rparr>, sy_thread := Returned\<rparr>"
  have "?step\<^sup>*\<^sup>* y ?y1"
  proof (cases "sy_thread y = Waiting")
    case True
    then show ?thesis using system_step.thread_interrupted assms(7) by blast
  next
    case False
    then have "?y1 = y" using assms(3) by simp
    then show ?thesis by simp
  qed
  moreover have "?step ?y1 ?y2" by (rule system_step.thread_stopped) (simp_all add: assms(4))
  ultimately have r: "?step\<^sup>*\<^sup>* y ?y2" by (rule rtranclp.rtrancl_into_rtrancl)
  have "system_inv F ?y2" by (rule system_steps_inv [OF r assms(1)])
  then obtain y' where "?step\<^sup>*\<^sup>* ?y2 y'" "sy_main y' = Finished"
    by (rule returned_completes [where m = m]) (use assms(2,5,6) in auto)
  with r show thesis by (meson that rtranclp_trans)
qed

text \<open>The intended order: the thread waits for events when the signal comes.\<close>

lemma late_signal_stops:
  assumes "system_inv F (launched d)" and "n \<in> {SIGINT, SIGTERM}" "n \<in> sigs" and "pipe_bytes (dm_signals d) < cap"
    and "\<not> shutdownRequested (dm_signals d)"
  obtains y where "(system_step J cap reg sigs errs)\<^sup>*\<^sup>* (launched d) y" "sy_main y = Join_thread" "sy_thread y = Waiting"
    "stop_requested (sy_server y)" "sy_tasks y = Done (dm_tasks d)"
proof -
  let ?step = "system_step J cap reg sigs errs" and ?y0 = "launched d"
  obtain h where h: "handleSignal cap n (dm_signals d) = Some h" "shutdownRequested h"
    using assms(2,4) by (auto simp: handleSignal_def writeSignalToPipe_def Let_def)
  define y1 y2 y3 y4 where
    "y1 = ?y0\<lparr>sy_server := (sy_server ?y0)\<lparr>running := True, stop_requested := False\<rparr>, sy_thread := Test_stop\<rparr>"
    and "y2 = y1\<lparr>sy_thread := Waiting\<rparr>" and "y3 = y2\<lparr>sy_signals := h\<rparr>" and "y4 = y3\<lparr>sy_main := Stop_server\<rparr>"
  note defs = y1_def y2_def y3_def y4_def launched_def
  let ?y5 = "y4\<lparr>sy_server := stop (sy_server y4), sy_main := Join_thread\<rparr>"
  have "\<not> (sint (server_fd (sy_server ?y0)) < 0 \<or> sint (epoll_fd (sy_server ?y0)) < 0)"
    using assms(1) by (auto simp: system_inv_def owns_def Let_def launched_def)
  then have s1: "?step ?y0 y1" unfolding y1_def by (intro system_step.thread_begin) (simp add: launched_def)
  have s2: "?step y1 y2" unfolding y2_def by (rule system_step.thread_wait) (simp_all add: y1_def)
  have s3: "?step y2 y3" unfolding y3_def by (rule system_step.signal [OF assms(3)]) (simp add: defs h)
  have s4: "?step y3 y4" unfolding y4_def by (rule system_step.main_test) (simp_all add: defs h)
  have s5: "?step y4 ?y5" by (rule system_step.main_stop) (simp add: y4_def)
  have r: "?step\<^sup>*\<^sup>* ?y0 y4" using s1 s2 s3 s4 by (meson rtranclp.rtrancl_into_rtrancl rtranclp.rtrancl_refl)
  have "server_inv (sy_server y4)"
    using system_steps_inv [OF r assms(1)] by (simp add: system_inv_def y4_def)
  then have "stop_requested (stop (sy_server y4))" by (rule stop_result(3))
  with rtranclp.rtrancl_into_rtrancl [OF r s5] show thesis by (intro that [of ?y5]) (simp_all add: defs)
qed

section \<open>The states of a started daemon\<close>

lemma launched_ready:
  assumes "\<And>path. setup_ok (se_setup env) (new_server (daemon_config path) (se_at_path env path) (se_open_fds env))"
    and "daemon_start env prog args = Running_daemon d"
  shows "system_inv (set (se_open_fds env)) (launched d) \<and> pipe_bytes (dm_signals d) = 0 \<and>
    \<not> shutdownRequested (dm_signals d) \<and> sig_inv (dm_signals d)"
  using assms(2)
proof (rule daemon_start_result)
  fix path
  assume s: "signal_initialize (se_pipe env) (se_nonblock env) (se_sigactions env) signal_instance = (True, dm_signals d)"
    and m: "new_task_manager (Some (se_task_types env)) (se_counters env) = Inr (dm_tasks d)"
    and srv: "server_initialize (se_setup env)
      (new_server (daemon_config path) (se_at_path env path) (se_open_fds env)) = (True, dm_server d)"
  have "server_inv (dm_server d)" by (rule server_inv_initialized [OF assms(1) srv])
  moreover have "owns (set (se_open_fds env)) (dm_server d)" by (rule initialized_owns [OF assms(1) srv])
  ultimately show ?thesis
    using signal_initialize_ready [OF s] new_task_manager_empty [OF m] by (simp add: system_inv_launched)
qed

end
