(* ===== verification/Cli_Client.thy ===== *)
theory Cli_Client
  imports Session "HOL-Library.Signed_Division"
begin

text \<open>
  The client library of the command line tool: \<open>DemoDaemonClient\<close> and its \<open>Impl\<close>
  (\<open>src/cli/client.cpp\<close>). As for the session, the answers of \<open>::send\<close> and \<open>::recv\<close>
  are scripts. The socket is a blocking one with a time-out: at the end of a script a call
  returns \<open>EAGAIN\<close> after that time, or never when the time-out is 0 (\<open>None\<close>).
  \<open>std::strerror\<close> and the measured time are inputs.
\<close>

section \<open>The client\<close>

record DemoDaemonClient =
  cl_socket_path :: string
  cl_timeout :: int
  cl_fd :: int32
  cl_request_id :: uint64
  cl_open_fds :: "int32 list"

definition new_client :: "string \<Rightarrow> int \<Rightarrow> int32 list \<Rightarrow> DemoDaemonClient" where
  "new_client path timeout open_now =
     \<lparr>cl_socket_path = path, cl_timeout = timeout, cl_fd = - 1, cl_request_id = 0, cl_open_fds = open_now\<rparr>"

definition client_close :: "int32 \<Rightarrow> DemoDaemonClient \<Rightarrow> DemoDaemonClient" where
  "client_close fd c = c\<lparr>cl_open_fds := removeAll fd (cl_open_fds c)\<rparr>"

definition disconnect :: "DemoDaemonClient \<Rightarrow> DemoDaemonClient" where
  "disconnect c = (if sint (cl_fd c) \<ge> 0 then (client_close (cl_fd c) c)\<lparr>cl_fd := - 1\<rparr> else c)"

definition isConnected :: "DemoDaemonClient \<Rightarrow> bool" where
  "isConnected c \<longleftrightarrow> sint (cl_fd c) \<ge> 0"

definition destroy_client :: "DemoDaemonClient \<Rightarrow> DemoDaemonClient" where
  "destroy_client c = (if sint (cl_fd c) \<ge> 0 then client_close (cl_fd c) c else c)"

text \<open>
  The move operations of \<open>pimpl_\<close>: the new object and what is left of \<open>other\<close> (\<^const>\<open>None\<close> is
  the null pointer). Assigning over an \<open>Impl\<close> runs its destructor; both objects see the
  descriptors of the process.
\<close>

definition move_client :: "DemoDaemonClient option \<Rightarrow> DemoDaemonClient option \<times> DemoDaemonClient option" where
  "move_client other = (other, None)"

definition assign_client :: "bool \<Rightarrow> DemoDaemonClient option \<Rightarrow> DemoDaemonClient option \<Rightarrow>
    DemoDaemonClient option \<times> DemoDaemonClient option" where
  "assign_client differ this other =
     (if \<not> differ then (this, other)
      else
        (case this of
           None \<Rightarrow> (other, None)
         | Some c \<Rightarrow>
             (map_option (\<lambda>d. d\<lparr>cl_open_fds := cl_open_fds (destroy_client (c\<lparr>cl_open_fds := cl_open_fds d\<rparr>))\<rparr>) other,
              None)))"

lemma assign_client_fds:
  assumes "cl_fd c \<noteq> cl_fd d" and "cl_fd d \<in> set (cl_open_fds d)"
  shows "\<exists>d'. assign_client True (Some c) (Some d) = (Some d', None) \<and> cl_fd d' = cl_fd d \<and>
    cl_fd d' \<in> set (cl_open_fds d') \<and> (isConnected c \<longrightarrow> cl_fd c \<notin> set (cl_open_fds d'))"
  using assms by (simp add: assign_client_def destroy_client_def client_close_def isConnected_def)

section \<open>Connecting\<close>

text \<open>
  What the system calls of a connection attempt answer: the new descriptor, the two
  \<open>setsockopt\<close> calls for a \<open>timeval\<close>, and \<open>connect\<close> for an address.
\<close>

record connect_env =
  ce_socket :: "int32 option"
  ce_rcvtimeo :: "int \<times> int \<Rightarrow> bool"
  ce_sndtimeo :: "int \<times> int \<Rightarrow> bool"
  ce_connect :: "string \<Rightarrow> bool"

text \<open>\<open>duration_cast\<close> rounds towards zero.\<close>

definition timeval_of :: "int \<Rightarrow> int \<times> int" where
  "timeval_of timeout =
     (let sec = timeout sdiv 1000; usec = (timeout - sec * 1000) * 1000 in (sec, usec))"

definition setupSocket :: "connect_env \<Rightarrow> DemoDaemonClient \<Rightarrow> bool \<times> DemoDaemonClient" where
  "setupSocket env c =
     (case ce_socket env of
        None \<Rightarrow> (False, c\<lparr>cl_fd := - 1\<rparr>)
      | Some fd \<Rightarrow>
          let c1 = c\<lparr>cl_fd := fd, cl_open_fds := fd # cl_open_fds c\<rparr>;
              tv = timeval_of (cl_timeout c)
          in if \<not> ce_rcvtimeo env tv \<or> \<not> ce_sndtimeo env tv
             then (False, (client_close fd c1)\<lparr>cl_fd := - 1\<rparr>)
             else (True, c1))"

text \<open>
  \<open>strncpy\<close> copies the C string, at most \<open>sizeof(sun_path) - 1 = 107\<close> characters, into
  the zeroed array.
\<close>

definition sun_path :: "string \<Rightarrow> string" where
  "sun_path path = take 107 (takeWhile (\<lambda>ch. ch \<noteq> CHR 0x00) path)"

definition doConnect :: "connect_env \<Rightarrow> DemoDaemonClient \<Rightarrow> bool \<times> DemoDaemonClient" where
  "doConnect env c =
     (case setupSocket env c of
        (False, c1) \<Rightarrow> (False, c1)
      | (True, c1) \<Rightarrow>
          if \<not> ce_connect env (sun_path (cl_socket_path c1))
          then (False, (client_close (cl_fd c1) c1)\<lparr>cl_fd := - 1\<rparr>)
          else (True, c1))"

definition client_connect :: "connect_env \<Rightarrow> DemoDaemonClient \<Rightarrow> bool \<times> DemoDaemonClient" where
  "client_connect env c = doConnect env c"

section \<open>Sending and receiving\<close>

text \<open>
  The send loop with the bytes it hands to the kernel, from \<open>total_sent\<close> on.
\<close>

fun send_loop :: "(errno \<Rightarrow> string) \<Rightarrow> bool \<Rightarrow> string \<Rightarrow> nat \<Rightarrow> write_result list \<Rightarrow> unit res option \<times> string"
where
  "send_loop strerror forever json_str total_sent [] =
     (if total_sent < length json_str then
        (if forever then None else Some (Inl (Runtime_error (''Failed to send: '' @ strerror EAGAIN))), [])
      else (Some (Inr ()), []))"
| "send_loop strerror forever json_str total_sent (r # out) =
     (if total_sent < length json_str then
        (case r of
           WErr e \<Rightarrow>
             if e = EINTR then send_loop strerror forever json_str total_sent out
             else (Some (Inl (Runtime_error (''Failed to send: '' @ strerror e))), [])
         | WOk k \<Rightarrow>
             let sent = min k (length json_str - total_sent) in
             if sent = 0 then (Some (Inl (Runtime_error ''Connection closed during send'')), [])
             else
               (case send_loop strerror forever json_str (total_sent + sent) out of
                  (res, bs) \<Rightarrow> (res, slice total_sent sent json_str @ bs)))
      else (Some (Inr ()), []))"

text \<open>The receive loop reads up to 4095 bytes at a time, until the text ends in a newline.\<close>

function recv_loop :: "(errno \<Rightarrow> string) \<Rightarrow> bool \<Rightarrow> string \<Rightarrow> read_result list \<Rightarrow> string res option" where
  "recv_loop strerror forever response inp =
     (if inp = [] \<and> forever then None
      else
        case sys_read 4095 inp of
          (Inl e, inp') \<Rightarrow>
            if e = EINTR then recv_loop strerror forever response inp'
            else if e = EAGAIN then Some (Inl (Runtime_error ''Response timeout''))
            else Some (Inl (Runtime_error (''Failed to receive: '' @ strerror e)))
        | (Inr bs, inp') \<Rightarrow>
            if bs = [] then
              (if response = [] then Some (Inl (Runtime_error ''Connection closed unexpectedly''))
               else Some (Inr response))
            else
              let response' = response @ bs in
              if response' \<noteq> [] \<and> last response' = newline then Some (Inr response')
              else recv_loop strerror forever response' inp')"
  by pat_completeness auto

definition sendMessage :: "'j json_api \<Rightarrow> (errno \<Rightarrow> string) \<Rightarrow> 'j \<Rightarrow> write_result list \<Rightarrow> read_result list \<Rightarrow>
    DemoDaemonClient \<Rightarrow> string res option \<times> string" where
  "sendMessage J strerror message out inp c =
     (case j_dump J message of
        Inl e \<Rightarrow> (Some (Inl e), [])
      | Inr text \<Rightarrow>
          (case send_loop strerror (cl_timeout c = 0) (text @ [newline]) 0 out of
             (None, sent) \<Rightarrow> (None, sent)
           | (Some (Inl e), sent) \<Rightarrow> (Some (Inl e), sent)
           | (Some (Inr _), sent) \<Rightarrow>
               (case recv_loop strerror (cl_timeout c = 0) [] inp of
                  None \<Rightarrow> (None, sent)
                | Some (Inl e) \<Rightarrow> (Some (Inl e), sent)
                | Some (Inr response) \<Rightarrow>
                    (Some (Inr (if response \<noteq> [] \<and> last response = newline then butlast response
                                else response)), sent))))"

section \<open>Requests\<close>

record 'j CommandResponse =
  resp_success :: bool
  resp_error_code :: "int32 option"
  resp_message :: string
  resp_data :: 'j
  resp_time :: int

definition decode_response :: "'j json_api \<Rightarrow> int \<Rightarrow> string \<Rightarrow> 'j CommandResponse res" where
  "decode_response J duration response_str =
     res_bind (j_parse J response_str) (\<lambda>response.
       if j_contains J response ''error'' then
         (let err = j_at J response ''error'' in
          res_bind (j_value_int J err ''code'' (- 1)) (\<lambda>code.
          res_bind (j_value_string J err ''message'' ''Unknown error'') (\<lambda>message.
          res_bind (j_value_json J err ''data'' (j_object J [])) (\<lambda>data.
            Inr \<lparr>resp_success = False, resp_error_code = Some code, resp_message = message,
                 resp_data = data, resp_time = duration\<rparr>))))
       else if j_contains J response ''result'' then
         Inr \<lparr>resp_success = True, resp_error_code = None, resp_message = ''OK'',
              resp_data = j_at J response ''result'', resp_time = duration\<rparr>
       else
         Inr \<lparr>resp_success = False, resp_error_code = Some (- 32600),
              resp_message = ''Invalid response format'', resp_data = j_object J [],
              resp_time = duration\<rparr>)"

definition communication_error :: "'j json_api \<Rightarrow> int \<Rightarrow> exn \<Rightarrow> 'j CommandResponse" where
  "communication_error J duration e =
     \<lparr>resp_success = False, resp_error_code = Some (- 1),
      resp_message = ''Communication error: '' @ what e, resp_data = j_object J [],
      resp_time = duration\<rparr>"

definition client_request :: "'j json_api \<Rightarrow> uint64 \<Rightarrow> string \<Rightarrow> 'j \<Rightarrow> 'j" where
  "client_request J i method params =
     j_object J [(''id'', j_int J (uint i)), (''method'', j_string J method), (''params'', params)]"

definition sendRequest :: "'j json_api \<Rightarrow> (errno \<Rightarrow> string) \<Rightarrow> string \<Rightarrow> 'j \<Rightarrow> int \<Rightarrow> write_result list \<Rightarrow>
    read_result list \<Rightarrow> DemoDaemonClient \<Rightarrow> 'j CommandResponse option \<times> DemoDaemonClient \<times> string" where
  "sendRequest J strerror method params duration out inp c =
     (let c1 = c\<lparr>cl_request_id := cl_request_id c + 1\<rparr> in
      case sendMessage J strerror (client_request J (cl_request_id c1) method params) out inp c1 of
        (None, sent) \<Rightarrow> (None, c1, sent)
      | (Some r, sent) \<Rightarrow>
          (Some (case res_bind r (decode_response J duration) of
                   Inr result \<Rightarrow> result
                 | Inl e \<Rightarrow> communication_error J duration e),
           c1, sent))"

section \<open>The receive loop ends\<close>

lemma sys_read_shrinks:
  assumes "sys_read n inp = (Inr bs, inp')" and "bs \<noteq> []"
  shows "length inp' + pending inp' < length inp + pending inp"
  using assms
  by (cases "(n, inp)" rule: sys_read.cases) (auto simp: pending_def split: if_splits)

lemma sys_read_EINTR: "sys_read n inp = (Inl EINTR, inp') \<Longrightarrow> inp = RErr EINTR # inp'"
  by (cases "(n, inp)" rule: sys_read.cases) (auto split: if_splits)

termination recv_loop
proof (relation "measure (\<lambda>(se, f, r, inp). length inp + pending inp)", goal_cases)
  case (2 se f r inp x inp' e)
  then have "sys_read 4095 inp = (Inl EINTR, inp')" by simp
  from sys_read_EINTR [OF this] show ?case by (simp add: pending_def)
next
  case (3 se f r inp x inp' bs r')
  then show ?case using sys_read_shrinks [of 4095 inp bs inp'] by simp
qed simp

declare recv_loop.simps [simp del]

section \<open>Descriptors\<close>

lemma timeval_of_nonneg:
  assumes "0 \<le> timeout"
  shows "fst (timeval_of timeout) * 1000000 + snd (timeval_of timeout) = timeout * 1000"
    and "0 \<le> snd (timeval_of timeout)" and "snd (timeval_of timeout) < 1000000"
proof -
  have "timeout sdiv 1000 = timeout div 1000"
    using assms by (simp add: signed_divide_int_def sgn_if)
  then show "fst (timeval_of timeout) * 1000000 + snd (timeval_of timeout) = timeout * 1000"
    and "0 \<le> snd (timeval_of timeout)" and "snd (timeval_of timeout) < 1000000"
    using assms by (simp_all add: timeval_of_def Let_def)
qed

text \<open>A failed attempt closes what it opened; a successful one owns one new descriptor.\<close>

lemma client_connect_cases:
  assumes "\<And>fd. ce_socket env = Some fd \<Longrightarrow> fd \<notin> set (cl_open_fds c)"
  shows "client_connect env c =
    (case ce_socket env of
       None \<Rightarrow> (False, c\<lparr>cl_fd := - 1\<rparr>)
     | Some fd \<Rightarrow>
         let tv = timeval_of (cl_timeout c) in
         if ce_rcvtimeo env tv \<and> ce_sndtimeo env tv \<and> ce_connect env (sun_path (cl_socket_path c))
         then (True, c\<lparr>cl_fd := fd, cl_open_fds := fd # cl_open_fds c\<rparr>)
         else (False, c\<lparr>cl_fd := - 1\<rparr>))"
  using assms
  by (auto simp: client_connect_def doConnect_def setupSocket_def client_close_def Let_def
      removeAll_id split: option.splits)

lemma sun_path_id: "sun_path path = path \<longleftrightarrow> length path \<le> 107 \<and> CHR 0x00 \<notin> set path"
proof
  assume eq: "sun_path path = path"
  have "length (sun_path path) \<le> 107" by (simp add: sun_path_def)
  moreover have "set (sun_path path) \<subseteq> set (takeWhile (\<lambda>ch. ch \<noteq> CHR 0x00) path)"
    by (simp add: sun_path_def set_take_subset)
  ultimately show "length path \<le> 107 \<and> CHR 0x00 \<notin> set path"
    using eq by (auto dest: set_takeWhileD)
next
  assume path: "length path \<le> 107 \<and> CHR 0x00 \<notin> set path"
  then have c_str: "takeWhile (\<lambda>ch. ch \<noteq> CHR 0x00) path = path"
    by (intro takeWhile_eq_all_conv [THEN iffD2]) auto
  show "sun_path path = path" using path unfolding sun_path_def c_str by simp
qed

section \<open>The bytes on the wire\<close>

lemma slice_append: "slice p m xs @ slice (p + m) n xs = slice p (m + n) xs"
  by (simp add: slice_def take_add add.commute)

lemma send_loop_sent:
  assumes "send_loop se f json tot out = (r, bs)" and "tot \<le> length json"
  shows "\<exists>k. bs = slice tot k json \<and> tot + k \<le> length json \<and>
    (r = Some (Inr ()) \<longleftrightarrow> tot + k = length json)"
  using assms
proof (induction se f json tot out arbitrary: bs rule: send_loop.induct)
  case (1 se f json tot)
  then show ?case by (intro exI [of _ 0]) (auto simp: slice_def split: if_splits)
next
  case (2 se f json tot w out)
  show ?case
  proof (cases "\<exists>n. w = WOk n \<and> 0 < n \<and> tot < length json")
    case True
    then obtain n where w: "w = WOk n" "0 < n" "tot < length json" by blast
    define m where "m = min n (length json - tot)"
    have m: "0 < m" "tot + m \<le> length json" using w by (auto simp: m_def)
    obtain bs' where bs': "send_loop se f json (tot + m) out = (r, bs')"
        "bs = slice tot m json @ bs'"
      using "2.prems"(1) w m by (auto simp: Let_def m_def [symmetric] split: prod.splits)
    have "m \<noteq> 0" using m by simp
    from "2.IH"(1) [OF w(3,1) m_def this bs'(1) m(2)] obtain k where "bs' = slice (tot + m) k json" "tot + m + k \<le> length json"
        "r = Some (Inr ()) \<longleftrightarrow> tot + m + k = length json"
      by blast
    with bs'(2) show ?thesis by (auto simp: slice_append intro!: exI [of _ "m + k"])
  next
    case False
    show ?thesis
    proof (cases "w = WErr EINTR \<and> tot < length json")
      case True
      with 2 show ?thesis by simp
    next
      case no: False
      have "bs = [] \<and> (r = Some (Inr ()) \<longleftrightarrow> tot = length json)"
        using False no "2.prems"
        by (cases w) (auto simp: Let_def split: if_splits)
      with "2.prems"(2) show ?thesis by (intro exI [of _ 0]) (simp add: slice_def)
    qed
  qed
qed

text \<open>Reading a line that arrives in any pieces; a second newline may come with it.\<close>

lemma prefix_past:
  assumes "xs @ ys = line @ c # rest" and "c \<notin> set line" and "c \<in> set xs"
  shows "\<exists>k \<le> length rest. xs = line @ c # take k rest"
proof -
  from assms obtain us where us: "xs = line @ us" "us @ ys = c # rest"
    by (auto simp: append_eq_append_conv2)
  with assms(2,3) obtain vs where "us = c # vs" "vs @ ys = rest" by (cases us) auto
  with us(1) show ?thesis by (intro exI [of _ "length vs"]) auto
qed

lemma recv_loop_line:
  assumes "\<forall>d \<in> set cs. d \<noteq> []" and "response @ concat cs = line @ newline # extra"
    and "newline \<notin> set line" and "newline \<notin> set response" and "set extra \<subseteq> {newline}"
  shows "\<exists>k \<le> length extra. recv_loop se f response (map RData cs) = Some (Inr (line @ replicate (Suc k) newline))"
  using assms
proof (induction "length (concat cs)" arbitrary: cs response rule: less_induct)
  case less
  have "concat cs \<noteq> []"
    using less.prems(2,4) by (metis append.right_neutral in_set_conv_decomp)
  then have "cs \<noteq> []" by auto
  then obtain bs cs' where r: "sys_read 4095 (map RData cs) = (Inr bs, map RData cs')" "bs \<noteq> []"
      "bs @ concat cs' = concat cs" "\<forall>d \<in> set cs'. d \<noteq> []"
    using sys_read_data [OF less.prems(1)] by (metis zero_less_numeral)
  let ?r = "response @ bs"
  have split: "?r @ concat cs' = line @ newline # extra" using less.prems(2) r(3) by simp
  have step: "recv_loop se f response (map RData cs) =
      (if last ?r = newline then Some (Inr ?r) else recv_loop se f ?r (map RData cs'))"
    using r \<open>cs \<noteq> []\<close> by (subst recv_loop.simps) simp
  show ?case
  proof (cases "newline \<in> set ?r")
    case True
    then obtain k where k: "?r = line @ newline # take k extra" "k \<le> length extra"
      using prefix_past [OF split less.prems(3)] by blast
    have "take k extra = replicate k newline"
      using k(2) less.prems(5) by (intro replicate_eqI) (auto dest: in_set_takeD)
    then have "?r = line @ replicate (Suc k) newline" using k(1) by simp
    moreover from this have "last ?r = newline" by (simp add: replicate_append_same [symmetric])
    ultimately show ?thesis using step k(2) by auto
  next
    case False
    moreover from this have "last ?r \<noteq> newline" using r(2) by (metis append_is_Nil_conv last_in_set)
    moreover have "length (concat cs') < length (concat cs)" using r(2,3) by (metis length_append
          length_greater_0_conv less_add_same_cancel2)
    ultimately show ?thesis using less.hyps [of cs' ?r] r(4) split less.prems(3,5) step by simp
  qed
qed

section \<open>The client and the protocol of the server\<close>

context json_build
begin

text \<open>The server reads the client's request object as the message it stands for.\<close>

lemma client_request_message:
  "JsonMessage_from_json J (client_request J i method params) =
     Inr (Some \<lparr>jm_id = Some i, jm_method = Some method, jm_params = Some params,
       jm_result = None, jm_error = None\<rparr>)"
proof -
  have at: "j_at J (client_request J i method params) ''id'' = j_int J (uint i)"
      "j_at J (client_request J i method params) ''method'' = j_string J method"
      "j_at J (client_request J i method params) ''params'' = params"
    unfolding client_request_def by (rule at_object_map_of; simp)+
  have "- (2 ^ 63) \<le> uint i" "uint i < 2 ^ 64"
    using uint_lt2p [of i] order_trans [OF _ uint_ge_0 [of i], of "- (2 ^ 63)"] by simp_all
  then have "j_get_int64 J (j_int J (uint i)) = Inr i"
    by (subst get_int64_int) simp_all
  with at show ?thesis
    by (simp add: JsonMessage_from_json_def id_field_def method_field_def error_field_def get_opt_def
        client_request_def build_simps)
qed

text \<open>A message with a result, or with an error object, as the client decodes it.\<close>

lemma decode_result:
  assumes "j_parse J s = Inr (JsonMessage_to_json J m)" and "jm_result m = Some v" and "jm_error m = None"
  shows "decode_response J duration s =
    Inr \<lparr>resp_success = True, resp_error_code = None, resp_message = ''OK'', resp_data = v,
         resp_time = duration\<rparr>"
  using assms JsonMessage_members(4,5) [of m]
  by (simp add: decode_response_def get_opt_contains get_opt_at)

lemma decode_error:
  assumes "j_parse J s = Inr (JsonMessage_to_json J m)" and "jm_error m = Some e"
  shows "decode_response J duration s =
    Inr \<lparr>resp_success = False, resp_error_code = Some (pe_code e), resp_message = pe_message e,
         resp_data = (case pe_data e of None \<Rightarrow> j_object J [] | Some d \<Rightarrow> d), resp_time = duration\<rparr>"
proof -
  have "get_opt J ''error'' (JsonMessage_to_json J m) = Some (ProtocolError_to_json J e)"
    using JsonMessage_members(5) [of m] assms(2) by simp
  then show ?thesis
    using assms(1) ProtocolError_members [of e]
    by (cases "pe_data e") (simp_all add: decode_response_def get_opt_contains get_opt_at value_int
        value_string value_json get_int_sint get_string_string)
qed

end

context nlohmann_json
begin

text \<open>What the client sends is a prefix of one line, and the line is one request.\<close>

lemma client_line:
  assumes "utf8 method" and "dumpable params"
  obtains l where "j_dump J (client_request J i method params) = Inr l" "newline \<notin> set l"
    "line_result J l = Some \<lparr>jm_id = Some i, jm_method = Some method, jm_params = Some params,
       jm_result = None, jm_error = None\<rparr>"
proof -
  let ?j = "client_request J i method params"
  have "dumpable ?j"
    unfolding client_request_def
    by (rule dumpable_object) (auto simp: assms dumpable_int dumpable_string intro!: utf8_ascii)
  then obtain l where l: "j_dump J ?j = Inr l" "j_parse J l = Inr ?j" "newline \<notin> set l"
      "l \<noteq> []" "hd l \<notin> set blanks" "last l \<notin> set blanks"
    using dump_cases by blast
  then have "\<not> set l \<subseteq> set blanks" by (meson hd_in_set subsetD)
  with l show thesis
    by (intro that [of l]) (simp_all add: line_result_def trim_id client_request_message)
qed

lemma sendRequest_sent:
  assumes "sendRequest J se method params duration out inp c = (r, c', sent)"
    and "j_dump J (client_request J (cl_request_id c + 1) method params) = Inr l"
  obtains k where "sent = take k (l @ [newline])" "k \<le> Suc (length l)"
    "fst (send_loop se (cl_timeout c = 0) (l @ [newline]) 0 out) = Some (Inr ()) \<longleftrightarrow> k = Suc (length l)"
proof -
  obtain w bs where w: "send_loop se (cl_timeout c = 0) (l @ [newline]) 0 out = (w, bs)" by fastforce
  have "sent = bs"
    using assms w
    by (auto simp: sendRequest_def sendMessage_def Let_def split: option.splits sum.splits)
  with send_loop_sent [OF w] obtain k where "sent = take k (l @ [newline])" "k \<le> Suc (length l)"
      "w = Some (Inr ()) \<longleftrightarrow> k = Suc (length l)"
    by (auto simp: slice_def simp del: take_append)
  with w show thesis by (intro that [of k]) simp_all
qed

text \<open>The server's parser on what the client has sent so far.\<close>

lemma client_request_drained:
  assumes "utf8 method" and "dumpable params"
    and "sendRequest J strerror method params duration out inp c = (r, c', sent)"
    and "length sent < max_message_size p"
  shows "cl_request_id c' = cl_request_id c + 1 \<and>
    drain (try_parse J p) sent =
      (if newline \<in> set sent
       then ([\<lparr>jm_id = Some (cl_request_id c'), jm_method = Some method, jm_params = Some params,
               jm_result = None, jm_error = None\<rparr>], [])
       else ([], sent))"
proof -
  let ?i = "cl_request_id c + 1"
  have i: "cl_request_id c' = ?i"
    using assms(3) by (auto simp: sendRequest_def Let_def split: prod.splits option.splits)
  obtain l where l: "j_dump J (client_request J ?i method params) = Inr l" "newline \<notin> set l"
      "line_result J l = Some \<lparr>jm_id = Some ?i, jm_method = Some method, jm_params = Some params,
         jm_result = None, jm_error = None\<rparr>"
    using client_line [OF assms(1,2)] by blast
  obtain k where k: "sent = take k (l @ [newline])" "k \<le> Suc (length l)"
    using sendRequest_sent [OF assms(3) l(1)] by blast
  have none: "drain (try_parse J p) d = ([], d)" if "newline \<notin> set d" "length d < max_message_size p" for d
    using try_parse_no_newline [OF that(1), of J p] that(2) jp.drain_None [of J p d] by auto
  show ?thesis
  proof (cases "k = Suc (length l)")
    case True
    then have sent: "sent = l @ [newline]" using k by simp
    with assms(4) l have "try_parse J p sent = (line_result J l, length sent)"
      using try_parse_line [of l p J "[]"] by simp
    with l(3) have "drain (try_parse J p) sent =
        ([\<lparr>jm_id = Some ?i, jm_method = Some method, jm_params = Some params,
           jm_result = None, jm_error = None\<rparr>], [])"
      using jp.drain_Some [of J p sent _ "length sent"] none [of "[]"] assms(4) by simp
    then show ?thesis using sent i by simp
  next
    case False
    then have "sent = take k l" using k by simp
    then have "newline \<notin> set sent" using l(2) by (auto dest: in_set_takeD)
    then show ?thesis using none assms(4) i by simp
  qed
qed

text \<open>The answer: one line, a second newline behind it, in any pieces.\<close>

lemma sendRequest_answer:
  assumes "utf8 method" and "dumpable params"
    and "sendRequest J se method params duration out (map RData cs) c = (r, c', sent)"
    and "newline \<in> set sent"
    and "serialize J m = Inr s" and "dumpable (JsonMessage_to_json J m)"
    and "\<forall>d \<in> set cs. d \<noteq> []" and "concat cs = s @ extra" and "set extra \<subseteq> {newline}" and "length extra \<le> 1"
  shows "\<exists>str. j_parse J str = Inr (JsonMessage_to_json J m) \<and>
    r = Some (case decode_response J duration str of
      Inr result \<Rightarrow> result | Inl e \<Rightarrow> communication_error J duration e)"
proof -
  obtain l where l: "j_dump J (client_request J (cl_request_id c + 1) method params) = Inr l"
      "newline \<notin> set l"
    using client_line [OF assms(1,2)] by blast
  obtain k where "sent = take k (l @ [newline])" "k \<le> Suc (length l)"
      "fst (send_loop se (cl_timeout c = 0) (l @ [newline]) 0 out) = Some (Inr ()) \<longleftrightarrow> k = Suc (length l)"
    using sendRequest_sent [OF assms(3) l(1)] by blast
  moreover have "k \<noteq> Suc (length l) \<Longrightarrow> k \<le> Suc (length l) \<Longrightarrow> newline \<notin> set (take k (l @ [newline]))"
    using l(2) by (auto dest: in_set_takeD)
  ultimately have sent: "fst (send_loop se (cl_timeout c = 0) (l @ [newline]) 0 out) = Some (Inr ())"
    using assms(4) by blast
  obtain t where t: "s = t @ [newline]" "j_dump J (JsonMessage_to_json J m) = Inr t" "newline \<notin> set t"
    using serialize_line [OF assms(5)] by blast
  obtain i where i: "i \<le> length extra"
      "recv_loop se (cl_timeout c = 0) [] (map RData cs) = Some (Inr (t @ replicate (Suc i) newline))"
    using recv_loop_line [of cs "[]" t extra se "cl_timeout c = 0"] assms(7-9) t by auto
  let ?str = "t @ replicate i newline"
  have "i = 0 \<or> i = 1" using i(1) assms(10) by linarith
  then have "j_parse J ?str = Inr (JsonMessage_to_json J m)"
    using dump_parse [OF assms(6) t(2)] dump_parse_line [OF assms(6) t(2)] by auto
  moreover have "butlast (t @ replicate (Suc i) newline) = ?str"
    by (simp add: butlast_append butlast_conv_take flip: replicate_Suc)
  moreover have "last (t @ replicate (Suc i) newline) = newline"
    by (simp add: replicate_append_same [symmetric])
  ultimately show ?thesis
    using assms(3) l(1) sent i(2)
    by (intro exI [of _ ?str])
      (auto simp: sendRequest_def sendMessage_def Let_def split: prod.splits option.splits sum.splits)
qed

text \<open>What a session queues on an empty buffer, as the client decodes it.\<close>

lemma dumpable_set_opt:
  assumes "settable J j" and "dumpable j" and "utf8 k" and "\<And>v. x = Some v \<Longrightarrow> dumpable v"
  shows "dumpable (set_opt J k x j)"
  using assms by (cases x) (auto simp: set_opt_def settable_def intro: dumpable_set)

lemma dumpable_message:
  assumes "\<And>s. jm_method m = Some s \<Longrightarrow> utf8 s" and "\<And>v. jm_params m = Some v \<Longrightarrow> dumpable v"
    and "\<And>v. jm_result m = Some v \<Longrightarrow> dumpable v"
    and "\<And>e. jm_error m = Some e \<Longrightarrow> dumpable (ProtocolError_to_json J e)"
  shows "dumpable (JsonMessage_to_json J m)"
  unfolding JsonMessage_to_json_def
  by (intro dumpable_set_opt settable_simps dumpable_null utf8_ascii)
    (auto simp: assms dumpable_int dumpable_string)

lemma dumpable_ProtocolError:
  assumes "utf8 (pe_message e)" and "\<And>d. pe_data e = Some d \<Longrightarrow> dumpable d"
  shows "dumpable (ProtocolError_to_json J e)"
proof -
  have "utf8 ''code''" "utf8 ''message''" "utf8 ''data''" by (auto intro!: utf8_ascii)
  then show ?thesis
    unfolding ProtocolError_to_json_def
    by (intro dumpable_set_opt settable_simps dumpable_object)
      (auto simp: assms dumpable_int dumpable_string)
qed

lemma client_reads_queued:
  assumes "utf8 method" and "dumpable params"
    and "buf_ok (write_buffer s)" and "get_read_view (write_buffer s) = []"
    and "schedule_message J m s = Inr s'" and "dumpable (JsonMessage_to_json J m)"
    and "\<forall>d \<in> set cs. d \<noteq> []" and "concat cs = get_read_view (write_buffer s')"
    and "sendRequest J se method params duration out (map RData cs) c = (r, c', sent)"
    and "newline \<in> set sent"
  obtains str where "j_parse J str = Inr (JsonMessage_to_json J m)"
    "r = Some (case decode_response J duration str of
      Inr result \<Rightarrow> result | Inl e \<Rightarrow> communication_error J duration e)"
proof -
  obtain t where t: "serialize J m = Inr t" "s' = s\<lparr>write_buffer := queue_text t (write_buffer s)\<rparr>"
    using schedule_message_ok [OF assms(5)] by blast
  have "concat cs = t @ [newline]"
    using assms(4,8) t(2) queue_text_ok(1) [OF assms(3), of t] by simp
  from sendRequest_answer [OF assms(1,2,9,10) t(1) assms(6,7) this] that show thesis by auto
qed

end

section \<open>The client always comes back\<close>

lemma send_loop_returns: "fst (send_loop se False json n out) \<noteq> None"
proof (induction out arbitrary: n)
  case (Cons w out)
  then have "\<exists>x. fst (send_loop se False json k out) = Some x" for k by simp
  then show ?case
    by (cases w) (auto simp: Let_def case_prod_beta)
qed simp

lemma recv_loop_returns: "recv_loop se False response inp \<noteq> None"
proof (induction se f \<equiv> False response inp rule: recv_loop.induct)
  case (1 se response inp)
  then show ?case
    by (subst recv_loop.simps) (auto simp: Let_def split: prod.splits sum.splits)
qed

lemma recv_loop_no_data:
  assumes "\<forall>r \<in> set inp. \<forall>bs. r \<noteq> RData bs"
  shows "recv_loop se f [] inp = None \<or> (\<exists>e. recv_loop se f [] inp = Some (Inl e))"
  using assms
proof (induction inp)
  case Nil
  show ?case by (subst (1 2) recv_loop.simps) auto
next
  case (Cons r inp)
  then show ?case
    by (cases r) (subst (1 2) recv_loop.simps; auto)+
qed

lemma sendRequest_returns:
  assumes "cl_timeout c \<noteq> 0"
  shows "\<exists>resp. fst (sendRequest J se method params duration out inp c) = Some resp"
proof -
  have s: "send_loop se (cl_timeout c = 0) json 0 out \<noteq> (None, bs)" for json bs
    using send_loop_returns [of se json 0 out] assms by auto
  have r: "recv_loop se (cl_timeout c = 0) [] inp \<noteq> None"
    using recv_loop_returns assms by simp
  have "fst (sendMessage J se message out inp c') \<noteq> None" if "cl_timeout c' = cl_timeout c" for message c'
    using s r that by (auto simp: sendMessage_def split: prod.splits option.splits sum.splits)
  from this [of "c\<lparr>cl_request_id := cl_request_id c + 1\<rparr>"
      "client_request J (cl_request_id c + 1) method params"]
  show ?thesis
    by (auto simp: sendRequest_def Let_def split: prod.splits option.splits)
qed

lemma sendRequest_no_data:
  assumes "\<forall>r \<in> set inp. \<forall>bs. r \<noteq> RData bs"
    and "sendRequest J se method params duration out inp c = (Some resp, c', sent)"
  shows "\<exists>e. resp = communication_error J duration e"
  using recv_loop_no_data [OF assms(1), of se "cl_timeout c = 0"] assms(2)
  by (auto simp: sendRequest_def sendMessage_def Let_def split: prod.splits option.splits sum.splits)

end
