(* ===== verification/Cli_Main.thy ===== *)
theory Cli_Main
  imports Cli_Client Task_Manager
begin

text \<open>
  The command line tool (\<open>src/cli/main.cpp\<close>): options, the translation of a command into a
  request, and the presentation of the answer. \<open>getopt_long\<close> is a parameter: it gives, for
  an argument vector, the option characters it returns one after the other with their
  arguments, and the arguments that remain from \<open>optind\<close> on. The environment is a
  parameter too.
\<close>

section \<open>Numbers\<close>

text \<open>
  \<open>std::stoi\<close> and \<open>std::atoi\<close> read white space, a sign and decimal digits and ignore what
  follows. \<open>stoi\<close> throws when there is no digit or the number is no \<open>int\<close>; \<open>atoi\<close> cuts
  the \<open>long\<close> that \<open>strtol\<close> returns.
\<close>

definition c_spaces :: "char list" where
  "c_spaces = [CHR '' '', CHR 0x09, CHR 0x0A, CHR 0x0B, CHR 0x0C, CHR 0x0D]"

definition read_decimal :: "string \<Rightarrow> int option" where
  "read_decimal s =
     (let t = dropWhile (\<lambda>c. c \<in> set c_spaces) s;
          neg = (t \<noteq> [] \<and> hd t = CHR ''-'');
          u = (if t \<noteq> [] \<and> (hd t = CHR ''-'' \<or> hd t = CHR ''+'') then tl t else t);
          ds = takeWhile is_digit u
      in if ds = [] then None
         else Some (if neg then - int (digits_val ds) else int (digits_val ds)))"

definition stoi :: "string \<Rightarrow> int32 res" where
  "stoi s =
     (case read_decimal s of
        None \<Rightarrow> Inl (Invalid_argument ''stoi'')
      | Some v \<Rightarrow>
          if - (2 ^ 31) \<le> v \<and> v < 2 ^ 31 then Inr (word_of_int v) else Inl (Out_of_range ''stoi''))"

definition atoi :: "string \<Rightarrow> int32" where
  "atoi s =
     (case read_decimal s of
        None \<Rightarrow> 0
      | Some v \<Rightarrow> word_of_int (max (- (2 ^ 63)) (min (2 ^ 63 - 1) v)))"

section \<open>Options\<close>

record 'j CliOptions =
  opt_socket_path :: string
  opt_timeout_ms :: int32
  opt_raw_json :: bool
  opt_help :: bool
  opt_command :: string
  opt_args :: "string list"
  opt_params :: 'j

definition getDefaultSocketPath :: "(string \<Rightarrow> string option) \<Rightarrow> string" where
  "getDefaultSocketPath getenv =
     (case getenv ''DEMO_DAEMON_SOCKET'' of
        Some (ch # path) \<Rightarrow> ch # path
      | _ \<Rightarrow>
          (case getenv ''XDG_RUNTIME_DIR'' of
             Some (ch # dir) \<Rightarrow> (ch # dir) @ ''/demo_daemon.sock''
           | _ \<Rightarrow> ''/run/demo_daemon/demo_daemon.sock''))"

fun apply_option :: "char \<times> string \<Rightarrow> 'j CliOptions \<Rightarrow> 'j CliOptions" where
  "apply_option (opt, optarg) opts =
     (if opt = CHR ''s'' then opts\<lparr>opt_socket_path := optarg\<rparr>
      else if opt = CHR ''t'' then opts\<lparr>opt_timeout_ms := atoi optarg\<rparr>
      else if opt = CHR ''r'' then opts\<lparr>opt_raw_json := True\<rparr>
      else if opt = CHR ''h'' then opts\<lparr>opt_help := True\<rparr>
      else opts)"

definition parseOptions :: "'j json_api \<Rightarrow> (string \<Rightarrow> string option) \<Rightarrow>
    (string list \<Rightarrow> (char \<times> string) list \<times> string list) \<Rightarrow> string list \<Rightarrow> 'j CliOptions" where
  "parseOptions J getenv getopt argv =
     (let opts0 = \<lparr>opt_socket_path = getDefaultSocketPath getenv, opt_timeout_ms = 5000,
                   opt_raw_json = False, opt_help = False, opt_command = [], opt_args = [],
                   opt_params = j_null J\<rparr>
      in case getopt argv of (found, rest) \<Rightarrow>
           let opts1 = fold apply_option found opts0 in
           (case rest of
              [] \<Rightarrow> opts1
            | command # args \<Rightarrow> opts1\<lparr>opt_command := command, opt_args := args\<rparr>))"

section \<open>The request for a command\<close>

text \<open>
  \<open>parseTaskArgs\<close>: \<open>"--type"\<close> as the last argument reads past the end of the vector; an
  exception of \<open>stoi\<close> leaves the function except in the \<open>key=value\<close> branch.
\<close>

fun parse_task_args :: "'j json_api \<Rightarrow> string list \<Rightarrow> 'j \<Rightarrow> 'j res outcome" where
  "parse_task_args J [] params = Done (Inr params)"
| "parse_task_args J (a # rest) params =
     (if a = ''--interval'' \<and> rest \<noteq> [] then
        (case stoi (hd rest) of
           Inl e \<Rightarrow> Done (Inl e)
         | Inr n \<Rightarrow> parse_task_args J (tl rest) (j_set J params ''interval'' (j_int J (sint n))))
      else if a = ''--duration'' \<and> rest \<noteq> [] then
        (case stoi (hd rest) of
           Inl e \<Rightarrow> Done (Inl e)
         | Inr n \<Rightarrow> parse_task_args J (tl rest) (j_set J params ''duration'' (j_int J (sint n))))
      else if a = ''--type'' then
        (case rest of
           [] \<Rightarrow> Undefined
         | v # rest' \<Rightarrow> parse_task_args J rest' (j_set J params ''type'' (j_string J v)))
      else
        (case find_char (CHR ''='') a of
           None \<Rightarrow> parse_task_args J rest params
         | Some pos \<Rightarrow>
             let key = take pos a; val = drop (pos + 1) a in
             parse_task_args J rest (j_set J params key
               (case stoi val of Inr n \<Rightarrow> j_int J (sint n) | Inl _ \<Rightarrow> j_string J val))))"

definition parseTaskArgs :: "'j json_api \<Rightarrow> string list \<Rightarrow> 'j res outcome" where
  "parseTaskArgs J args = parse_task_args J args (j_object J [])"

text \<open>
  The dispatch in \<open>main\<close>: a method with parameters, or a message for \<open>stderr\<close> and exit
  status 1, with the usage text for an unknown command.
\<close>

datatype 'j request = Request string 'j | Refuse string bool

definition cli_request :: "'j json_api \<Rightarrow> 'j CliOptions \<Rightarrow> 'j request res outcome" where
  "cli_request J opts =
     (let command = opt_command opts; args = opt_args opts; params = opt_params opts in
      if command = ''ping'' then Done (Inr (Request ''ping'' params))
      else if command = ''status'' then Done (Inr (Request ''status'' params))
      else if command = ''shutdown'' then Done (Inr (Request ''shutdown'' params))
      else if command = ''commands'' \<and> args \<noteq> [] \<and> hd args = ''list'' then
        Done (Inr (Request ''commands.list'' params))
      else if command = ''tasks'' then
        (case args of
           [] \<Rightarrow> Done (Inr (Refuse ''Tasks subcommand required (list, add, stop)'' False))
         | sub # subargs \<Rightarrow>
             if sub = ''list'' then Done (Inr (Request ''tasks.list'' params))
             else if sub = ''add'' \<and> subargs \<noteq> [] then
               out_bind (parseTaskArgs J subargs) (\<lambda>r. Done (res_bind r (\<lambda>ps.
                 Inr (Request ''tasks.add''
                   (if \<not> j_contains J ps ''type'' then j_set J ps ''type'' (j_string J (hd subargs))
                    else ps)))))
             else if sub = ''stop'' \<and> subargs \<noteq> [] then
               Done (res_bind (stoi (hd subargs)) (\<lambda>n.
                 Inr (Request ''tasks.stop'' (j_set J params ''task_id'' (j_int J (sint n))))))
             else Done (Inr (Refuse (''Unknown tasks subcommand: '' @ sub) False)))
      else if command = ''call'' \<and> length args \<ge> 2 then
        (case j_parse J (args ! 1) of
           Inr ps \<Rightarrow> Done (Inr (Request (args ! 0) ps))
         | Inl e \<Rightarrow> Done (Inr (Refuse (''Invalid JSON params: '' @ what e) False)))
      else Done (Inr (Refuse (''Unknown command: '' @ command) True)))"

section \<open>The presentation of the answer\<close>

text \<open>
  A chain of \<open><<\<close> prints its pieces from left to right; an exception keeps what was printed
  before.
\<close>

fun emit :: "string res list \<Rightarrow> string \<times> exn option" where
  "emit [] = ([], None)"
| "emit (Inl e # ps) = ([], Some e)"
| "emit (Inr s # ps) = (s @ fst (emit ps), snd (emit ps))"

definition status_field :: "'j json_api \<Rightarrow> 'j \<Rightarrow> string \<Rightarrow> string \<Rightarrow> string \<Rightarrow> string res list" where
  "status_field J data key label suffix =
     (if j_contains J data key
      then [Inr label, j_dump J (j_at J data key), Inr (suffix @ [newline])] else [])"

definition command_pieces :: "'j json_api \<Rightarrow> 'j \<Rightarrow> string res list" where
  "command_pieces J cmd =
     [res_bind (j_value_string J cmd ''name'' ''unknown'') (\<lambda>name.
      res_bind (j_value_string J cmd ''description'' []) (\<lambda>desc.
        Inr (''  '' @ name @ (if desc \<noteq> [] then '' - '' @ desc else []) @ [newline])))]"

definition task_pieces :: "'j json_api \<Rightarrow> 'j \<Rightarrow> string res list" where
  "task_pieces J task =
     [Inr ''  ID: '', res_bind (j_value_int J task ''id'' (- 1)) (\<lambda>i. Inr (int_string (sint i))),
      Inr '', Type: '', j_value_string J task ''type'' ''unknown'',
      Inr '', State: '', j_value_string J task ''state'' ''unknown'', Inr [newline]]"

definition human_pieces :: "'j json_api \<Rightarrow> 'j CommandResponse \<Rightarrow> string \<Rightarrow> string list \<Rightarrow> string res list" where
  "human_pieces J response command args =
     (let data = resp_data response in
      if command = ''ping'' then
        [Inr (''Pong! Response time: '' @ int_string (resp_time response) @ ''ms'' @ [newline])]
      else if command = ''status'' then
        Inr (''Daemon Status:'' @ [newline]) #
        status_field J data ''version'' ''  Version: '' [] @
        status_field J data ''uptime_seconds'' ''  Uptime: '' ''s'' @
        status_field J data ''active_clients'' ''  Active clients: '' [] @
        (if j_contains J data ''tasks''
         then [Inr (''  Tasks: '' @ nat_string (j_size J (j_at J data ''tasks'')) @ [newline])] else [])
      else if command = ''commands'' \<and> args \<noteq> [] \<and> hd args = ''list'' then
        Inr (''Available commands:'' @ [newline]) #
        (if j_is_array J data then concat (map (command_pieces J) (j_elements J data)) else [])
      else if command = ''tasks'' \<and> args \<noteq> [] then
        (if hd args = ''list'' then
           Inr (''Background tasks:'' @ [newline]) #
           (if j_is_array J data then concat (map (task_pieces J) (j_elements J data)) else [])
         else if hd args = ''add'' then
           [Inr ''Task added. ID: '',
            res_bind (j_value_int J data ''task_id'' (- 1)) (\<lambda>i. Inr (int_string (sint i))), Inr [newline]]
         else if hd args = ''stop'' then [Inr (''Task stopped.'' @ [newline])]
         else [])
      else if command = ''shutdown'' then [Inr (''Shutdown request sent.'' @ [newline])]
      else [j_dump_indent J data, Inr [newline]])"

definition raw_document :: "'j json_api \<Rightarrow> 'j CommandResponse \<Rightarrow> 'j" where
  "raw_document J response =
     (let o1 = j_set J (j_null J) ''success'' (j_bool J (resp_success response));
          o2 = set_opt J ''error_code'' (map_option (\<lambda>c. j_int J (sint c)) (resp_error_code response)) o1;
          o3 = j_set J o2 ''message'' (j_string J (resp_message response));
          o4 = j_set J o3 ''data'' (resp_data response)
      in j_set J o4 ''response_time_ms'' (j_int J (resp_time response)))"

text \<open>The exit status or the exception that leaves the function, \<open>stdout\<close> and \<open>stderr\<close>.\<close>

definition formatAndPrintResponse :: "'j json_api \<Rightarrow> 'j CommandResponse \<Rightarrow> string \<Rightarrow> string list \<Rightarrow> bool \<Rightarrow>
    nat res \<times> string \<times> string" where
  "formatAndPrintResponse J response command args raw_json =
     (let status = (if resp_success response then 0 else 1);
          finish = (\<lambda>ps. case emit ps of
                      (text, None) \<Rightarrow> (Inr status, text, [])
                    | (text, Some e) \<Rightarrow> (Inl e, text, []))
      in if raw_json then finish [j_dump_indent J (raw_document J response), Inr [newline]]
         else if \<not> resp_success response then
           (Inr 1, [], ''Error: '' @ resp_message response @
             (case resp_error_code response of
                Some code \<Rightarrow> '' (code: '' @ int_string (sint code) @ '')'' | None \<Rightarrow> []) @ [newline])
         else finish (human_pieces J response command args))"

section \<open>\<open>main\<close>\<close>

definition text_lines :: "string list \<Rightarrow> string" where
  "text_lines ls = concat (map (\<lambda>l. l @ [newline]) ls)"

definition printUsage :: "string \<Rightarrow> string" where
  "printUsage program = text_lines
     [''Usage: '' @ program @ '' [OPTIONS] COMMAND [ARGS...]'', [],
      ''CLI client for demo_daemon'', [],
      ''Options:'',
      ''  --socket-path PATH   Path to Unix Domain Socket (default: /run/demo_daemon/demo_daemon.sock)'',
      ''  --timeout MS         Timeout in milliseconds (default: 5000)'',
      ''  --raw-json           Output raw JSON response'',
      ''  --help               Show this help message'', [],
      ''Commands:'',
      ''  ping                 Check daemon connectivity'',
      ''  status               Get daemon status'',
      ''  shutdown             Request daemon shutdown'',
      ''  commands list        List available commands'',
      ''  tasks list           List background tasks'',
      ''  tasks add TYPE       Add a background task (TYPE: heartbeat, sleep)'',
      ''  tasks stop ID        Stop a background task by ID'',
      ''  call METHOD PARAMS   Call arbitrary method with JSON params'', [],
      ''Examples:'',
      ''  '' @ program @ '' ping'',
      ''  '' @ program @ '' status'',
      ''  '' @ program @ '' tasks add heartbeat --interval 5'',
      ''  '' @ program @ '' call my_method '' @ [CHR 0x27] @ ''{\"key\":\"value\"}'' @ [CHR 0x27]]"

text \<open>
  The surroundings of one run. The process ends with an exit status or an uncaught
  exception, reads past the end of a vector, or waits for ever.
\<close>

record cli_world =
  cw_getenv :: "string \<Rightarrow> string option"
  cw_getopt :: "string list \<Rightarrow> (char \<times> string) list \<times> string list"
  cw_strerror :: "errno \<Rightarrow> string"
  cw_connect :: connect_env
  cw_open_fds :: "int32 list"
  cw_duration :: int
  cw_out :: "write_result list"
  cw_inp :: "read_result list"

datatype cli_end = Status nat | Uncaught exn | Past_the_end | Blocked

record cli_run =
  run_end :: cli_end
  run_stdout :: string
  run_stderr :: string
  run_sent :: string

definition cli_main :: "'j json_api \<Rightarrow> cli_world \<Rightarrow> string list \<Rightarrow> cli_run" where
  "cli_main J w argv =
     (let opts = parseOptions J (cw_getenv w) (cw_getopt w) argv;
          refuse = (\<lambda>text usage. \<lparr>run_end = Status 1,
            run_stdout = (if usage then printUsage (hd argv) else []),
            run_stderr = text @ [newline], run_sent = []\<rparr>)
      in if opt_help opts \<or> opt_command opts = [] then
           \<lparr>run_end = Status (if opt_help opts then 0 else 1), run_stdout = printUsage (hd argv),
            run_stderr = [], run_sent = []\<rparr>
         else
           case client_connect (cw_connect w)
                  (new_client (opt_socket_path opts) (sint (opt_timeout_ms opts)) (cw_open_fds w)) of
             (False, _) \<Rightarrow>
               refuse (''Failed to connect to daemon at: '' @ opt_socket_path opts @ [newline] @
                 ''Make sure the daemon is running and socket path is correct.'') False
           | (True, client) \<Rightarrow>
               (case cli_request J opts of
                  Undefined \<Rightarrow> \<lparr>run_end = Past_the_end, run_stdout = [], run_stderr = [], run_sent = []\<rparr>
                | Done (Inl e) \<Rightarrow> \<lparr>run_end = Uncaught e, run_stdout = [], run_stderr = [], run_sent = []\<rparr>
                | Done (Inr (Refuse text usage)) \<Rightarrow> refuse text usage
                | Done (Inr (Request method params)) \<Rightarrow>
                    (case sendRequest J (cw_strerror w) method params (cw_duration w) (cw_out w) (cw_inp w) client of
                       (None, _, sent) \<Rightarrow>
                         \<lparr>run_end = Blocked, run_stdout = [], run_stderr = [], run_sent = sent\<rparr>
                     | (Some response, _, sent) \<Rightarrow>
                         (case formatAndPrintResponse J response (opt_command opts) (opt_args opts)
                                 (opt_raw_json opts) of
                            (Inr status, out, err) \<Rightarrow>
                              \<lparr>run_end = Status status, run_stdout = out, run_stderr = err, run_sent = sent\<rparr>
                          | (Inl e, out, err) \<Rightarrow>
                              \<lparr>run_end = Uncaught e, run_stdout = out, run_stderr = err, run_sent = sent\<rparr>))))"

section \<open>Numbers\<close>

lemma read_decimal_int_string: "read_decimal (int_string i) = Some i"
proof -
  have d: "takeWhile is_digit (nat_string n) = nat_string n" for n
    using nat_string_digits by (intro takeWhile_eq_all_conv [THEN iffD2]) blast
  have hd: "is_digit (hd (nat_string n))" for n
    using nat_string_digits [of "hd (nat_string n)" n] by simp
  have "c \<notin> set c_spaces" "c \<noteq> CHR ''-''" "c \<noteq> CHR ''+''" if "is_digit c" for c
    using that by (auto simp: is_digit_def c_spaces_def)
  with hd have "dropWhile (\<lambda>c. c \<in> set c_spaces) (nat_string n) = nat_string n"
      "hd (nat_string n) \<noteq> CHR ''-''" "hd (nat_string n) \<noteq> CHR ''+''" for n
    by (metis dropWhile_eq_self_iff, blast, blast)
  moreover have "CHR ''-'' \<notin> set c_spaces" by (simp add: c_spaces_def)
  ultimately show ?thesis
    by (auto simp: read_decimal_def int_string_def d Let_def)
qed

lemma stoi_int_string: "stoi (int_string (sint w)) = Inr w"
  using sint_greater_eq [of w] sint_lt [of w]
  by (simp add: stoi_def read_decimal_int_string)

section \<open>Task arguments\<close>

text \<open>\<open>key=value\<close> arguments are stored one after the other, as numbers where they are numbers.\<close>

definition task_value :: "'j json_api \<Rightarrow> string \<Rightarrow> 'j" where
  "task_value J v = (case stoi v of Inr n \<Rightarrow> j_int J (sint n) | Inl _ \<Rightarrow> j_string J v)"

lemma parse_task_args_pairs:
  assumes "\<forall>p \<in> set ps. CHR ''='' \<notin> set (fst p)"
  shows "parse_task_args J (map (\<lambda>(k, v). k @ ''='' @ v) ps) params =
    Done (Inr (fold (\<lambda>(k, v) j. j_set J j k (task_value J v)) ps params))"
  using assms
proof (induction ps arbitrary: params)
  case (Cons p ps)
  obtain k v where p: "p = (k, v)" by (cases p)
  let ?a = "k @ ''='' @ v"
  have other: "?a \<noteq> flag" if "CHR ''='' \<notin> set flag" for flag using that by auto
  have "?a \<noteq> ''--interval''" "?a \<noteq> ''--duration''" "?a \<noteq> ''--type''"
    by (rule other, simp)+
  moreover have "find_char (CHR ''='') ?a = Some (length k)"
    using Cons.prems p by simp
  ultimately show ?case
    using Cons p by (simp add: task_value_def Let_def)
qed simp

section \<open>Exit status and output\<close>

lemma emit_total: "snd (emit ps) = None \<longleftrightarrow> (\<forall>p \<in> set ps. \<exists>s. p = Inr s)"
  by (induction ps rule: emit.induct) auto

lemma format_status:
  assumes "formatAndPrintResponse J response command args raw = (Inr status, out, err)"
  shows "status = (if resp_success response then 0 else 1)"
    and "err \<noteq> [] \<longleftrightarrow> \<not> raw \<and> \<not> resp_success response"
  using assms
  by (auto simp: formatAndPrintResponse_def Let_def split: if_splits prod.splits option.splits)

end
