(* ===== verification/Answer_Types.thy ===== *)
theory Answer_Types
  imports Daemon Cli_Main
begin

text \<open>
  The shapes of the documents that the command handler answers with, as a typing of JSON
  values: every answer has the shape of its command or the shape of an error, can be
  serialised, and is presented by the command line tool without an exception.
\<close>

section \<open>Shapes\<close>

text \<open>An object of a shape has exactly the listed members.\<close>

datatype shape =
    String_shape
  | Int_shape
  | Array_shape shape
  | Object_shape "(string \<times> shape) list"

fun has_shape :: "'j json_api \<Rightarrow> 'j \<Rightarrow> shape \<Rightarrow> bool" where
  "has_shape J j String_shape \<longleftrightarrow> j_is_string J j"
| "has_shape J j Int_shape \<longleftrightarrow> j_is_number_integer J j"
| "has_shape J j (Array_shape s) \<longleftrightarrow> j_is_array J j \<and> (\<forall>e \<in> set (j_elements J j). has_shape J e s)"
| "has_shape J j (Object_shape ms) \<longleftrightarrow>
     j_is_object J j \<and> (\<forall>k. j_contains J j k \<longleftrightarrow> k \<in> fst ` set ms) \<and>
     (\<forall>m \<in> set ms. has_shape J (j_at J j (fst m)) (snd m))"

definition strings :: "string list \<Rightarrow> (string \<times> shape) list" where
  "strings ks = map (\<lambda>k. (k, String_shape)) ks"

fun command_shape :: "ICommand \<Rightarrow> shape" where
  "command_shape PingCommand = Object_shape [(''message'', String_shape), (''timestamp'', Int_shape)]"
| "command_shape StatusCommand = Object_shape (strings [''version'', ''status''] @ [(''active_tasks'', Int_shape)])"
| "command_shape ShutdownCommand = Object_shape (strings [''status''])"
| "command_shape CommandsListCommand =
     Object_shape [(''commands'', Array_shape (Object_shape (strings [''name'', ''description''])))]"
| "command_shape TasksListCommand =
     Object_shape [(''tasks'', Array_shape (Object_shape (strings [''id'', ''type'', ''state'']))), (''count'', Int_shape)]"
| "command_shape TasksAddCommand = Object_shape (strings [''id'', ''type'', ''status''])"
| "command_shape TasksStopCommand = Object_shape (strings [''id'', ''status''])"

definition error_shape :: shape where
  "error_shape = Object_shape [(''code'', Int_shape), (''message'', String_shape)]"

definition answer_typed :: "'j json_api \<Rightarrow> string \<Rightarrow> 'j \<Rightarrow> bool" where
  "answer_typed J method data \<longleftrightarrow>
     has_shape J data error_shape \<or>
     (\<exists>cmd. command_name cmd = method \<and> has_shape J data (command_shape cmd))"

section \<open>Typing of the constructors\<close>

context json_build
begin

lemma shape_string: "has_shape J (j_string J s) String_shape"
  by (simp add: is_string_string)

lemma shape_int: "has_shape J (j_int J i) Int_shape"
  by (simp add: is_integer_int)

lemma shape_array: "(\<And>e. e \<in> set js \<Longrightarrow> has_shape J e s) \<Longrightarrow> has_shape J (j_array J js) (Array_shape s)"
  by (simp add: is_array_array elements_array)

lemma shape_object:
  assumes "map fst ms = map fst ps" and "distinct (map fst ps)"
    and "list_all2 (\<lambda>p m. has_shape J (snd p) (snd m)) ps ms"
  shows "has_shape J (j_object J ps) (Object_shape ms)"
proof -
  have "has_shape J (j_at J (j_object J ps) (fst m)) (snd m)" if m: "m \<in> set ms" for m
  proof -
    from m obtain i where i: "i < length ms" "m = ms ! i" by (auto simp: in_set_conv_nth)
    with assms(3) have len: "i < length ps" and "has_shape J (snd (ps ! i)) (snd m)"
      by (auto simp: list_all2_conv_all_nth)
    moreover have "fst m = fst (ps ! i)" using assms(1) i len by (metis nth_map)
    moreover have "(fst (ps ! i), snd (ps ! i)) \<in> set ps" using len by simp
    ultimately show ?thesis using at_object [OF assms(2)] by metis
  qed
  moreover have "fst ` set ms = fst ` set ps" using assms(1) by (metis list.set_map)
  ultimately show ?thesis by (simp add: is_object_object contains_object_iff)
qed

lemma shape_object_set:
  assumes "has_shape J j (Object_shape ms)" and "has_shape J v s" and "k \<notin> fst ` set ms"
  shows "has_shape J (j_set J j k v) (Object_shape (ms @ [(k, s)]))"
  using assms by (auto simp: is_object_set contains_set at_set)

lemmas shape_intros = shape_string shape_int shape_array shape_object shape_object_set

end

section \<open>Answers are typed\<close>

context json_build
begin

lemma error_data_typed: "has_shape J (error_data J c msg) error_shape"
  unfolding error_data_def error_shape_def
  by (rule shape_object) (simp_all add: is_integer_int is_string_string)

lemma tasks_list_typed:
  assumes "tasks_list_execute J m = Done cr"
  shows "has_shape J (cr_data cr) (command_shape TasksListCommand)"
proof -
  obtain infos where cr: "cr_data cr = j_object J [(''tasks'', j_array J (map (task_line J) infos)),
      (''count'', j_int J (sint (word_of_nat (length infos) :: int32)))]"
    using assms by (auto simp: tasks_list_execute_def out_bind_Done_iff cr_ok_def)
  have "has_shape J (task_line J i) (Object_shape (strings [''id'', ''type'', ''state'']))" for i
    unfolding task_line_def by (rule shape_object) (simp_all add: strings_def is_string_string)
  then have "has_shape J (j_array J (map (task_line J) infos))
      (Array_shape (Object_shape (strings [''id'', ''type'', ''state''])))"
    by (intro shape_array) auto
  then show ?thesis
    unfolding cr command_shape.simps by (intro shape_object) (simp_all add: is_integer_int)
qed

lemma status_typed:
  assumes "status_execute J tm = Done cr"
  shows "has_shape J (cr_data cr) (command_shape StatusCommand)"
proof -
  let ?o = "j_object J [(''version'', j_string J ''0.1.0''), (''status'', j_string J ''running'')]"
  obtain n where "cr_data cr = j_set J ?o ''active_tasks'' (j_int J n)"
    using assms by (auto simp: status_execute_def Let_def cr_ok_def out_bind_Done_iff split: option.splits)
  moreover have "has_shape J ?o (Object_shape (strings [''version'', ''status'']))"
    by (rule shape_object) (simp_all add: strings_def is_string_string)
  then have "has_shape J (j_set J ?o ''active_tasks'' (j_int J n)) (command_shape StatusCommand)" for n
    unfolding command_shape.simps by (rule shape_object_set) (simp_all add: strings_def is_integer_int)
  ultimately show ?thesis by simp
qed

lemma commands_list_typed: "has_shape J (cr_data (commands_list_execute J)) (command_shape CommandsListCommand)"
proof -
  have "has_shape J (command_line J a b) (Object_shape (strings [''name'', ''description'']))" for a b
    unfolding command_line_def by (rule shape_object) (simp_all add: strings_def is_string_string)
  then have "has_shape J (j_array J
       [command_line J ''ping'' ''Simple ping command'',
        command_line J ''shutdown'' ''Gracefully shutdown the daemon'',
        command_line J ''commands.list'' ''List all available commands''])
      (Array_shape (Object_shape (strings [''name'', ''description''])))"
    by (intro shape_array) auto
  then show ?thesis
    unfolding commands_list_execute_def cr_ok_def command_shape.simps CommandResult.select_convs
    by (intro shape_object) (simp_all del: has_shape.simps)
qed

lemma execute_typed:
  assumes "execute J env cmd params m = Done (Inr cr, m')" and "cr_success cr"
  shows "has_shape J (cr_data cr) (command_shape cmd)"
proof -
  note lits = strings_def is_string_string is_integer_int
  show ?thesis
  proof (cases cmd)
    case PingCommand
    then have "cr = ping_execute J (call_time env)" using assms(1) by (simp add: execute_def)
    then show ?thesis unfolding PingCommand command_shape.simps ping_execute_def cr_ok_def
      by (auto intro!: shape_object simp: lits simp del: has_shape.simps(4))
  next
    case ShutdownCommand
    then have "cr = shutdown_execute J" using assms(1) by (simp add: execute_def)
    then show ?thesis unfolding ShutdownCommand command_shape.simps shutdown_execute_def cr_ok_def
      by (auto intro!: shape_object simp: lits simp del: has_shape.simps(4))
  next
    case TasksAddCommand
    then obtain i t where "cr_data cr = j_object J [(''id'', j_string J i), (''type'', j_string J t),
        (''status'', j_string J ''started'')]"
      using assms
      by (auto simp: execute_def tasks_add_execute_def cr_err_def cr_ok_def split: if_splits sum.splits prod.splits)
    then show ?thesis unfolding TasksAddCommand command_shape.simps
      by (auto intro!: shape_object simp: lits simp del: has_shape.simps(4))
  next
    case TasksStopCommand
    then obtain i where "cr_data cr = j_object J [(''id'', j_string J i), (''status'', j_string J ''stopping'')]"
      using assms
      by (auto simp: execute_def tasks_stop_execute_def cr_err_def cr_ok_def out_bind_Done_iff
          split: if_splits sum.splits prod.splits bool.splits)
    then show ?thesis unfolding TasksStopCommand command_shape.simps
      by (auto intro!: shape_object simp: lits simp del: has_shape.simps(4))
  next
    case CommandsListCommand
    then show ?thesis using assms(1) commands_list_typed by (simp add: execute_def)
  next
    case StatusCommand
    then show ?thesis using assms(1) status_typed by (auto simp: execute_def out_bind_Done_iff simp del: command_shape.simps)
  next
    case TasksListCommand
    then show ?thesis using assms(1) tasks_list_typed by (auto simp: execute_def out_bind_Done_iff simp del: command_shape.simps)
  qed
qed

lemma answer_data_typed:
  assumes "execute J env cmd params m = Done (r, m')"
  shows "answer_typed J (command_name cmd) (answer_data J r)"
  using assms error_data_typed execute_typed
  by (auto simp: answer_typed_def answer_data_def split: sum.split)

lemma commandHandler_typed:
  assumes "register_builtin = Inr reg" and "commandHandler J env reg request m = Done (resp, m')"
  shows "answer_typed J (rq_method request) (rs_result resp)"
proof (cases "get_command (rq_method request) reg")
  case None
  with assms(2) show ?thesis
    by (auto simp: commandHandler_unknown answer_typed_def error_data_typed)
next
  case (Some cmd)
  then have "command_name cmd = rq_method request"
    using builtin_lookup(1) [OF assms(1)] by simp
  with assms(2) Some answer_data_typed show ?thesis
    by (fastforce simp: commandHandler_known out_bind_Done_iff)
qed

end

section \<open>Answers can be sent\<close>

text \<open>
  What is needed of the texts that enter an answer: the ids of the tasks and the messages of
  the exceptions that creating a task or its thread may throw.
\<close>

definition task_texts :: "(string \<Rightarrow> bool) \<Rightarrow> 'j TaskManager \<Rightarrow> bool" where
  "task_texts utf8 m \<longleftrightarrow>
     (\<forall>e \<in> set (tm_tasks m). \<forall>t. te_task (snd e) = Some t \<longrightarrow> utf8 (task_id t))"

definition exn_texts :: "(string \<Rightarrow> bool) \<Rightarrow> call_env \<Rightarrow> 'j \<Rightarrow> 'j TaskManager \<Rightarrow> bool" where
  "exn_texts utf8 env params m \<longleftrightarrow>
     (\<forall>e. call_thread_exn env = Some e \<longrightarrow> utf8 (what e)) \<and>
     (\<forall>typ i c e c'. create_task typ i params (tm_registry m) c = (Inl e, c') \<longrightarrow> utf8 (what e))"

lemma task_texts_null: "tm_null m \<Longrightarrow> task_texts utf8 m"
  by (auto simp: task_texts_def tm_null_def)

lemma manager_task_id_ascii: "c \<in> set (manager_task_id n) \<Longrightarrow> (of_char c :: nat) < 128"
  using nat_string_digits [of c "unat n"] by (auto simp: manager_task_id_def is_digit_def)

context nlohmann_json
begin

lemma utf8_lit: "list_all (\<lambda>c. (of_char c :: nat) < 128) s \<Longrightarrow> utf8 s"
  by (rule utf8_ascii) (simp add: list_all_iff)

lemma dumpable_members:
  "list_all (\<lambda>(k, v). utf8 k \<and> dumpable v) ps \<Longrightarrow> dumpable (j_object J ps)"
  by (rule dumpable_object) (auto simp: list_all_iff)

lemma dumpable_elements: "list_all dumpable js \<Longrightarrow> dumpable (j_array J js)"
  by (rule dumpable_array) (simp add: list_all_iff)

lemmas sendable_simps = utf8_lit dumpable_members dumpable_elements dumpable_string dumpable_int

lemma dumpable_error_data: "utf8 msg \<Longrightarrow> dumpable (error_data J c msg)"
  by (simp add: error_data_def sendable_simps)

lemma error_text_sendable:
  assumes "(\<And>c. c \<in> set s \<Longrightarrow> (of_char c :: nat) < 128)" and "utf8 msg"
  shows "dumpable (error_data J c (s @ msg))"
  using utf8_append [OF utf8_ascii [of s] assms(2)] assms(1) by (intro dumpable_error_data) blast

lemma internal_sendable: "utf8 (what e) \<Longrightarrow> dumpable (answer_data J (Inl e))"
  unfolding answer_data_def sum.case by (rule error_text_sendable) auto

lemma task_line_dumpable:
  assumes "list_tasks m = Done infos" and "task_texts utf8 m" and "i \<in> set infos"
  shows "dumpable (task_line J i)"
proof -
  from list_tasks_entry [OF assms(1,3)] obtain e t where e: "e \<in> set (tm_tasks m)"
      "te_task (snd e) = Some t" "ti_id i = task_id t" "ti_type i = task_type t"
    by (auto simp: entry_info_def out_bind_Done_iff)
  have "utf8 (ti_id i)" using assms(2) e by (auto simp: task_texts_def)
  moreover have "utf8 (ti_type i)" unfolding e(4) by (cases t) (auto intro!: utf8_ascii)
  moreover have "utf8 (state_word (ti_state i))"
    unfolding state_word_eq by (cases "ti_state i") (auto intro!: utf8_ascii)
  moreover have "utf8 ''id''" "utf8 ''type''" "utf8 ''state''" by (auto intro!: utf8_ascii)
  ultimately show ?thesis
    unfolding task_line_def by (intro dumpable_object) (auto simp: dumpable_string)
qed

lemma params_string:
  assumes "dumpable params" and "j_contains J params k" and "j_get_string J (j_at J params k) = Inr s"
  shows "utf8 s"
  using utf8_get_string [OF dumpable_at [OF assms(1,2)] assms(3)] .

lemma add_task_texts:
  assumes "add_task clock x typ params m = (Inr i, m')"
  shows "utf8 i"
  using add_task_result(1) [OF assms] manager_task_id_ascii by (auto intro: utf8_ascii)

lemma tasks_add_sendable:
  assumes "dumpable params" and "exn_texts utf8 env params m" and "tasks_add_execute J env params m = (r, m')"
  shows "dumpable (answer_data J r)"
proof (cases "j_contains J params ''type''")
  case False
  with assms(3) show ?thesis
    by (auto simp: tasks_add_execute_def cr_err_def answer_data_def dumpable_error_data sendable_simps)
next
  case True
  show ?thesis
  proof (cases "j_get_string J (j_at J params ''type'')")
    case (Inl e)
    with True assms(3) have "r = Inl e" by (simp add: tasks_add_execute_def)
    with internal_sendable utf8_get_string_err [OF Inl] show ?thesis by blast
  next
    case (Inr ty)
    obtain q m1 where q: "add_task (call_clock env) (call_thread_exn env) ty params m = (q, m1)" by fastforce
    show ?thesis
    proof (cases q)
      case (Inl e)
      have "utf8 (what e)"
        using add_task_result(2) [OF q [unfolded Inl]] assms(2) unfolding exn_texts_def by blast
      moreover have "r = Inl e" using True Inr q Inl assms(3) by (simp add: tasks_add_execute_def)
      ultimately show ?thesis using internal_sendable by blast
    next
      case i: (Inr i)
      have "utf8 i" by (rule add_task_texts [OF q [unfolded i]])
      moreover have "utf8 ty" by (rule params_string [OF assms(1) True Inr])
      moreover have "r = (if i = [] then Inr (cr_err J (- 32000) ''Failed to add task: unknown type or invalid params'')
          else Inr (cr_ok (j_object J [(''id'', j_string J i), (''type'', j_string J ty), (''status'', j_string J ''started'')])))"
        using True Inr q i assms(3) by (auto simp: tasks_add_execute_def)
      ultimately show ?thesis
        by (simp add: answer_data_def cr_err_def cr_ok_def dumpable_error_data sendable_simps)
    qed
  qed
qed

lemma tasks_stop_sendable:
  assumes "dumpable params" and "tasks_stop_execute J params m = Done (r, m')"
  shows "dumpable (answer_data J r)"
proof (cases "j_contains J params ''id''")
  case False
  with assms(2) show ?thesis
    by (auto simp: tasks_stop_execute_def cr_err_def answer_data_def dumpable_error_data sendable_simps)
next
  case True
  show ?thesis
  proof (cases "j_get_string J (j_at J params ''id'')")
    case (Inl e)
    with True assms(2) have "r = Inl e" by (simp add: tasks_stop_execute_def)
    with internal_sendable utf8_get_string_err [OF Inl] show ?thesis by blast
  next
    case (Inr i)
    have i: "utf8 i" by (rule params_string [OF assms(1) True Inr])
    have "dumpable (error_data J (- 32001) (''Task not found or already stopped: '' @ i))"
      by (rule error_text_sendable) (auto simp: i)
    moreover have "dumpable (j_object J [(''id'', j_string J i), (''status'', j_string J ''stopping'')])"
      using i by (simp add: sendable_simps)
    moreover obtain found where "r = Inr (if found
        then cr_ok (j_object J [(''id'', j_string J i), (''status'', j_string J ''stopping'')])
        else cr_err J (- 32001) (''Task not found or already stopped: '' @ i))"
    proof -
      obtain found m1 where "stop_task i m = Done (found, m1)"
        using True Inr assms(2) by (auto simp: tasks_stop_execute_def out_bind_Done_iff)
      with True Inr assms(2) that [of found] show ?thesis
        by (cases found) (auto simp: tasks_stop_execute_def)
    qed
    ultimately show ?thesis by (cases found) (simp_all add: answer_data_def cr_ok_def cr_err_def)
  qed
qed

lemma execute_sendable:
  assumes "dumpable params" and "task_texts utf8 m" and "exn_texts utf8 env params m"
    and "execute J env cmd params m = Done (r, m')"
  shows "dumpable (answer_data J r)"
proof (cases cmd)
  case PingCommand
  then show ?thesis
    using assms(4)
    by (auto simp: execute_def ping_execute_def answer_data_def cr_ok_def sendable_simps)
next
  case StatusCommand
  let ?o = "j_object J [(''version'', j_string J ''0.1.0''), (''status'', j_string J ''running'')]"
  have "dumpable ?o" by (simp add: sendable_simps)
  then have "dumpable (j_set J ?o ''active_tasks'' (j_int J n))" for n
    by (intro dumpable_set) (simp_all add: is_object_object sendable_simps)
  with StatusCommand assms(4) show ?thesis
    by (auto simp: execute_def status_execute_def Let_def out_bind_Done_iff answer_data_def cr_ok_def)
next
  case ShutdownCommand
  then show ?thesis
    using assms(4) by (auto simp: execute_def shutdown_execute_def answer_data_def cr_ok_def sendable_simps)
next
  case CommandsListCommand
  then show ?thesis
    using assms(4)
    by (auto simp: execute_def commands_list_execute_def command_line_def answer_data_def cr_ok_def sendable_simps)
next
  case TasksListCommand
  then show ?thesis
    using assms(4) task_line_dumpable [OF _ assms(2)]
    by (auto simp: execute_def tasks_list_execute_def out_bind_Done_iff answer_data_def cr_ok_def list_all_iff
        sendable_simps)
next
  case TasksAddCommand
  then show ?thesis using assms(4) tasks_add_sendable [OF assms(1,3)] by (simp add: execute_def)
next
  case TasksStopCommand
  then show ?thesis using assms(4) tasks_stop_sendable [OF assms(1)] by (simp add: execute_def)
qed

lemma commandHandler_sendable:
  assumes "utf8 (rq_method request)" and "dumpable (rq_params request)"
    and "task_texts utf8 m" and "exn_texts utf8 env (rq_params request) m"
    and "commandHandler J env reg request m = Done (resp, m')"
  shows "dumpable (rs_result resp)"
proof (cases "get_command (rq_method request) reg")
  case None
  have "dumpable (error_data J (- 32601) (''Method not found: '' @ rq_method request))"
    by (rule error_text_sendable) (auto simp: assms(1))
  with None assms(5) show ?thesis by (auto simp: commandHandler_unknown)
next
  case (Some cmd)
  with assms execute_sendable [OF assms(2-4)] show ?thesis
    by (fastforce simp: commandHandler_known out_bind_Done_iff)
qed

end

section \<open>Answers can be presented\<close>

lemma typed_object: "answer_typed J method data \<Longrightarrow> j_is_object J data"
proof -
  have "\<exists>ms. command_shape cmd = Object_shape ms" for cmd by (cases cmd) simp_all
  then show "answer_typed J method data \<Longrightarrow> j_is_object J data"
    by (metis answer_typed_def error_shape_def has_shape.simps(4))
qed

lemma typed_add_keys:
  assumes "answer_typed J ''tasks.add'' data"
  shows "\<not> j_contains J data ''task_id''"
proof -
  have "cmd = TasksAddCommand" if "command_name cmd = ''tasks.add''" for cmd
    using that by (cases cmd) simp_all
  then have "has_shape J data error_shape \<or> has_shape J data (command_shape TasksAddCommand)"
    using assms unfolding answer_typed_def by blast
  then show ?thesis
  proof
    assume "has_shape J data error_shape"
    then show ?thesis by (simp add: error_shape_def)
  next
    assume "has_shape J data (command_shape TasksAddCommand)"
    then show ?thesis by (simp add: strings_def)
  qed
qed

lemma cli_request_add:
  assumes "cli_request J opts = Done (Inr (Request method params))"
    and "opt_command opts = ''tasks''" and "hd (opt_args opts) = ''add''" and "opt_args opts \<noteq> []"
  shows "method = ''tasks.add''"
proof -
  obtain subargs where args: "opt_args opts = ''add'' # subargs" using assms(3,4) by (cases "opt_args opts") auto
  show ?thesis
    using assms(1) by (cases subargs) (auto simp: cli_request_def assms(2) args out_bind_Done_iff res_bind_Inr_iff)
qed

lemma format_ok:
  assumes "resp_success r" and "\<forall>p \<in> set (human_pieces J r command args). \<exists>s. p = Inr s"
    and "raw \<Longrightarrow> \<exists>s. j_dump_indent J (raw_document J r) = Inr s"
  shows "\<exists>out. formatAndPrintResponse J r command args raw = (Inr 0, out, [])"
proof -
  obtain shown where "emit (human_pieces J r command args) = (shown, None)"
    using emit_total [of "human_pieces J r command args"] assms(2) by (metis prod.collapse)
  with assms(1,3) show ?thesis by (cases raw) (auto simp: formatAndPrintResponse_def)
qed

context nlohmann_json
begin

lemma raw_document_dumpable:
  assumes "dumpable (resp_data r)" and "utf8 (resp_message r)"
  shows "dumpable (raw_document J r)"
  unfolding raw_document_def Let_def set_opt_def
  by (auto split: option.split intro!: dumpable_set
      simp: build_simps sendable_simps dumpable_null dumpable_bool assms)

lemma status_field_ok:
  assumes "dumpable data" and "p \<in> set (status_field J data k label suffix)"
  shows "\<exists>s. p = Inr s"
  using assms(2) dump_ok [OF dumpable_at [OF assms(1), of k]]
  by (auto simp: status_field_def split: if_splits)

lemma human_pieces_ok:
  assumes "answer_typed J method (resp_data r)" and "dumpable (resp_data r)"
    and "cli_request J opts = Done (Inr (Request method params))"
    and "p \<in> set (human_pieces J r (opt_command opts) (opt_args opts))"
  shows "\<exists>s. p = Inr s"
proof -
  have "\<not> j_is_array J (resp_data r)" using array_kind typed_object [OF assms(1)] by blast
  moreover have "j_value_int J (resp_data r) ''task_id'' (- 1) = Inr (- 1)"
    if "opt_command opts = ''tasks''" "hd (opt_args opts) = ''add''" "opt_args opts \<noteq> []"
    using value_int [OF typed_object [OF assms(1)]] typed_add_keys assms(1) cli_request_add [OF assms(3) that]
    by metis
  moreover note dump_indent_ok [OF assms(2)]
  ultimately show ?thesis
    using assms(4) status_field_ok [OF assms(2)]
    by (auto simp: human_pieces_def Let_def split: if_splits)
qed

lemma answer_presented:
  assumes "answer_typed J method (resp_data r)" and "dumpable (resp_data r)"
    and "cli_request J opts = Done (Inr (Request method params))"
    and "resp_success r" and "utf8 (resp_message r)"
  shows "\<exists>out. formatAndPrintResponse J r (opt_command opts) (opt_args opts) raw = (Inr 0, out, [])"
  using assms human_pieces_ok [OF assms(1-3)] dump_indent_ok [OF raw_document_dumpable [OF assms(2,5)]]
  by (intro format_ok) blast+

text \<open>The way of an answer to the tool: one line of text, read back as a success with the data.\<close>

lemma answer_decoded:
  assumes "dumpable data"
  obtains line where "serialize J (empty_message\<lparr>jm_id := i, jm_result := Some data\<rparr>) = Inr (line @ [newline])"
    "decode_response J duration line =
      Inr \<lparr>resp_success = True, resp_error_code = None, resp_message = ''OK'', resp_data = data, resp_time = duration\<rparr>"
proof -
  let ?m = "empty_message\<lparr>jm_id := i, jm_result := Some data\<rparr>"
  have "dumpable (JsonMessage_to_json J ?m)"
    using assms by (intro dumpable_message) (auto simp: empty_message_def)
  then obtain line where line: "j_dump J (JsonMessage_to_json J ?m) = Inr line"
      "j_parse J line = Inr (JsonMessage_to_json J ?m)"
    using dump_cases by blast
  with decode_result [OF line(2)] show thesis
    by (intro that [of line]) (simp_all add: serialize_def empty_message_def)
qed

end

end
