(* ===== verification/Spec2Isabelle.thy ===== *)
theory Spec2Isabelle
  imports Json_Ref System Answer_Types
begin

text \<open>
  A verification of \<open>demo_daemon\<close>: a daemon that serves JSON commands over a Unix domain
  socket, and the command line tool that talks to it.

  \<^bold>\<open>The program.\<close> Clients send one JSON document per line. \<open>UnixSocketServer\<close>
  (\<open>src/ipc/unix_socket_server.cpp\<close>) accepts connections in an epoll loop and keeps one
  \<open>Session\<close> (\<open>src/ipc/session_manager.cpp\<close>) per client in the two tables of
  \<open>ConnectionManager\<close>. A session reads into an \<open>IOBuffer\<close>, cuts the bytes into messages
  with \<open>JsonProtocolParser\<close> (\<open>src/ipc/json_protocol.cpp\<close>) and hands requests to a callback,
  which calls the command handler of \<open>src/daemon/main.cpp\<close> and queues the response. The
  handler looks the method up in \<open>CommandRegistry\<close> and runs a command of \<open>src/commands\<close>;
  some of them work on \<open>TaskManager\<close> (\<open>src/tasks\<close>), which creates background tasks through
  \<open>TaskRegistry\<close>. The main thread waits for signals and shuts the rest down. The tool
  (\<open>src/cli\<close>) translates a command line into a request, sends it and presents the answer.

  \<^bold>\<open>The theories.\<close>
  \<^item> \<open>Prelude\<close>: integers at their width, exceptions as values, string searches, decimal
    numbers, byte vectors, hash tables as association lists; collections of rewrite rules.
  \<^item> \<open>Json_Api\<close>: the operations of \<open>nlohmann::json\<close> that the sources call, as a record that
    every definition takes as a parameter, and its documented behaviour in three locales
    (\<open>json_kinds\<close>, \<open>json_build\<close>, \<open>nlohmann_json\<close>). \<open>Json_Ref\<close>: a document type with a
    printer and a parser that satisfies them; the closed examples run on it.
  \<^item> \<open>Json_Protocol\<close>: the message structs with \<open>to_json\<close> and \<open>from_json\<close>. \<open>Framing\<close>:
    \<open>try_parse\<close> and \<open>serialize\<close>; the contract \<open>framer\<close> of an incremental parser gives the
    independence of the stream from its chunks.
  \<^item> \<open>IO_Buffer\<close>: the buffer, as an implementation of \<open>byte_queue\<close>. \<open>Session\<close>: the read and
    write loops and the queueing of responses; the contracts \<open>message_handler\<close>,
    \<open>queue_handler\<close> and \<open>world_handler\<close> of the callback give termination, what becomes of
    the write buffer and the preservation of invariants.
  \<^item> \<open>Connection_Manager\<close> and \<open>Socket_Server\<close>: tables, set-up, epoll registration, accept
    loop, events, \<open>run\<close>, \<open>stop\<close>; the tables as an implementation of \<open>session_directory\<close>, a
    set of sessions; the invariant \<open>server_inv\<close> over all states reachable through
    \<open>server_reach\<close>. \<open>Server_Steps\<close>: the same states as runs of a step relation, the
    descriptors the server owns, the contract \<open>command_service\<close> of what the command handler
    keeps. \<open>Request_Flow\<close>: a request from the epoll event with its bytes to the session that
    its id names, or to none.
  \<^item> \<open>Tasks\<close>: heartbeat and sleep tasks as state machines behind \<open>ITask\<close>, with the contract
    \<open>background_task\<close>. \<open>Registries\<close>: the tables of task types, instances of \<open>first_wins\<close>.
    \<open>Task_Manager\<close>: the manager, with dereferenced null pointers as the outcome \<open>Undefined\<close>.
  \<^item> \<open>Core\<close>: \<open>Result\<close>, versions, log levels, exception classes, the signal handler with its
    self-pipe. \<open>Logger\<close>: what is written for which level.
  \<^item> \<open>Commands\<close>: the seven commands and their registry, an instance of \<open>last_wins\<close>.
    \<open>Daemon\<close>: arguments, start-up, command handler, signal loop, shutdown. \<open>System\<close>: the main
    thread, the server thread, signals and task threads as one step relation over their shared
    state, with the command handler as an instance of \<open>command_service\<close>.
  \<^item> \<open>Cli_Client\<close> and \<open>Cli_Main\<close>: the client's connection, its send and receive loops and the
    decoding of answers; options, requests and output of the tool. \<open>Answer_Types\<close>: the shapes of
    the daemon's answers, and that the tool presents them.

  \<^bold>\<open>How the code is represented.\<close> Operations are functions on records that hold the members of
  the classes. \<open>int\<close>, \<open>int64_t\<close> and \<open>uint64_t\<close> are words; sizes are natural numbers. What the
  kernel answers is an input: a script of results for \<open>::read\<close>, \<open>::write\<close>, \<open>::send\<close>,
  \<open>::recv\<close>, \<open>accept4\<close> and \<open>epoll_wait\<close>, and a record of outcomes for the calls of a set-up.
  Theorems hold for all scripts, so for every chunking, partial write and failure. A script
  that has run out means a call that would block. Loops over scripts recurse on them; the
  session's loops are partial functions whose termination is a theorem, the client's receive
  loop is total by a measure on the pending bytes. No fuel bounds anything except the
  parser of \<open>Json_Ref\<close>, which is given more fuel than the text has characters. Threads: the
  mutexes make the operations of the tables, the logger and the manager single steps; a worker
  thread advances by one step per round of its loop, interleaved with the calls of other
  threads; the signal loop sees the signals that arrive before and after each test. In \<open>System\<close>
  an epoll event, a call of \<open>stop()\<close> and each test of a flag are single steps that interleave
  freely.

  \<^bold>\<open>What is shown.\<close> Messages: round trips of all structs, of streams of messages and of the
  client's requests and the server's responses across the socket; what is done with every
  line, and that a rejected line blocks the connection. Sessions: the buffer refines a queue
  of bytes, \<open>on_readable\<close> returns and dispatches exactly the requests of the stream, partial
  writes lose nothing, the read buffers of all clients together are bounded; and no session ever writes, because no code sets its state to
  \<open>Writing\<close>. Server: the tables refine a set of sessions, the invariant, the connection limit,
  set-up and return of descriptors, the routing of responses by request id, the loss of every
  client's first request, and that a request with the descriptor of its own connection as its id
  is answered in one step of the server. Tasks: a task starts once, a sleep task ends, \<open>stop_all_tasks\<close> comes
  back, the table of tasks and its null entries. Daemon: it is ready when it has started, the
  handler answers every request with its id and a document of the type of the command, the
  signal loop ends, the shutdown waits for an event; the invariant of all threads together, that
  only signals end the daemon, that an early signal is lost and that otherwise the daemon can
  come to its end with every descriptor returned. Tool: it always comes back if it has a
  time-out, owns one descriptor, and presents every answer of the daemon as a success.

  \<^bold>\<open>Not modelled.\<close> The text of log lines that the components write and the calls that write
  them (the logger itself is modelled); a failing constructor of
  \<open>serverThread\<close>; data races on members that are read without a lock, and the captured
  reference of the message callback that outlives its referent (the handler is called as if
  it were alive); what happens after undefined behaviour, which is the outcome \<open>Undefined\<close>.
  \<open>TaskRegistry::register_builtin_tasks\<close>, called by the daemon's \<open>main\<close>, is
  not defined in the sources: the registry a manager is created with is arbitrary.
\<close>

unbundle bit_operations_syntax

section \<open>Concrete states\<close>

text \<open>
  The environment and the states used in the closed examples: the socket path holds a stale
  socket, descriptors 0 to 2 are open, the listening socket gets 3 and epoll 4; a sleep task
  of one second; a task manager whose registry knows the sleep task.
\<close>

definition demo_env :: setup_env where
  "demo_env = \<lparr>env_errno = EAGAIN, env_stat = None, env_unlink = None, env_socket = Some 3,
     env_bind = True, env_chmod = True, env_listen = True, env_epoll_create = Some 4, env_epoll_add = True\<rparr>"

definition demo_server :: UnixSocketServer where
  "demo_server = (new_server default_config Socket_file [0, 1, 2])\<lparr>at_path := Socket_file, at_mode := Some 432,
     server_fd := 3, epoll_fd := 4, open_fds := [4, 3, 0, 1, 2], interest := [(3, (EPOLLIN OR EPOLLET, 0))]\<rparr>"

definition demo_pair :: UnixSocketServer where
  "demo_pair = demo_server\<lparr>
     objects := [0 \<mapsto> fst (new_session 0 5), 1 \<mapsto> fst (new_session 1 6)],
     connection_manager := \<lparr>sessions_by_id = [(1, 0), (2, 1)], fd_to_id = [(5, 1), (6, 2)]\<rparr>\<rparr>"

definition demo_sleep :: SleepTask where
  "demo_sleep = fst (new_sleep 1000 \<lparr>heartbeat_counter = 0, sleep_counter = 0\<rparr>)"

definition demo_registry :: "jv TaskRegistry" where
  "demo_registry = snd (register_task_type ''sleep'' (\<lambda>i. sleep_creator ref_api) new_task_registry)"

definition demo_manager :: "jv TaskManager" where
  "demo_manager = \<lparr>tm_registry = demo_registry, tm_tasks = [], next_task_id = 0, shutdown_requested = False,
     tm_counters = \<lparr>heartbeat_counter = 0, sleep_counter = 0\<rparr>\<rparr>"

definition demo_commands :: CommandRegistry where
  "demo_commands = cr.put_all (map (\<lambda>c. (command_name c, c)) builtin_commands) new_command_registry"



definition demo_client :: UnixSocketServer where
  "demo_client = fst (accept_loop demo_server
     [Inr \<lparr>conn_fd = 5, getfl_ok = True, setfl_ok = True, epoll_add_ok = True\<rparr>])"

lemma demo_setup_ok: "setup_ok demo_env (new_server default_config Socket_file [0, 1, 2])"
  by (simp add: setup_ok_def demo_env_def valid_fd_def new_server_def)

lemma demo_initialize:
  "server_initialize demo_env (new_server default_config Socket_file [0, 1, 2]) = (True, demo_server)"
  by (simp add: server_initialize_def create_server_socket_def cleanup_socket_def demo_env_def
      demo_server_def new_server_def default_config_def add_to_epoll_def sys_open_def
      SUN_PATH_SIZE_def Let_def)

lemma demo_reach: "server_reach J ch demo_server"
  by (rule server_reach.initialized [OF demo_setup_ok demo_initialize])

lemma demo_client:
  "(server_step J ch)\<^sup>*\<^sup>* demo_server demo_client"
  "get_session_by_fd 5 (connection_manager demo_client) = Some 0"
  "objects demo_client 0 = Some (fst (new_session 0 5))"
proof -
  let ?c = "\<lparr>conn_fd = 5, getfl_ok = True, setfl_ok = True, epoll_add_ok = True\<rparr>"
  let ?ev = "\<lparr>ev_events = EPOLLIN, ev_ptr = 0, ev_conns = [Inr ?c], ev_input = [], ev_output = [], ev_errno = EAGAIN\<rparr>"
  have "server_step J ch demo_server demo_client"
    by (rule server_step.handle [where ev = ?ev])
      (simp_all add: demo_client_def kernel_event_def handle_epoll_event_def demo_server_def new_server_def)
  then show "(server_step J ch)\<^sup>*\<^sup>* demo_server demo_client" by blast
  have c: "demo_client = open_session ?c (sys_open 5 demo_server)"
    unfolding demo_client_def
    by (simp add: accept_loop.simps accept_connection_def valid_fd_def demo_server_def new_server_def sys_open_def
        session_count_def new_manager_def default_config_def)
  show "get_session_by_fd 5 (connection_manager demo_client) = Some 0"
    "objects demo_client 0 = Some (fst (new_session 0 5))"
    unfolding c
    by (simp_all add: open_session_def make_session_def new_session_def initialize_def demo_server_def new_server_def
        sys_open_def add_to_epoll_def release_session_def add_session_def new_manager_def get_session_by_fd_def Let_def)
qed


lemma demo_manager_ok: "tm_keys demo_manager" "tm_null demo_manager"
  using new_task_manager_ok [of "Some demo_registry" "\<lparr>heartbeat_counter = 0, sleep_counter = 0\<rparr>" demo_manager]
  by (simp_all add: new_task_manager_def demo_manager_def)

lemma demo_create: "fst (create_task ''sleep'' i (JObj []) (tm_registry demo_manager) (tm_counters demo_manager)) =
    Inr (Some (Sleep (fst (new_sleep 10000 \<lparr>heartbeat_counter = 0, sleep_counter = 0\<rparr>))))"
  by (simp add: demo_manager_def demo_registry_def register_task_type_def new_task_registry_def
      create_task_def sleep_creator_def case_prod_beta)





section \<open>Messages and framing\<close>

text \<open>
  C9. Round trip of \<open>JsonMessage\<close>: over any JSON library that builds and reads documents as
  documented, \<open>from_json\<close> gives back the message that \<open>to_json\<close> wrote if it is a request
  or a response and not both, and rejects every other message.
\<close>

theorem message_roundtrip:
  assumes "json_build J"
  shows "JsonMessage_from_json J (JsonMessage_to_json J m) = Inr (if wf_message m then Some m else None)"
  using json_build.JsonMessage_roundtrip [OF assms] .

theorem message_roundtrip_witness:
  "JsonMessage_from_json ref_api
     (JsonMessage_to_json ref_api (empty_message\<lparr>jm_id := Some 7, jm_method := Some ''ping''\<rparr>)) =
   Inr (Some (empty_message\<lparr>jm_id := Some 7, jm_method := Some ''ping''\<rparr>))"
  using message_roundtrip [OF ref.json_build_axioms, of "empty_message\<lparr>jm_id := Some 7, jm_method := Some ''ping''\<rparr>"]
  by (simp add: wf_message_def is_request_def is_response_def empty_message_def)

text \<open>
  The typed structs round-trip too: \<open>RequestMessage\<close>, \<open>ResponseMessage\<close>,
  \<open>ErrorResponseMessage\<close> and \<open>ProtocolError\<close> are read back as they were written, for every
  64-bit id, 32-bit error code and optional member.
\<close>

theorem typed_roundtrip:
  assumes "json_build J"
  shows "RequestMessage_from_json J (RequestMessage_to_json J rq) = Inr (Some rq) \<and>
    ResponseMessage_from_json J (ResponseMessage_to_json J rs) = Inr (Some rs) \<and>
    ErrorResponseMessage_from_json J (ErrorResponseMessage_to_json J er) = Inr (Some er) \<and>
    ProtocolError_from_json J (ProtocolError_to_json J pe) = Inr pe"
  using json_build.RequestMessage_roundtrip [OF assms] json_build.ResponseMessage_roundtrip [OF assms]
    json_build.ErrorResponseMessage_roundtrip [OF assms] json_build.ProtocolError_roundtrip [OF assms]
  by blast

theorem typed_roundtrip_witness:
  "RequestMessage_from_json ref_api
     (RequestMessage_to_json ref_api \<lparr>rq_id = Some (- 3), rq_method = ''ping'', rq_params = JNull\<rparr>) =
   Inr (Some \<lparr>rq_id = Some (- 3), rq_method = ''ping'', rq_params = JNull\<rparr>)"
  using typed_roundtrip [OF ref.json_build_axioms] by blast

text \<open>
  The two readers of a request agree: when \<open>JsonMessage::from_json\<close> accepts a document
  as a request, \<open>RequestMessage::from_json\<close> accepts it as the request that the session
  builds from the message.
\<close>

theorem readers_agree:
  assumes "JsonMessage_from_json J j = Inr (Some m)" and "is_request m"
  shows "RequestMessage_from_json J j = Inr (Some (to_request J m))"
  using assms by (rule request_readers_agree)

theorem readers_agree_witness:
  "RequestMessage_from_json ref_api (JObj [(''method'', JStr ''ping'')]) =
   Inr (Some \<lparr>rq_id = None, rq_method = ''ping'', rq_params = JObj []\<rparr>)"
proof -
  have "JsonMessage_from_json ref_api (JObj [(''method'', JStr ''ping'')]) =
      Inr (Some (empty_message\<lparr>jm_method := Some ''ping''\<rparr>))"
    by (simp add: JsonMessage_from_json_def id_field_def method_field_def error_field_def
        get_opt_def empty_message_def)
  from readers_agree [OF this] show ?thesis
    by (simp add: is_request_def to_request_def empty_message_def mk_obj_def)
qed

text \<open>
  \<open>JsonMessage::from_json\<close> throws only for an \<open>"error"\<close> object with a \<open>"code"\<close> or
  \<open>"message"\<close> of the wrong type; the other readers' type errors are all guarded.
\<close>

theorem from_json_throws_only_on_error:
  assumes "json_kinds J" and "JsonMessage_from_json J j = Inl e"
  shows "j_contains J j ''error'' \<and> ProtocolError_from_json J (j_at J j ''error'') = Inl e"
  using json_kinds.from_json_throw [OF assms] by blast

theorem from_json_throws_only_on_error_witness:
  "\<exists>e. JsonMessage_from_json ref_api (JObj [(''error'', JObj [(''code'', JStr ''x'')])]) = Inl e \<and>
     ProtocolError_from_json ref_api (JObj [(''code'', JStr ''x'')]) = Inl e"
proof -
  obtain e where e: "JsonMessage_from_json ref_api (JObj [(''error'', JObj [(''code'', JStr ''x'')])]) = Inl e"
    by (simp add: JsonMessage_from_json_def id_field_def method_field_def error_field_def
        ProtocolError_from_json_def ref_value_def)
  from from_json_throws_only_on_error [OF ref.json_kinds_axioms e] e show ?thesis by auto
qed

text \<open>
  C17. \<open>try_parse\<close> on every complete line: the verdict depends on the line alone, at most
  the line and its newline are consumed, blanks at both ends are dropped, and a line that
  reaches the size limit is answered with the parse error.
\<close>

theorem try_parse_complete_line:
  assumes "newline \<notin> set line"
  shows "try_parse J p (line @ newline # rest) =
    (if max_message_size p \<le> length line then Some make_parse_error else line_result J line,
     length line + 1)"
  using assms try_parse_line [of line p J rest] try_parse_long_line [of line p J rest] by simp

theorem try_parse_complete_line_witness:
  "try_parse ref_api default_parser (''  '' @ newline # ''x'') = (None, 3)"
  using try_parse_complete_line [of "''  ''" ref_api default_parser "''x''"]
  by (simp add: default_parser_def DEFAULT_MAX_MESSAGE_SIZE_def line_result_def blanks_def)

text \<open>
  C1. A stream of serialised messages is read back message by message: the parser finds
  exactly the messages that \<open>serialize\<close> wrote, in order, and leaves nothing.
\<close>

theorem stream_roundtrip:
  assumes "nlohmann_json J utf8 dumpable"
    and "list_all2 (\<lambda>m s. serialize J m = Inr s \<and> wf_message m \<and>
      dumpable (JsonMessage_to_json J m) \<and> length s \<le> max_message_size p) ms ss"
  shows "drain (try_parse J p) (concat ss) = (ms, [])"
  using nlohmann_json.drain_serialized [OF assms] .

theorem stream_roundtrip_witness:
  "drain (try_parse ref_api default_parser) (''{\"method\":\"ping\"}'' @ [newline]) =
     ([empty_message\<lparr>jm_method := Some ''ping''\<rparr>], [])"
proof -
  let ?m = "empty_message\<lparr>jm_method := Some ''ping''\<rparr>" and ?s = "''{\"method\":\"ping\"}'' @ [newline]"
  have j: "JsonMessage_to_json ref_api ?m = JObj [(''method'', JStr ''ping'')]"
    by (simp add: JsonMessage_to_json_def set_opt_def empty_message_def)
  have "serialize ref_api ?m = Inr ?s"
    unfolding serialize_def j by code_simp
  moreover have "wf_message ?m"
    by (simp add: wf_message_def is_request_def is_response_def empty_message_def)
  moreover have "canon (JsonMessage_to_json ref_api ?m)" unfolding j by code_simp
  ultimately have "list_all2 (\<lambda>m s. serialize ref_api m = Inr s \<and> wf_message m \<and>
      canon (JsonMessage_to_json ref_api m) \<and> length s \<le> max_message_size default_parser) [?m] [?s]"
    by (simp add: default_parser_def DEFAULT_MAX_MESSAGE_SIZE_def)
  from stream_roundtrip [OF ref.nlohmann_json_axioms this] show ?thesis by simp
qed

text \<open>
  C16. How the kernel cuts the stream does not matter: draining what has arrived and then
  the rest together with the next bytes gives the messages of the whole stream, as long as
  it stays below the size limit.
\<close>

theorem chunks_do_not_matter:
  assumes "length (d @ e) < max_message_size p"
  shows "drain (try_parse J p) (d @ e) =
    (let (ms, rest) = drain (try_parse J p) d; (ns, rest') = drain (try_parse J p) (rest @ e)
     in (ms @ ns, rest'))"
  using jp.drain_append [OF assms, of J] by (simp add: case_prod_beta Let_def)

theorem chunks_do_not_matter_witness:
  "drain (try_parse ref_api default_parser) (''{}'' @ [newline]) =
    (let (ms, rest) = drain (try_parse ref_api default_parser) ''{'';
         (ns, rest') = drain (try_parse ref_api default_parser) (rest @ ''}'' @ [newline])
     in (ms @ ns, rest'))"
  using chunks_do_not_matter [of "''{''" "''}'' @ [newline]" default_parser ref_api]
  by (simp add: default_parser_def DEFAULT_MAX_MESSAGE_SIZE_def)



section \<open>Buffers and sessions\<close>

text \<open>
  C3. Refinement of \<open>IOBuffer\<close>: under any run of fills that fit, takes of available bytes
  and compactions, the readable bytes are those of a plain byte queue and the positions stay
  in range.
\<close>

theorem buffer_refines_queue:
  assumes "buf_ok b" and "legal_run xs b"
  shows "get_read_view (fold do_op xs b) = fold list_op xs (get_read_view b) \<and> buf_ok (fold do_op xs b)"
  using assms by (rule do_ops_refine)

theorem buffer_refines_queue_witness:
  "get_read_view (fold do_op [Fill ''ab'', Take_off 1, Compact, Fill ''c''] (sized_buffer 4)) = ''bc''"
proof -
  have "legal_run [Fill ''ab'', Take_off 1, Compact, Fill ''c''] (sized_buffer 4)"
    by code_simp
  moreover have "buf_ok (sized_buffer 4)" "get_read_view (sized_buffer 4) = []" by code_simp+
  ultimately show ?thesis
    using buffer_refines_queue [of "sized_buffer 4" "[Fill ''ab'', Take_off 1, Compact, Fill ''c'']"] by simp
qed

text \<open>
  \<open>on_readable\<close> always returns: for every session in its invariant, every callback that
  leaves the read side alone and every sequence of \<open>::read\<close> results, the read loop and the
  parse loop end, the invariant holds again, and the result says whether the session is
  active or closed.
\<close>

theorem on_readable_returns:
  assumes "message_handler h" and "session_inv s"
  shows "\<exists>ok s' w' inp'. on_readable J (Some h) err0 s w inp = Some (ok, s', w', inp') \<and>
    session_inv s' \<and> ss_state s' = (if ok then Active else Closed)"
  using message_handler.on_readable_total [OF assms, of J err0 w inp] by auto

theorem on_readable_returns_witness:
  "\<exists>ok s' w' inp'. on_readable ref_api
      (Some (session_callback ref_api (\<lambda>_ w. (Inl (Runtime_error []), w)) 0)) EAGAIN
      (fst (new_session 0 5)) (new_server default_config Absent [], ()) [RData ''{}'', REof] =
        Some (ok, s', w', inp') \<and>
    session_inv s' \<and> ss_state s' = (if ok then Active else Closed)"
  by (rule on_readable_returns [OF cb.message_handler_axioms session_inv_new])

text \<open>
  C2. What \<open>on_readable\<close> hands to the callback: an active session that holds the bytes \<open>v\<close>
  and receives the chunks \<open>cs\<close> dispatches exactly the requests of the stream \<open>v @ concat cs\<close>,
  in order and once each, keeps the unfinished rest, and stays active. The bound of 2^19
  bytes is the last size below which the read buffer can still be doubled.
\<close>

theorem on_readable_dispatches_stream:
  assumes "message_handler h" and "session_inv s" and "ss_state s = Active"
    and "length (buf_data (read_buffer s)) \<le> 2 ^ 19" and "[] \<notin> set cs"
    and "fst (try_parse J default_parser (get_read_view (read_buffer s))) = None"
    and "length (get_read_view (read_buffer s) @ concat cs) + 1024 \<le> 2 ^ 19"
  shows "\<exists>s' w'. on_readable J (Some (logged h)) err0 s (w, l) (map RData cs) =
      Some (True, s', (w', l @ requests J (fst (drain (try_parse J default_parser)
        (get_read_view (read_buffer s) @ concat cs)))), []) \<and>
    get_read_view (read_buffer s') =
      snd (drain (try_parse J default_parser) (get_read_view (read_buffer s) @ concat cs)) \<and>
    ss_state s' = Active"
  using message_handler.on_readable_dispatch [OF assms(1,2), of J cs err0 w l] assms(3-7)
  by (auto simp: takes_def)

theorem on_readable_dispatches_stream_witness:
  "\<exists>s' w'. on_readable ref_api
      (Some (logged (session_callback ref_api (\<lambda>_ w. (Inl (Runtime_error []), w)) 0))) EAGAIN
      (fst (new_session 0 5)) ((new_server default_config Absent [], ()), [])
      (map RData [''{\"method\":'', ''\"ping\"}'' @ [newline]]) =
    Some (True, s', (w', [\<lparr>rq_id = None, rq_method = ''ping'', rq_params = JObj []\<rparr>]), []) \<and>
    get_read_view (read_buffer s') = [] \<and> ss_state s' = Active"
proof -
  let ?s = "fst (new_session 0 5)" and ?cs = "[''{\"method\":'', ''\"ping\"}'' @ [newline]]"
  have v: "get_read_view (read_buffer ?s) = []"
    by (simp add: new_session_def new_buffer_def get_read_view_def available_for_read_def slice_def)
  have "drain (try_parse ref_api default_parser) (''{\"method\":\"ping\"}'' @ [newline]) =
      ([empty_message\<lparr>jm_method := Some ''ping''\<rparr>], [])"
  proof -
    have r: "line_result ref_api ''{\"method\":\"ping\"}'' = Some (empty_message\<lparr>jm_method := Some ''ping''\<rparr>)"
      by code_simp
    have "try_parse ref_api default_parser (''{\"method\":\"ping\"}'' @ newline # []) =
        (Some (empty_message\<lparr>jm_method := Some ''ping''\<rparr>), 18)"
      using try_parse_line [of "''{\"method\":\"ping\"}''" default_parser ref_api "[]"] r
      by (simp add: default_parser_def DEFAULT_MAX_MESSAGE_SIZE_def)
    moreover have "drain (try_parse ref_api default_parser) [] = ([], [])"
      by (rule jp.drain_None [of _ _ _ 0]) (simp add: try_parse_def)
    ultimately show ?thesis using jp.drain_Some by fastforce
  qed
  moreover have "concat ?cs = ''{\"method\":\"ping\"}'' @ [newline]" by simp
  moreover have "requests ref_api [empty_message\<lparr>jm_method := Some ''ping''\<rparr>] =
      [\<lparr>rq_id = None, rq_method = ''ping'', rq_params = JObj []\<rparr>]"
    by (simp add: is_request_def to_request_def empty_message_def mk_obj_def)
  moreover have "length (buf_data (read_buffer ?s)) \<le> 2 ^ 19" "ss_state ?s = Active"
    by (simp_all add: new_session_def new_buffer_def sized_buffer_def)
  moreover have "fst (try_parse ref_api default_parser []) = None" by (simp add: try_parse_def)
  ultimately show ?thesis
    using on_readable_dispatches_stream [OF cb.message_handler_axioms session_inv_new, of 0 5 ?cs ref_api
        ref_api "\<lambda>_ w. (Inl (Runtime_error []), w)" 0 EAGAIN "(new_server default_config Absent [], ())" "[]"] v
    by simp
qed

text \<open>
  Nothing is ever sent: in every state a session can reach through its operations,
  \<open>on_writable\<close> hands no byte to \<open>::write\<close>, because no operation sets the state to
  \<open>Writing\<close>. Queued responses stay in the write buffer.
\<close>

theorem reachable_session_never_writes:
  assumes "message_handler h" and "session_reach J h s"
  shows "on_writable err0 s out = (True, s\<lparr>ss_state := Active\<rparr>, [], out)"
  using session_inv_writable(1) [OF message_handler.session_reach_inv [OF assms]] .

theorem reachable_session_never_writes_witness:
  "on_writable EAGAIN (close_session (fst (new_session 0 5))) [WOk 10] =
     (True, (close_session (fst (new_session 0 5)))\<lparr>ss_state := Active\<rparr>, [], [WOk 10])"
proof -
  let ?h = "session_callback ref_api (\<lambda>_ w :: unit. (Inl (Runtime_error []), w)) 0"
  have "session_reach ref_api ?h (close_session (fst (new_session 0 5)))"
    by (intro session_reach.closed session_reach.created)
  from reachable_session_never_writes [OF cb.message_handler_axioms this] show ?thesis .
qed

text \<open>
  A response is queued behind what is already queued, as its JSON text followed by two
  newlines: the one of \<open>serialize\<close> and the one \<open>schedule_send\<close> adds.
\<close>

theorem schedule_send_queues:
  assumes "buf_ok (write_buffer s)" and "schedule_send J r s = Inr s'"
  shows "\<exists>l. j_dump J (JsonMessage_to_json J
        (empty_message\<lparr>jm_id := rs_id r, jm_result := Some (rs_result r)\<rparr>)) = Inr l \<and>
    get_read_view (write_buffer s') = get_read_view (write_buffer s) @ l @ [newline, newline] \<and>
    read_buffer s' = read_buffer s \<and> ss_state s' = ss_state s"
proof -
  from assms(2) obtain t where t:
      "serialize J (empty_message\<lparr>jm_id := rs_id r, jm_result := Some (rs_result r)\<rparr>) = Inr t"
      "s' = s\<lparr>write_buffer := queue_text t (write_buffer s)\<rparr>"
    unfolding schedule_send_def by (rule schedule_message_ok)
  then show ?thesis
    using queue_text_ok(1) [OF assms(1), of t] by (auto simp: serialize_def res_bind_Inr_iff)
qed

theorem schedule_send_queues_witness:
  "\<exists>s'. schedule_send ref_api \<lparr>rs_id = Some 1, rs_result = JStr ''ok''\<rparr> (fst (new_session 0 5)) = Inr s' \<and>
     get_read_view (write_buffer s') = ''{\"id\":1,\"result\":\"ok\"}'' @ [newline, newline]"
proof -
  let ?s = "fst (new_session 0 5)" and ?r = "\<lparr>rs_id = Some 1, rs_result = JStr ''ok''\<rparr>"
  let ?m = "empty_message\<lparr>jm_id := rs_id ?r, jm_result := Some (rs_result ?r)\<rparr>"
  have d: "j_dump ref_api (JsonMessage_to_json ref_api ?m) = Inr ''{\"id\":1,\"result\":\"ok\"}''"
    by code_simp
  then obtain s' where s': "schedule_send ref_api ?r ?s = Inr s'"
    by (simp add: schedule_send_def schedule_message_def serialize_def)
  have "buf_ok (write_buffer ?s)" "get_read_view (write_buffer ?s) = []"
    by (simp_all add: new_session_def new_buffer_def buf_ok_def get_read_view_def
        available_for_read_def slice_def)
  with schedule_send_queues [OF _ s'] d s' show ?thesis by auto
qed

text \<open>
  C12. Partial writes conserve the queue: what the write loop handed to the kernel followed
  by what is still queued is what was queued before, for every sequence of \<open>::write\<close>
  results that leaves the session open.
\<close>

theorem write_loop_conserves_bytes:
  assumes "buf_ok (write_buffer s)" and "write_loop err0 s out = (True, s', sent, out')"
  shows "sent @ get_read_view (write_buffer s') = get_read_view (write_buffer s)"
  using write_loop_conserves [OF assms] by blast

theorem write_loop_conserves_bytes_witness:
  "\<exists>s' sent out'. write_loop EAGAIN
       ((fst (new_session 0 5))\<lparr>write_buffer := \<lparr>buf_data = ''abc'', read_pos = 0, write_pos = 3\<rparr>\<rparr>)
       [WOk 2, WErr EAGAIN] = (True, s', sent, out') \<and>
     sent = ''ab'' \<and> get_read_view (write_buffer s') = ''c''"
proof -
  let ?s = "(fst (new_session 0 5))\<lparr>write_buffer := \<lparr>buf_data = ''abc'', read_pos = 0, write_pos = 3\<rparr>\<rparr>"
  have ok: "buf_ok (write_buffer ?s)" by (simp add: buf_ok_def)
  have v: "get_read_view (write_buffer ?s) = ''abc''"
    by (simp add: get_read_view_def available_for_read_def slice_def)
  obtain s' where s': "write_loop EAGAIN ?s [WOk 2, WErr EAGAIN] = (True, s', ''ab'', [])"
    by (simp add: Let_def write_to_socket_def available_for_read_def get_read_view_def slice_def write_failed_def
        compact_def advance_read_def overwrite_def)
  with write_loop_conserves_bytes [OF ok s'] v show ?thesis by auto
qed

text \<open>
  A session whose read buffer has reached \<open>MAX_BUFFER_SIZE\<close> never reads again: with
  \<open>errno\<close> left at \<open>EAGAIN\<close> by an earlier call, \<open>on_readable\<close> reports success and consumes
  nothing; with any other value it closes the session.
\<close>

theorem full_buffer_stops_reading:
  assumes "MAX_BUFFER_SIZE \<le> length (buf_data (read_buffer s))" and "ss_state s = Active"
  shows "on_readable J mh err0 s w inp =
    Some (if err0 = EAGAIN then (True, s\<lparr>ss_state := Active\<rparr>, w, inp)
          else (False, close_session (s\<lparr>ss_state := Reading\<rparr>), w, inp))"
  using assms
  by (simp add: on_readable_def read_loop.simps [of J mh err0 "s\<lparr>ss_state := Reading\<rparr>"] read_from_socket_full)

theorem full_buffer_stops_reading_witness:
  "on_readable ref_api (None :: (jv, unit) handler option) EAGAIN
     ((fst (new_session 0 5))\<lparr>read_buffer := sized_buffer MAX_BUFFER_SIZE\<rparr>) () [RData ''x''] =
   Some (True, (fst (new_session 0 5))\<lparr>read_buffer := sized_buffer MAX_BUFFER_SIZE, ss_state := Active\<rparr>,
     (), [RData ''x''])"
  using full_buffer_stops_reading [of "(fst (new_session 0 5))\<lparr>read_buffer := sized_buffer MAX_BUFFER_SIZE\<rparr>"
      ref_api None EAGAIN "()" "[RData ''x'']"]
  by (simp add: sized_buffer_def new_session_def)

section \<open>Connections\<close>

text \<open>
  C6. Refinement of the connection manager: under any sequence of additions of sessions with a
  new id and descriptor, removals by id, removals by descriptor and closings of all, its two
  tables stay inverse to each other and stand for a plain set of sessions, in which the look-ups
  by descriptor and by id, the count and the list of all sessions are answered.
\<close>

theorem connection_manager_refines_set:
  assumes "legal_ops (\<lambda>p. st p \<noteq> None) (\<lambda>p. session_id (the (st p))) (\<lambda>p. client_fd (the (st p))) xs {}"
  shows "let A = fold (set_op (\<lambda>p. session_id (the (st p))) (\<lambda>p. client_fd (the (st p)))) xs {};
             cm = fold (cm_do st) xs new_manager
    in cm_inv st cm \<and> set (get_all_sessions cm) = A \<and> session_count cm = card A \<and>
      (\<forall>fd p. get_session_by_fd fd cm = Some p \<longleftrightarrow> p \<in> A \<and> client_fd (the (st p)) = fd) \<and>
      (\<forall>i p. get_session i cm = Some p \<longleftrightarrow> p \<in> A \<and> session_id (the (st p)) = i)"
proof -
  have all: "set (get_all_sessions cm) = registered_ptrs cm" for cm
    by (simp add: get_all_sessions_def registered_ptrs_def)
  show ?thesis
    using dir.lookups_after_run [OF assms] dir.run_refines [of st new_manager xs] dir.void [of st] assms
    unfolding cm_do_def Let_def all by auto
qed

theorem connection_manager_refines_set_witness:
  "get_session_by_fd 6 (fold (cm_do [0 \<mapsto> fst (new_session 0 5), 1 \<mapsto> fst (new_session 1 6)])
     [Add_op 0, Add_op 1, Drop_fd 5] new_manager) = Some 1"
proof -
  let ?st = "[0 :: session_ptr \<mapsto> fst (new_session 0 5), 1 \<mapsto> fst (new_session 1 6)]"
  let ?xs = "[Add_op 0, Add_op 1, Drop_fd 5]"
  have "legal_ops (\<lambda>p. ?st p \<noteq> None) (\<lambda>p. session_id (the (?st p))) (\<lambda>p. client_fd (the (?st p))) ?xs {}"
    by (simp add: legal_op_def set_op_def new_session_def)
  from connection_manager_refines_set [OF this] show ?thesis
    unfolding Let_def by (simp add: set_op_def new_session_def)
qed

section \<open>The server\<close>

text \<open>
  C4. The invariant of the server holds in every reachable state, whatever clients and
  command handlers do: the tables are consistent, the number of sessions respects
  \<open>max_connections\<close>, every live session object is registered, open and in its class
  invariant, and the epoll interest list holds exactly the listening socket and the
  registered clients.
\<close>

theorem server_invariant:
  assumes "server_reach J ch srv"
  shows "server_inv srv"
  using assms by (rule server_reach_inv)

theorem server_invariant_witness: "server_inv demo_server"
  by (rule server_invariant [OF demo_reach [of ref_api "\<lambda>_ w :: unit. (Inl (Runtime_error []), w)"]])



text \<open>
  No client ever receives a byte: in every reachable state of the server the total
  output to \<open>::write\<close> is empty, although \<open>on_message\<close> queues a response for each request.
\<close>

theorem no_response_is_ever_sent:
  assumes "server_reach J ch srv"
  shows "concat (map snd (wire srv)) = []"
  using server_invD(10) [OF server_reach_inv [OF assms]] by simp

theorem no_response_is_ever_sent_witness: "concat (map snd (wire demo_server)) = []"
  by (rule no_response_is_ever_sent [OF demo_reach [of ref_api "\<lambda>_ w :: unit. (Inl (Runtime_error []), w)"]])

text \<open>
  C29. The connection limit: when \<open>max_connections\<close> sessions are registered, the accept
  loop closes the next connection and stops, so the connections behind it stay pending in
  the kernel although the edge-triggered event has been taken.
\<close>

theorem connection_limit:
  assumes "max_connections (config srv) \<le> active_connections srv" and "valid_fd srv (conn_fd c)"
  shows "accept_loop srv (Inr c # cs) = (sys_close (conn_fd c) (sys_open (conn_fd c) srv), cs)"
  using assms
  by (simp add: accept_loop.simps [of srv] accept_connection_def active_connections_def sys_open_def)

theorem connection_limit_witness:
  "snd (accept_loop (demo_server\<lparr>config := default_config\<lparr>max_connections := 0\<rparr>\<rparr>)
     [Inr \<lparr>conn_fd = 5, getfl_ok = True, setfl_ok = True, epoll_add_ok = True\<rparr>, Inl EINTR]) = [Inl EINTR]"
  using connection_limit [of "demo_server\<lparr>config := default_config\<lparr>max_connections := 0\<rparr>\<rparr>"
      "\<lparr>conn_fd = 5, getfl_ok = True, setfl_ok = True, epoll_add_ok = True\<rparr>" "[Inl EINTR]"]
  by (simp add: valid_fd_def demo_server_def new_server_def default_config_def)



text \<open>
  C32. A connection whose set-up fails is closed twice: the accept loop calls \<open>::close\<close> and
  the destructor of the session calls it again on the same descriptor; nothing else of the
  connection remains.
\<close>

theorem failed_connection_closed_twice:
  assumes "server_inv srv" and "fresh_conn c srv"
    and "\<not> (getfl_ok c \<and> setfl_ok c \<and> epoll_add_ok c)"
  shows "close_calls (open_session c srv) = close_calls srv @ [conn_fd c, conn_fd c] \<and>
    objects (open_session c srv) = objects srv \<and>
    connection_manager (open_session c srv) = connection_manager srv \<and>
    conn_fd c \<notin> set (open_fds (open_session c srv))"
  using open_session_failed [OF assms] by (simp add: dropped_def)

theorem failed_connection_closed_twice_witness:
  "close_calls (open_session \<lparr>conn_fd = 5, getfl_ok = True, setfl_ok = True, epoll_add_ok = False\<rparr>
     (sys_open 5 demo_server)) = [5, 5]"
proof -
  have inv: "server_inv (sys_open 5 demo_server)"
    using accept_connection_cases [OF server_reach_inv [OF demo_reach], of
        "[Inr \<lparr>conn_fd = 5, getfl_ok = True, setfl_ok = True, epoll_add_ok = False\<rparr>]"]
    by (simp add: accept_connection_def valid_fd_def demo_server_def new_server_def sys_open_def
        session_count_def new_manager_def default_config_def)
  show ?thesis
    using failed_connection_closed_twice [OF inv, of "\<lparr>conn_fd = 5, getfl_ok = True, setfl_ok = True, epoll_add_ok = False\<rparr>"]
    by (simp add: fresh_conn_def sys_open_def demo_server_def new_server_def)
qed

text \<open>
  C26. \<open>stop()\<close> leaves no session behind: no object, no table entry, no interest entry and
  no open client descriptor; everything else that was open stays open.
\<close>

theorem stop_ends_every_session:
  assumes "server_reach J ch srv"
  shows "connection_manager (stop srv) = new_manager \<and> objects (stop srv) = (\<lambda>_. None) \<and>
    stop_requested (stop srv) \<and>
    set (open_fds (stop srv)) = {fd \<in> set (open_fds srv). \<not> registered_fd (connection_manager srv) fd} \<and>
    dom (map_of (interest (stop srv))) = {server_fd srv}"
proof -
  have inv: "server_inv srv" by (rule server_reach_inv [OF assms])
  note r = stop_result [OF inv]
  have "dom (map_of (interest (stop srv))) = {server_fd srv}"
    using server_invD(9) [OF server_inv_stop [OF inv]] r(1,5)
    by (auto simp: dom_def watched_def)
  with r show ?thesis by auto
qed

theorem stop_ends_every_session_witness:
  "dom (map_of (interest (stop demo_server))) = {3}"
  using stop_ends_every_session [OF demo_reach [of ref_api "\<lambda>_ w :: unit. (Inl (Runtime_error []), w)"]]
  by (simp add: demo_server_def)

text \<open>
  C31. The response goes to the session whose descriptor equals the request id, truncated to
  32 bits, and not to the session that sent the request: with another session \<open>q\<close>
  registered there, \<open>q\<close> gets the response queued and the sender is left as it was.
\<close>

theorem response_routed_by_request_id:
  assumes "get_session_by_fd (request_fd msg) (connection_manager srv) = Some q" and "q \<noteq> p"
    and "objects srv q = Some t" and "ch msg w = (Inr resp, w')"
    and "schedule_send J (resp\<lparr>rs_id := rq_id msg\<rparr>) t = Inr t'"
  shows "\<exists>srv'. session_callback J ch p msg s (srv, w) = (s, (srv', w'), None) \<and>
    objects srv' = (objects srv)(p := Some s, q := Some t')"
proof -
  let ?srv = "srv\<lparr>objects := (objects srv)(p := Some s)\<rparr>"
  have "on_object q (schedule_send J (resp\<lparr>rs_id := rq_id msg\<rparr>)) ?srv =
      (?srv\<lparr>objects := (objects ?srv)(q := Some t')\<rparr>, None)"
    using assms(2,3,5) by (simp add: on_object_def)
  with assms(1,2,4) show ?thesis
    by (auto simp: session_callback_def on_message_def Let_def)
qed

theorem response_routed_by_request_id_witness:
  "\<exists>srv' t'. session_callback ref_api (\<lambda>m w. (Inr \<lparr>rs_id = None, rs_result = JNull\<rparr>, w)) 0
      \<lparr>rq_id = Some 6, rq_method = ''ping'', rq_params = JNull\<rparr> (fst (new_session 0 5)) (demo_pair, ()) =
    (fst (new_session 0 5), (srv', ()), None) \<and> objects srv' 1 = Some t' \<and>
    schedule_send ref_api \<lparr>rs_id = Some 6, rs_result = JNull\<rparr> (fst (new_session 1 6)) = Inr t'"
proof -
  let ?msg = "\<lparr>rq_id = Some 6, rq_method = ''ping'', rq_params = JNull\<rparr>"
  have "j_dump ref_api (JsonMessage_to_json ref_api
      (empty_message\<lparr>jm_id := Some 6, jm_result := Some JNull\<rparr>)) = Inr ''{\"id\":6,\"result\":null}''"
    by code_simp
  then obtain t' where t': "schedule_send ref_api \<lparr>rs_id = Some 6, rs_result = JNull\<rparr> (fst (new_session 1 6)) = Inr t'"
    by (simp add: schedule_send_def schedule_message_def serialize_def)
  have "get_session_by_fd (request_fd ?msg) (connection_manager demo_pair) = Some 1"
    "objects demo_pair 1 = Some (fst (new_session 1 6))"
    by (simp_all add: demo_pair_def get_session_by_fd_def request_fd_def)
  from response_routed_by_request_id [OF this(1) _ this(2), of 0 "\<lambda>m w. (Inr \<lparr>rs_id = None, rs_result = JNull\<rparr>, w)"
      "()" "\<lparr>rs_id = None, rs_result = JNull\<rparr>" "()" ref_api t' "fst (new_session 0 5)"] t'
  show ?thesis by auto
qed

text \<open>
  A request whose id is not the descriptor of a registered session is dropped: the
  command handler is not called and nothing is queued on any session.
\<close>

theorem unrouted_request_dropped:
  assumes "get_session_by_fd (request_fd msg) (connection_manager srv) = None"
    and "objects srv p = Some s"
  shows "session_callback J ch p msg s (srv, w) = (s, (srv, w), None)"
  using callback_unrouted [OF assms(1), of J ch p s w] assms(2) by (simp add: fun_upd_idem)

theorem unrouted_request_dropped_witness:
  "session_callback ref_api (\<lambda>m w. (Inr \<lparr>rs_id = None, rs_result = JNull\<rparr>, w + 1)) 0
      \<lparr>rq_id = Some 1, rq_method = ''ping'', rq_params = JNull\<rparr> (fst (new_session 0 5)) (demo_pair, 0 :: nat) =
    (fst (new_session 0 5), (demo_pair, 0), None)"
  by (rule unrouted_request_dropped)
    (simp_all add: demo_pair_def get_session_by_fd_def request_fd_def)

text \<open>
  Descriptors survive their detour through \<open>epoll_data.ptr\<close>, and the null pointer that
  marks the listening socket is hit by descriptor 0 only.
\<close>

theorem fd_pointer_roundtrip:
  "ptr_to_fd (fd_to_ptr fd) = fd \<and> (fd_to_ptr fd = 0 \<longleftrightarrow> fd = 0)"
  using ptr_to_fd_inverse fd_to_ptr_zero by blast

text \<open>
  C20. Descriptors of the server: when \<open>initialize()\<close> fails it leaves none open and both members at
  \<open>-1\<close>; in every state that a started server reaches, the open descriptors are exactly the
  inherited ones, its own two and those of the registered clients, and the destructor gives back
  all but the inherited ones.
\<close>

theorem server_gives_back_descriptors:
  assumes "setup_ok env (new_server c path fds)"
    and "server_initialize env (new_server c path fds) = (ok, srv0)"
  shows "(\<not> ok \<longrightarrow> set (open_fds srv0) = set fds \<and> server_fd srv0 = - 1 \<and> epoll_fd srv0 = - 1 \<and> interest srv0 = []) \<and>
    (\<forall>srv. ok \<longrightarrow> (server_step J ch)\<^sup>*\<^sup>* srv0 srv \<longrightarrow>
      set (open_fds srv) = set fds \<union> {server_fd srv, epoll_fd srv} \<union> {fd. registered_fd (connection_manager srv) fd} \<and>
      set (open_fds (destroy_server srv)) = set fds)"
proof (cases ok)
  case True
  with assms(2) have i: "server_initialize env (new_server c path fds) = (True, srv0)" by simp
  have "owns (set fds) srv \<and> server_inv srv" if "(server_step J ch)\<^sup>*\<^sup>* srv0 srv" for srv
    using steps_owns [OF assms(1) i that] server_reach_inv by blast
  with True destroy_server_fds(1) show ?thesis by (auto simp: owns_def Let_def)
next
  case False
  with assms(2) server_initialize_False [OF assms(1)] show ?thesis by simp
qed

theorem server_gives_back_descriptors_witness:
  "set (open_fds (destroy_server (stop demo_server))) = {0, 1, 2}"
proof -
  let ?ch = "\<lambda>_ w :: unit. (Inl (Runtime_error []), w)"
  have "(server_step ref_api ?ch)\<^sup>*\<^sup>* demo_server (stop demo_server)"
    by (intro r_into_rtranclp server_step.halt)
  with server_gives_back_descriptors [OF demo_setup_ok demo_initialize, of ref_api ?ch] show ?thesis by simp
qed

text \<open>
  \<open>run()\<close> returns true exactly when no stop was requested, that is when
  \<open>epoll_wait\<close> failed; a server stopped by \<open>stop()\<close> makes it return false.
\<close>

theorem run_result_means_failure:
  assumes "0 \<le> sint (server_fd srv)" and "0 \<le> sint (epoll_fd srv)"
    and "run J ch rs srv w = Some (Some b, srv', w')"
  shows "b = (\<not> stop_requested srv') \<and> \<not> running srv'"
  using assms wait_loop_result by (simp add: run_def)

theorem run_result_means_failure_witness:
  "\<exists>srv'. run ref_api (\<lambda>_ w. (Inl (Runtime_error []), w)) [Stop_called, Wait_error EINTR] demo_server () =
     Some (Some False, srv', ()) \<and> stop_requested srv'"
proof -
  let ?srv = "(stop (demo_server\<lparr>running := True, stop_requested := False\<rparr>))\<lparr>running := False\<rparr>"
  have s: "stop_requested (stop (demo_server\<lparr>running := True, stop_requested := False\<rparr>))"
    by (rule stop_result(3) [OF server_inv_flags(2) [OF server_reach_inv [OF demo_reach]]])
  have fds: "0 \<le> sint (server_fd demo_server)" "0 \<le> sint (epoll_fd demo_server)"
    by (simp_all add: demo_server_def)
  then have r: "run ref_api (\<lambda>_ w. (Inl (Runtime_error []), w)) [Stop_called, Wait_error EINTR] demo_server () =
      Some (Some False, ?srv, ())"
    using s by (simp add: run_def)
  from run_result_means_failure [OF fds r] r show ?thesis by auto
qed

section \<open>Background tasks\<close>





text \<open>
  C38. A \<open>SleepTask\<close> that is not cancelled ends: with a clock that advances by at least the
  requested sleep in each round, its worker has stored \<open>Stopped\<close> and left after at most one
  round per started 100 ms of the remaining time and two more.
\<close>

theorem sleep_task_ends:
  assumes "sl_worker t = Working elapsed" and "clock_ok (sl_duration t) elapsed ns"
    and "nat ((sl_duration t - elapsed + 99) div 100) + 2 \<le> length ns"
  shows "sl_worker (fold (sleep_step False) ns t) = Exited \<and>
    sl_state (fold (sleep_step False) ns t) = Stopped"
  using sleep_finishes [OF assms] by simp

theorem sleep_task_ends_witness:
  "sl_state (fold (sleep_step False) [100, 200, 250, 260]
     (snd (sleep_start None (demo_sleep\<lparr>sl_duration := 150\<rparr>)))) = Stopped"
  using sleep_task_ends [of "snd (sleep_start None (demo_sleep\<lparr>sl_duration := 150\<rparr>))" 0 "[100, 200, 250, 260]"]
  by (simp add: sleep_start_def demo_sleep_def new_sleep_def sleep_generate_id_def
      sleep_request_def check_interval_def)

text \<open>
  The tables of task types. Registering a type binds it to the factory if the type is free
  and changes nothing if it is taken, creation uses the first factory bound to the type, and the
  registered types are listed in order. The built-in factory creates heartbeat tasks (default
  interval 5 s) and sleep tasks (default duration 10 s) with fresh ids, in the pending state; a
  parameter of the wrong type makes it throw what \<open>get<int>()\<close> throws, and an unknown type
  gives a null pointer.
\<close>

lemma registry_first_factory_wins:
  "create_task typ i params (snd (register_task_type k f r)) c =
     (if typ = k \<and> \<not> has_type k r then f i params c else create_task typ i params r c) \<and>
   fst (register_task_type k f r) = (\<not> has_type k r) \<and>
   sorted (get_registered_types r) \<and> set (get_registered_types r) = {t. has_type t r}"
  by (auto simp: create_task_def register_task_type_def has_type_def get_registered_types_def umap_keys)

lemma builtin_factory_creates:
  "createTask typ params (startup_factory J) c =
    (let seconds = (\<lambda>key d. if j_contains J params key then j_get_int J (j_at J params key) else Inr d) in
     if typ = ''heartbeat'' then
       (case seconds ''interval'' 5 of
          Inl e \<Rightarrow> (Inl e, c)
        | Inr n \<Rightarrow> (Inr (Some (Heartbeat \<lparr>hb_id = ''heartbeat_'' @ nat_string (unat (heartbeat_counter c)),
              hb_interval = sint n * 1000, hb_state = Pending, hb_stopped = False, hb_last_error = [],
              hb_worker = No_thread\<rparr>)), c\<lparr>heartbeat_counter := heartbeat_counter c + 1\<rparr>))
     else if typ = ''sleep'' then
       (case seconds ''duration'' 10 of
          Inl e \<Rightarrow> (Inl e, c)
        | Inr n \<Rightarrow> (Inr (Some (Sleep \<lparr>sl_id = ''sleep_'' @ nat_string (unat (sleep_counter c)),
              sl_duration = sint n * 1000, sl_state = Pending, sl_stopped = False, sl_last_error = [],
              sl_worker = No_thread\<rparr>)), c\<lparr>sleep_counter := sleep_counter c + 1\<rparr>))
     else (Inr None, c))"
  unfolding createTask_def builtin_types(2)
  by (simp add: heartbeat_creator_def sleep_creator_def new_heartbeat_def new_sleep_def
      heartbeat_generate_id_def sleep_generate_id_def Let_def split: sum.split)

text \<open>
  \<open>add_task\<close> on every branch: nothing after a shutdown request; the exception of the
  factory and the null pointer are passed on with the counter advanced; otherwise a new entry
  under the next, unused id, and that entry holds a null task pointer, because the task was
  moved into an earlier variable.
\<close>

theorem add_task_branches:
  assumes "tm_keys m"
  shows "add_task clock thread_exn typ params m =
    (let i = manager_task_id (next_task_id m);
         r = create_task typ i params (tm_registry m) (tm_counters m);
         m1 = m\<lparr>next_task_id := next_task_id m + 1, tm_counters := snd r\<rparr>
     in if shutdown_requested m then (Inr [], m)
        else case fst r of
          Inl e \<Rightarrow> (Inl e, m1)
        | Inr None \<Rightarrow> (Inr [], m1)
        | Inr (Some t) \<Rightarrow>
            (case thread_exn of None \<Rightarrow> Inr i | Some e \<Rightarrow> Inl e,
             m1\<lparr>tm_tasks := tm_tasks m @
               [(i, \<lparr>te_task = None, te_joinable = False, te_stop = Some False, te_running = False,
                     te_created_at = snd clock, te_started_at = time_point_min,
                     te_stopped_at = time_point_min\<rparr>)]\<rparr>))"
  unfolding add_task_cases [OF assms] stamped_def new_entry_def by (simp add: Let_def split: sum.split option.split)

theorem add_task_branches_witness:
  "fst (add_task (0, 0) None ''sleep'' (JObj []) demo_manager) = Inr ''task_0''"
proof -
  have "manager_task_id 0 = ''task_0''"
    by code_simp
  then show ?thesis
    using add_task_branches [OF demo_manager_ok(1), of "(0, 0)" None "''sleep''" "JObj []"] demo_create
    by (simp add: Let_def) (simp add: demo_manager_def)
qed





text \<open>
  When every entry has its task, \<open>list_tasks\<close> reports each task exactly once, sorted by
  the id of the task itself.
\<close>

theorem list_tasks_complete_and_sorted:
  assumes "list_tasks m = Done infos"
  shows "sorted (map ti_id infos) \<and> length infos = total_count m \<and>
    mset (map ti_id infos) = mset (map (\<lambda>e. task_id (the (te_task (snd e)))) (tm_tasks m))"
  using list_tasks_Done [OF assms] by blast

theorem list_tasks_complete_and_sorted_witness:
  "\<exists>infos. list_tasks (demo_manager\<lparr>tm_tasks := [(''task_0'',
       \<lparr>te_task = Some (Sleep demo_sleep), te_joinable = False, te_stop = Some False, te_running = False,
        te_created_at = 0, te_started_at = 0, te_stopped_at = 0\<rparr>)]\<rparr>) = Done infos \<and>
     length infos = 1"
proof -
  let ?m = "demo_manager\<lparr>tm_tasks := [(''task_0'',
       \<lparr>te_task = Some (Sleep demo_sleep), te_joinable = False, te_stop = Some False, te_running = False,
        te_created_at = 0, te_started_at = 0, te_stopped_at = 0\<rparr>)]\<rparr>"
  obtain infos where "list_tasks ?m = Done infos" by (simp add: list_tasks_def entry_info_def)
  with list_tasks_complete_and_sorted [OF this] show ?thesis by (auto simp: total_count_def)
qed

section \<open>The daemon\<close>















text \<open>
  C27. The signal loop ends on \<open>SIGINT\<close> and \<open>SIGTERM\<close>, in whatever order they arrive with
  other signals: if one of them is delivered before the last round and the pipe holds the
  signals of a round, the loop ends, with the shutdown flag set; and the rounds of the loop are a
  run of the whole daemon, which takes the main thread from the test of the flag to
  \<open>server.stop()\<close> without a step of the server thread.
\<close>

theorem signal_loop_ends_on_termination:
  assumes "sig_initialized h" and "pipe_bytes h = 0" and "sig_inv h"
    and "\<forall>r \<in> set rs. length (fst r) + length (snd r) \<le> cap"
    and "\<exists>r \<in> set (butlast rs). {SIGINT, SIGTERM} \<inter> (set (fst r) \<union> set (snd r)) \<noteq> {}"
    and "\<forall>r \<in> set rs. set (fst r) \<union> set (snd r) \<subseteq> sigs"
  shows "\<exists>h'. signal_loop cap rs h = Some h' \<and> shutdownRequested h' \<and>
    (\<forall>y. sy_signals y = h \<longrightarrow> sy_main y = Test_flag \<longrightarrow>
      (system_step J cap reg sigs errs)\<^sup>*\<^sup>* y (y\<lparr>sy_signals := h', sy_main := Stop_server\<rparr>))"
proof -
  obtain h' where h: "signal_loop cap rs h = Some h'" using signal_loop_ends [OF assms(1,2,4,5)] by blast
  moreover have "shutdownRequested h'" using signal_loop_flag [OF h] assms(3) by blast
  ultimately show ?thesis using signal_loop_steps [OF _ _ assms(6)] by blast
qed

theorem signal_loop_ends_on_termination_witness:
  "\<exists>h'. signal_loop 64 [([], [SIGTERM, SIGHUP]), ([], [])] (new_signal_handler\<lparr>sig_initialized := True\<rparr>) =
      Some h' \<and> shutdownRequested h'"
proof -
  have "\<exists>h'. signal_loop 64 [([], [SIGTERM, SIGHUP]), ([], [])] (new_signal_handler\<lparr>sig_initialized := True\<rparr>) = Some h' \<and>
      shutdownRequested h' \<and>
      (\<forall>y. sy_signals y = new_signal_handler\<lparr>sig_initialized := True\<rparr> \<longrightarrow> sy_main y = Test_flag \<longrightarrow>
        (system_step ref_api 64 demo_commands {SIGTERM, SIGHUP} {})\<^sup>*\<^sup>* y
          (y\<lparr>sy_signals := h', sy_main := Stop_server\<rparr>))"
    by (rule signal_loop_ends_on_termination) (simp_all add: new_signal_handler_def sig_inv_def)
  then show ?thesis by blast
qed

section \<open>Logging\<close>

text \<open>
  C40. The logger writes exactly the messages of the minimal level and above, in order, each
  with its prefix; a formatted message is the format, unchanged, followed by the arguments.
\<close>

theorem logger_writes_selected:
  "log_lines (fold (\<lambda>(now, l, m). log_message put_time now l m) calls (setMinLevel level L)) =
     log_lines L @ map (\<lambda>(now, l, m). formatPrefix put_time now l @ m)
       (filter (\<lambda>(now, l, m). level \<le> l) calls) \<and>
   log_format put_time now' l' format args L =
     log_message put_time now' l' (''[DEMON] '' @ format @ concat (map ((#) (CHR '' '')) args)) L"
  using log_format_message [of put_time now' l' format args L]
  by (simp add: log_calls setMinLevel_def)

section \<open>The client\<close>

text \<open>
  C7. What the client sends is what the server's parser expects: whatever the kernel takes of
  the request and in whatever pieces, the parser finds no message as long as the newline has
  not been sent and exactly the request with the new request id afterwards.
\<close>

theorem client_request_is_parsed:
  assumes "nlohmann_json J utf8 dumpable" and "utf8 method" and "dumpable params"
    and "sendRequest J strerror method params duration out inp c = (r, c', sent)"
    and "length sent < max_message_size p"
  shows "cl_request_id c' = cl_request_id c + 1 \<and>
    drain (try_parse J p) sent =
      (if newline \<in> set sent
       then ([\<lparr>jm_id = Some (cl_request_id c'), jm_method = Some method, jm_params = Some params,
               jm_result = None, jm_error = None\<rparr>], [])
       else ([], sent))"
  by (rule nlohmann_json.client_request_drained [OF assms])

theorem client_request_is_parsed_witness:
  "drain (try_parse ref_api default_parser)
     (snd (snd (sendRequest ref_api (\<lambda>_. []) ''ping'' JNull 0 [WOk 3, WErr EINTR, WOk 100] []
        (new_client ''/s'' 5000 [])))) =
   ([\<lparr>jm_id = Some 1, jm_method = Some ''ping'', jm_params = Some JNull, jm_result = None, jm_error = None\<rparr>], [])"
proof -
  let ?r = "sendRequest ref_api (\<lambda>_. []) ''ping'' JNull 0 [WOk 3, WErr EINTR, WOk 100] [] (new_client ''/s'' 5000 [])"
  have sent: "snd (snd ?r) = ''{\"id\":1,\"method\":\"ping\",\"params\":null}'' @ [newline]"
    and id: "cl_request_id (fst (snd ?r)) = 1"
    by code_simp+
  have "?r = (fst ?r, fst (snd ?r), snd (snd ?r))" by simp
  from client_request_is_parsed [OF ref.nlohmann_json_axioms _ _ this, of default_parser]
  show ?thesis
    using sent id by (simp add: ascii_def default_parser_def DEFAULT_MAX_MESSAGE_SIZE_def new_client_def)
qed

text \<open>
  C8. The client reads what the server's session queues: when the request has gone out and the
  bytes that \<open>schedule_send\<close> or \<open>schedule_send_error\<close> queued on an empty buffer arrive in any
  pieces, \<open>sendRequest\<close> returns the result, or the code, message and data of the error, and is
  not disturbed by the doubled newline.
\<close>

theorem client_reads_response:
  assumes "nlohmann_json J utf8 dumpable" and "utf8 method" and "dumpable params"
    and "buf_ok (write_buffer s)" and "get_read_view (write_buffer s) = []"
    and "schedule_send J rs s = Inr s1" and "dumpable (rs_result rs)"
    and "schedule_send_error J er s = Inr s2" and "utf8 (pe_message (er_error er))"
      "\<forall>d. pe_data (er_error er) = Some d \<longrightarrow> dumpable d"
    and "\<forall>d \<in> set cs. d \<noteq> []"
    and "sendRequest J strerror method params duration out (map RData cs) c = (r, c', sent)"
    and "newline \<in> set sent"
  shows "(concat cs = get_read_view (write_buffer s1) \<longrightarrow>
      r = Some \<lparr>resp_success = True, resp_error_code = None, resp_message = ''OK'',
        resp_data = rs_result rs, resp_time = duration\<rparr>) \<and>
    (concat cs = get_read_view (write_buffer s2) \<longrightarrow>
      r = Some \<lparr>resp_success = False, resp_error_code = Some (pe_code (er_error er)),
        resp_message = pe_message (er_error er),
        resp_data = (case pe_data (er_error er) of None \<Rightarrow> j_object J [] | Some d \<Rightarrow> d),
        resp_time = duration\<rparr>)"
proof -
  note J = nlohmann_json.axioms(1) [OF assms(1)]
  let ?m1 = "empty_message\<lparr>jm_id := rs_id rs, jm_result := Some (rs_result rs)\<rparr>"
  let ?m2 = "empty_message\<lparr>jm_id := er_id er, jm_error := Some (er_error er)\<rparr>"
  note queued = nlohmann_json.client_reads_queued [OF assms(1-5) _ _ assms(11) _ assms(12,13)]
  have 1: "schedule_message J ?m1 s = Inr s1" "dumpable (JsonMessage_to_json J ?m1)"
    using assms(6,7) nlohmann_json.dumpable_message [OF assms(1), of ?m1]
    by (auto simp: schedule_send_def empty_message_def)
  have "dumpable (ProtocolError_to_json J (er_error er))"
    using nlohmann_json.dumpable_ProtocolError [OF assms(1)] assms(9,10) by blast
  then have 2: "schedule_message J ?m2 s = Inr s2" "dumpable (JsonMessage_to_json J ?m2)"
    using assms(8) nlohmann_json.dumpable_message [OF assms(1), of ?m2]
    by (auto simp: schedule_send_error_def empty_message_def)
  show ?thesis
  proof (intro conjI impI)
    assume "concat cs = get_read_view (write_buffer s1)"
    from queued [OF 1 this] json_build.decode_result [OF J, of _ ?m1 "rs_result rs" duration]
    show "r = Some \<lparr>resp_success = True, resp_error_code = None, resp_message = ''OK'',
        resp_data = rs_result rs, resp_time = duration\<rparr>"
      by (auto simp: empty_message_def)
  next
    assume "concat cs = get_read_view (write_buffer s2)"
    from queued [OF 2 this] json_build.decode_error [OF J, of _ ?m2 "er_error er" duration]
    show "r = Some \<lparr>resp_success = False, resp_error_code = Some (pe_code (er_error er)),
        resp_message = pe_message (er_error er),
        resp_data = (case pe_data (er_error er) of None \<Rightarrow> j_object J [] | Some d \<Rightarrow> d),
        resp_time = duration\<rparr>"
      by (auto simp: empty_message_def)
  qed
qed

theorem client_reads_response_witness:
  "fst (sendRequest ref_api (\<lambda>_. []) ''ping'' JNull 7 [WOk 100]
      (map RData [''{\"id\":1,\"res'', ''ult\":\"ok\"}'' @ [newline], [newline]]) (new_client ''/s'' 5000 [])) =
   Some \<lparr>resp_success = True, resp_error_code = None, resp_message = ''OK'', resp_data = JStr ''ok'', resp_time = 7\<rparr>"
proof -
  let ?s = "fst (new_session 0 5)" and ?cs = "[''{\"id\":1,\"res'', ''ult\":\"ok\"}'' @ [newline], [newline]]"
  let ?rs = "\<lparr>rs_id = Some 1, rs_result = JStr ''ok''\<rparr>"
  let ?er = "\<lparr>er_id = Some 1, er_error = \<lparr>pe_code = 0, pe_message = [], pe_data = None\<rparr>\<rparr>"
  let ?r = "sendRequest ref_api (\<lambda>_. []) ''ping'' JNull 7 [WOk 100] (map RData ?cs) (new_client ''/s'' 5000 [])"
  have s: "buf_ok (write_buffer ?s)" "get_read_view (write_buffer ?s) = []"
    by (simp_all add: new_session_def new_buffer_def buf_ok_def get_read_view_def
        available_for_read_def slice_def)
  have d: "j_dump ref_api (JsonMessage_to_json ref_api
      (empty_message\<lparr>jm_id := rs_id ?rs, jm_result := Some (rs_result ?rs)\<rparr>)) = Inr ''{\"id\":1,\"result\":\"ok\"}''"
    by code_simp
  have e: "j_dump ref_api (JsonMessage_to_json ref_api
      (empty_message\<lparr>jm_id := er_id ?er, jm_error := Some (er_error ?er)\<rparr>)) =
      Inr ''{\"error\":{\"code\":0,\"message\":\"\"},\"id\":1}''"
    by code_simp
  from d obtain s1 where s1: "schedule_send ref_api ?rs ?s = Inr s1"
      "get_read_view (write_buffer s1) = concat ?cs"
    using queue_text_ok(1) [OF s(1)] s(2)
    by (simp add: schedule_send_def schedule_message_def serialize_def)
  from e obtain s2 where s2: "schedule_send_error ref_api ?er ?s = Inr s2"
    by (simp add: schedule_send_error_def schedule_message_def serialize_def)
  have sent: "newline \<in> set (snd (snd ?r))" by code_simp
  have "?r = (fst ?r, fst (snd ?r), snd (snd ?r))" by simp
  from client_reads_response [OF ref.nlohmann_json_axioms _ _ s s1(1) _ s2 _ _ _ this sent] s1(2)
  show ?thesis by (simp add: ascii_def)
qed



text \<open>
  C34. Connecting owns exactly one descriptor: a failed attempt closes what it opened, a
  successful one adds the new descriptor, which \<open>disconnect\<close> and the destructor give back; the
  address is the socket path only up to 107 characters, although the server refuses longer
  paths.
\<close>

theorem connect_owns_one_descriptor:
  assumes "\<And>fd. ce_socket env = Some fd \<Longrightarrow> 0 \<le> sint fd \<and> fd \<notin> set (cl_open_fds c)"
    and "client_connect env c = (ok, c')"
  shows "isConnected c' = ok \<and>
    cl_open_fds c' = (if ok then cl_fd c' # cl_open_fds c else cl_open_fds c) \<and>
    \<not> isConnected (disconnect c') \<and> cl_open_fds (disconnect c') = cl_open_fds c \<and>
    cl_open_fds (destroy_client c') = cl_open_fds c \<and>
    (ok \<longrightarrow> ce_connect env (take 107 (takeWhile (\<lambda>ch. ch \<noteq> CHR 0x00) (cl_socket_path c))))"
  using assms client_connect_cases [of env c]
  by (auto simp: isConnected_def disconnect_def destroy_client_def client_close_def sun_path_def Let_def
      removeAll_id split: option.splits if_splits)

theorem connect_owns_one_descriptor_witness:
  "cl_open_fds (disconnect (snd (client_connect
      \<lparr>ce_socket = Some 3, ce_rcvtimeo = \<lambda>_. True, ce_sndtimeo = \<lambda>_. True, ce_connect = \<lambda>p. p = ''/s''\<rparr>
      (new_client ''/s'' 5000 [0, 1, 2])))) = [0, 1, 2]"
proof -
  let ?env = "\<lparr>ce_socket = Some (3 :: int32), ce_rcvtimeo = \<lambda>_ :: int \<times> int. True, ce_sndtimeo = \<lambda>_ :: int \<times> int. True,
    ce_connect = \<lambda>p. p = ''/s''\<rparr>"
  let ?c = "new_client ''/s'' 5000 [0, 1, 2]"
  have "0 \<le> sint fd \<and> fd \<notin> set (cl_open_fds ?c)" if "ce_socket ?env = Some fd" for fd
    using that by (auto simp: new_client_def)
  moreover obtain ok c' where "client_connect ?env ?c = (ok, c')" by fastforce
  ultimately have "cl_open_fds (disconnect c') = cl_open_fds ?c"
    using connect_owns_one_descriptor [of ?env ?c ok c'] by blast
  with \<open>client_connect ?env ?c = (ok, c')\<close> show ?thesis by (simp add: new_client_def)
qed

section \<open>The command line tool and the daemon\<close>



text \<open>
  C15. The first request of every client is dropped: it carries the id 1, the server takes the id
  for a descriptor, and descriptor 1 (the standard output the daemon was started with) never
  belongs to a session. In every state the server reaches, the event with the bytes of the
  request, in whatever pieces, consumes them without calling the command handler and without
  touching another session, so nobody is answered.
\<close>

theorem first_request_is_dropped:
  assumes "nlohmann_json J utf8 dumpable" and "utf8 method" and "dumpable params"
    and "sendRequest J strerror method params duration out inp (new_client path timeout fds) = (r, c', sent)"
    and "newline \<in> set sent"
    and "setup_ok env (new_server cfg entry inherited)" and "1 \<in> set inherited"
    and "server_initialize env (new_server cfg entry inherited) = (True, srv0)" and "(server_step J ch)\<^sup>*\<^sup>* srv0 srv"
    and "get_session_by_fd (ptr_to_fd (ev_ptr ev)) (connection_manager srv) = Some p" and "objects srv p = Some s"
    and "get_read_view (read_buffer s) = []" and "takes J s cs" and "concat cs = sent"
    and "ev_ptr ev \<noteq> 0" and "ev_events ev AND EPOLLIN \<noteq> 0" and "ev_input ev = map RData cs"
  shows "\<exists>srv' s'. handle_epoll_event J ch ev srv w = Some (srv', w) \<and>
    connection_manager srv' = connection_manager srv \<and> (\<forall>q. q \<noteq> p \<longrightarrow> objects srv' q = objects srv q) \<and>
    objects srv' p = Some s' \<and> ss_state s' = Active \<and> get_read_view (read_buffer s') = []"
proof -
  let ?msg = "\<lparr>jm_id = Some 1, jm_method = Some method, jm_params = Some params, jm_result = None, jm_error = None\<rparr>"
  have "length sent < max_message_size default_parser"
    using assms(13,14) by (simp add: takes_def default_parser_def DEFAULT_MAX_MESSAGE_SIZE_def)
  from nlohmann_json.client_request_drained [OF assms(1-4) this] assms(5)
  have d: "drain (try_parse J default_parser) (get_read_view (read_buffer s) @ concat cs) = ([?msg], [])"
    using assms(12,14) by (simp add: new_client_def)
  from steps_owns [OF assms(6,8,9)] have inv: "server_inv srv" "owns (set inherited) srv"
    using server_reach_inv by blast+
  have "get_session_by_fd 1 (connection_manager srv) = None" by (rule owns_unrouted [OF inv assms(7)])
  then have "\<forall>m \<in> set (requests J (fst (drain (try_parse J default_parser) (get_read_view (read_buffer s) @ concat cs)))).
      unrouted srv m"
    unfolding d by (simp add: unrouted_def request_fd_def to_request_def is_request_def)
  then show ?thesis
    by (rule unrouted_event [OF inv(1) assms(10,11,15-17,13)]) (use d in auto)
qed

theorem first_request_is_dropped_witness:
  "\<exists>srv' s'. handle_epoll_event ref_api (\<lambda>m w. (Inl (Runtime_error []), Suc w))
      \<lparr>ev_events = EPOLLIN, ev_ptr = 5, ev_conns = [],
       ev_input = [RData (''{\"id\":1,\"method\":\"ping\",\"params\":null}'' @ [newline])],
       ev_output = [], ev_errno = EAGAIN\<rparr> demo_client 0 = Some (srv', 0) \<and>
    objects srv' 0 = Some s' \<and> get_read_view (read_buffer s') = []"
proof -
  let ?r = "sendRequest ref_api (\<lambda>_. []) ''ping'' JNull 0 [WOk 100] [] (new_client ''/s'' 5000 [])"
  let ?ch = "\<lambda>m w :: nat. (Inl (Runtime_error []), Suc w)" and ?s = "fst (new_session 0 5)"
  let ?sent = "''{\"id\":1,\"method\":\"ping\",\"params\":null}'' @ [newline]"
  let ?ev = "\<lparr>ev_events = EPOLLIN, ev_ptr = 5, ev_conns = [], ev_input = [RData ?sent], ev_output = [], ev_errno = EAGAIN\<rparr>"
  have sent: "snd (snd ?r) = ?sent" by code_simp
  then have r: "?r = (fst ?r, fst (snd ?r), ?sent)" by (metis prod.collapse)
  have fd: "ptr_to_fd (5 :: 64 word) = 5" using ptr_to_fd_inverse [of 5] by (simp add: fd_to_ptr_def)
  have v: "get_read_view (read_buffer ?s) = []" "takes ref_api ?s [?sent]"
    by (simp_all add: new_session_def new_buffer_def sized_buffer_def get_read_view_def available_for_read_def
        slice_def takes_def try_parse_def)
  have "ascii ''ping''" "canon JNull" by (simp_all add: ascii_def)
  from first_request_is_dropped [OF ref.nlohmann_json_axioms this r _ demo_setup_ok _ demo_initialize demo_client(1)
      _ demo_client(3) v, where ev = ?ev and w = 0 and ch = ?ch] demo_client(2) fd
  show ?thesis by (auto simp: EPOLLIN_def)
qed





text \<open>
  C35. The tool does not show what the daemon reports: the lists of commands and of tasks are
  members of an object where it looks for an array, so it prints the headings only, and the id
  of a new task is the member \<open>id\<close> where it looks for an integer \<open>task_id\<close>, so it prints -1.
\<close>

theorem cli_hides_daemon_data:
  assumes "json_build J" and "resp_success r"
  shows "(resp_data r = cr_data (commands_list_execute J) \<longrightarrow>
      formatAndPrintResponse J r ''commands'' (''list'' # rest) False =
        (Inr 0, ''Available commands:'' @ [newline], [])) \<and>
    (tasks_list_execute J m = Done cr \<longrightarrow> resp_data r = cr_data cr \<longrightarrow>
      formatAndPrintResponse J r ''tasks'' (''list'' # rest) False =
        (Inr 0, ''Background tasks:'' @ [newline], [])) \<and>
    (tasks_add_execute J env params m = (Inr cr, m') \<longrightarrow> cr_success cr \<longrightarrow> resp_data r = cr_data cr \<longrightarrow>
      formatAndPrintResponse J r ''tasks'' (''add'' # rest) False =
        (Inr 0, ''Task added. ID: -1'' @ [newline], []))"
proof -
  have object: "\<not> j_is_array J (j_object J ps)" "j_is_object J (j_object J ps)" for ps
    using json_kinds.array_kind [OF json_build.axioms(1) [OF assms(1)]]
      json_build.is_object_object [OF assms(1)] by blast+
  have one: "int_string (- 1) = ''-1''" by code_simp
  have id: "j_value_int J (j_object J ps) ''task_id'' (- 1) = Inr (- 1)" if "''task_id'' \<notin> fst ` set ps" for ps
    using json_kinds.value_int [OF json_build.axioms(1) [OF assms(1)] object(2)]
      json_build.contains_object_iff [OF assms(1), of ps "''task_id''"] that by simp
  show ?thesis
    using assms(2)
    by (auto simp: formatAndPrintResponse_def human_pieces_def commands_list_execute_def
        tasks_list_execute_def tasks_add_execute_def cr_ok_def cr_err_def object id one out_bind_Done_iff
        split: if_splits sum.splits prod.splits)
qed

theorem cli_hides_daemon_data_witness:
  "formatAndPrintResponse ref_api \<lparr>resp_success = True, resp_error_code = None, resp_message = ''OK'',
      resp_data = cr_data (commands_list_execute ref_api), resp_time = 1\<rparr> ''commands'' [''list''] False =
    (Inr 0, ''Available commands:'' @ [newline], [])"
  using cli_hides_daemon_data [OF ref.json_build_axioms, of "\<lparr>resp_success = True, resp_error_code = None,
      resp_message = ''OK'', resp_data = cr_data (commands_list_execute ref_api), resp_time = 1\<rparr>" "[]"]
  by simp

end
